(* ===== verification/Prelude.thy ===== *)
theory Prelude
  imports Main "HOL-Library.List_Lexorder" "HOL-Library.Char_ord"
begin

text \<open>
  Shared vocabulary of the development.

  \<^item> Go errors are values of \<^verbatim>\<open>err\<close>; a Go function returning \<open>(T, error)\<close>
    becomes a function into \<open>err + T\<close>, one returning \<open>error\<close> a function into
    \<open>err option\<close>.  A panic is the error value \<open>GoPanic\<close>, which no
    \<^verbatim>\<open>fmt.Errorf\<close> wraps (\<^verbatim>\<open>wrap\<close>).
  \<^item> A Go map is a partial function.  Reading a missing key yields the zero value
    (\<^verbatim>\<open>go_get\<close>).  Ranging over a Go map visits the keys in an unspecified order, so a
    definition that ranges over a map takes the order as an argument, a list that
    enumerates the domain (\<^verbatim>\<open>range_order\<close>); theorems quantify over it.
  \<^item> A loop whose body may fail to return is a fold in the option type (\<^verbatim>\<open>foldM\<close>).
  \<^item> Go compares strings bytewise; that is the lexicographic order on \<open>char list\<close>
    of List\_Lexorder and Char\_ord.
\<close>

named_theorems fs_simps \<open>effect of the file-system operations on lookups\<close>
named_theorems attr_simps \<open>effect of the attribute writers on lookups\<close>
named_theorems ckpt_simps \<open>evaluation of the claim handlers\<close>

section \<open>Errors\<close>

datatype err =
    NotExist              \<comment> \<open>an error for which \<open>os.IsNotExist\<close> holds\<close>
  | IOErr string          \<comment> \<open>any other error of the operating system\<close>
  | Msg string            \<comment> \<open>\<open>fmt.Errorf\<close> without a wrapped error\<close>
  | Wrapped string err    \<comment> \<open>\<open>fmt.Errorf\<close> around an error\<close>
  | GoPanic string        \<comment> \<open>a run-time panic\<close>

fun wrap :: "string \<Rightarrow> err \<Rightarrow> err" where
  "wrap m (GoPanic p) = GoPanic p"
| "wrap m e = Wrapped m e"

fun is_panic :: "err \<Rightarrow> bool" where
  "is_panic (GoPanic p) = True"
| "is_panic e = False"

lemma is_panic_wrap [simp]: "is_panic (wrap m e) = is_panic e"
  by (cases e) simp_all

section \<open>Maps and the order of iteration\<close>

definition go_get :: "('k \<rightharpoonup> 'v) \<Rightarrow> 'v \<Rightarrow> 'k \<Rightarrow> 'v" where
  "go_get m z k = (case m k of None \<Rightarrow> z | Some v \<Rightarrow> v)"

definition range_order :: "'k list \<Rightarrow> ('k \<rightharpoonup> 'v) \<Rightarrow> bool" where
  "range_order ks m \<longleftrightarrow> distinct ks \<and> set ks = dom m"

lemma range_order_map_of [simp]: "distinct (map fst xs) \<Longrightarrow> range_order (map fst xs) (map_of xs)"
  by (simp add: range_order_def dom_map_of_conv_image_fst)

lemma range_orderD: "range_order ks m \<Longrightarrow> set ks = dom m" "range_order ks m \<Longrightarrow> distinct ks"
  by (simp_all add: range_order_def)

lemma range_order_finite: "range_order ks m \<Longrightarrow> finite (dom m)"
  by (metis List.finite_set range_orderD(1))

lemma range_order_ex: "finite (dom m) \<Longrightarrow> \<exists>ks. range_order ks m"
  using finite_distinct_list [of "dom m"] by (auto simp: range_order_def)

section \<open>Folds that may not return\<close>

fun foldM :: "('a \<Rightarrow> 's \<Rightarrow> 's option) \<Rightarrow> 'a list \<Rightarrow> 's \<Rightarrow> 's option" where
  "foldM f [] s = Some s"
| "foldM f (x # xs) s = (case f x s of None \<Rightarrow> None | Some s' \<Rightarrow> foldM f xs s')"

lemma foldM_append [simp]:
  "foldM f (xs @ ys) s = (case foldM f xs s of None \<Rightarrow> None | Some s' \<Rightarrow> foldM f ys s')"
  by (induction xs arbitrary: s) (auto split: option.split)

lemma foldM_map: "foldM f (map g xs) s = foldM (\<lambda>x. f (g x)) xs s"
  by (induction xs arbitrary: s) (auto split: option.split)

lemma foldM_concat: "foldM f (concat xss) s = foldM (foldM f) xss s"
  by (induction xss arbitrary: s) (auto split: option.split)

lemma foldM_total:
  assumes "I s" and "\<And>x s. x \<in> set xs \<Longrightarrow> I s \<Longrightarrow> \<exists>s'. f x s = Some s' \<and> I s'"
  shows "\<exists>s'. foldM f xs s = Some s' \<and> I s'"
  using assms(1,2)
proof (induction xs arbitrary: s)
  case Nil
  then show ?case by simp
next
  case (Cons x xs)
  then obtain s' where "f x s = Some s'" "I s'" by (meson list.set_intros(1))
  with Cons show ?case by (simp add: Cons.IH)
qed

section \<open>Sums\<close>

fun is_err :: "err + 'a \<Rightarrow> bool" where
  "is_err (Inl e) = True"
| "is_err (Inr x) = False"

lemma is_err_iff: "is_err r \<longleftrightarrow> (\<exists>e. r = Inl e)"
  by (cases r) simp_all

end
