(* ===== verification/GoStrings.thy ===== *)
theory GoStrings
  imports Prelude
begin

text \<open>
  The functions of Go's \<^verbatim>\<open>strings\<close>, \<^verbatim>\<open>strconv\<close> and
  \<^verbatim>\<open>path/filepath\<close> packages that the driver calls, on strings of bytes:
  \<open>strings.LastIndex\<close> (of a one-byte separator), \<open>strings.Join\<close>,
  \<open>strings.TrimPrefix\<close>, \<open>strings.Contains\<close>, \<open>strconv.Itoa\<close>,
  \<open>strconv.ParseInt\<close> with bit size 64 (and \<open>strconv.Atoi\<close>, its base 10),
  \<open>filepath.Clean\<close>, \<open>filepath.Join\<close> and \<open>filepath.Base\<close>.
  The lemmas are the round trip of \<open>Itoa\<close> and \<open>Atoi\<close>, the injectivity of
  \<open>Itoa\<close>, and how \<open>Join\<close> acts on path components.
\<close>

section \<open>strings\<close>

definition LastIndex :: "string \<Rightarrow> char \<Rightarrow> int" where
  "LastIndex s c =
     (if c \<in> set s then int (length s) - 1 - int (length (takeWhile (\<lambda>x. x \<noteq> c) (rev s))) else -1)"

fun JoinStr :: "string list \<Rightarrow> string \<Rightarrow> string" where
  "JoinStr [] sep = []"
| "JoinStr [x] sep = x"
| "JoinStr (x # y # xs) sep = x @ sep @ JoinStr (y # xs) sep"

fun TrimPrefix :: "string \<Rightarrow> string \<Rightarrow> string" where
  "TrimPrefix s p = (if take (length p) s = p then drop (length p) s else s)"

fun Contains :: "string \<Rightarrow> string \<Rightarrow> bool" where
  "Contains [] p = (p = [])"
| "Contains (c # s) p = (take (length p) (c # s) = p \<or> Contains s p)"

lemma Contains_iff: "Contains s p \<longleftrightarrow> (\<exists>a b. s = a @ p @ b)"
proof (induction s)
  case Nil
  then show ?case by simp
next
  case (Cons c s)
  have "(take (length p) (c # s) = p) = (\<exists>b. c # s = p @ b)"
    by (metis append_eq_conv_conj)
  with Cons show ?case
    by (simp only: Contains.simps) (metis append_Cons append_Nil list.exhaust list.inject list.sel(3))
qed

lemma LastIndex_append: "c \<notin> set b \<Longrightarrow> LastIndex (a @ c # b) c = int (length a)"
proof -
  assume "c \<notin> set b"
  then have "takeWhile (\<lambda>x. x \<noteq> c) (rev (a @ c # b)) = rev b"
    by (auto simp: takeWhile_append)
  then show ?thesis by (simp add: LastIndex_def)
qed

lemma LastIndex_none [simp]: "c \<notin> set s \<Longrightarrow> LastIndex s c = -1"
  by (simp add: LastIndex_def)

lemma TrimPrefix_append [simp]: "TrimPrefix (p @ s) p = s"
  by simp

section \<open>strconv\<close>

definition digit_char :: "nat \<Rightarrow> char" where
  "digit_char d = char_of (48 + d)"

fun digits_of :: "nat \<Rightarrow> string" where
  "digits_of n = (if n < 10 then [digit_char n] else digits_of (n div 10) @ [digit_char (n mod 10)])"

declare digits_of.simps [simp del]

definition Itoa :: "int \<Rightarrow> string" where
  "Itoa i = (if i < 0 then CHR ''-'' # digits_of (nat (- i)) else digits_of (nat i))"

definition digit_val :: "nat \<Rightarrow> char \<Rightarrow> nat option" where
  "digit_val base c =
     (let n = of_char c :: nat;
          d = (if 48 \<le> n \<and> n \<le> 57 then n - 48
               else if 97 \<le> n \<and> n \<le> 122 then n - 87
               else if 65 \<le> n \<and> n \<le> 90 then n - 55
               else base)
      in if d < base then Some d else None)"

fun parse_digits :: "nat \<Rightarrow> nat \<Rightarrow> string \<Rightarrow> nat option" where
  "parse_digits base acc [] = Some acc"
| "parse_digits base acc (c # cs) =
     (case digit_val base c of None \<Rightarrow> None | Some d \<Rightarrow> parse_digits base (acc * base + d) cs)"

text \<open>
  \<open>strconv.ParseInt(s, base, 64)\<close> for a base other than 0: an optional sign, at least
  one digit, and nothing else; \<open>None\<close> is a syntax or a range error.
\<close>

definition ParseInt :: "string \<Rightarrow> nat \<Rightarrow> int option" where
  "ParseInt s base =
     (let neg = (take 1 s = ''-''); s' = (if take 1 s = ''-'' \<or> take 1 s = ''+'' then drop 1 s else s)
      in if s' = [] then None
         else case parse_digits base 0 s' of
           None \<Rightarrow> None
         | Some n \<Rightarrow> if neg then (if int n \<le> 2 ^ 63 then Some (- int n) else None)
                    else (if int n < 2 ^ 63 then Some (int n) else None))"

definition Atoi :: "string \<Rightarrow> int option" where
  "Atoi s = ParseInt s 10"

lemma digit_val_digit_char: "d < 10 \<Longrightarrow> digit_val 10 (digit_char d) = Some d"
  by (simp add: digit_val_def digit_char_def of_char_of)

lemma parse_digits_append:
  "parse_digits b acc (xs @ ys) =
     (case parse_digits b acc xs of None \<Rightarrow> None | Some a \<Rightarrow> parse_digits b a ys)"
  by (induction xs arbitrary: acc) (auto split: option.split)

lemma parse_digits_of: "parse_digits 10 0 (digits_of n) = Some n"
proof (induction n rule: digits_of.induct)
  case (1 n)
  show ?case
  proof (cases "n < 10")
    case True
    then show ?thesis by (subst digits_of.simps) (simp add: digit_val_digit_char)
  next
    case False
    with 1 show ?thesis
      by (subst digits_of.simps) (simp add: parse_digits_append digit_val_digit_char)
  qed
qed

lemma digits_of_nonempty [simp]: "digits_of n \<noteq> []"
  by (subst digits_of.simps) simp

lemma digit_char_not_sign:
  "d < 10 \<Longrightarrow> digit_char d \<noteq> CHR ''-'' \<and> digit_char d \<noteq> CHR ''+'' \<and> digit_char d \<noteq> CHR ''.''"
proof -
  assume "d < 10"
  then have "of_char (digit_char d) = 48 + d" by (simp add: digit_char_def of_char_of)
  then show ?thesis by auto
qed

lemma set_digits_of: "c \<in> set (digits_of n) \<Longrightarrow> \<exists>d < 10. c = digit_char d"
proof (induction n rule: digits_of.induct)
  case (1 n)
  show ?case
  proof (cases "n < 10")
    case True
    with 1 show ?thesis by (subst (asm) digits_of.simps) auto
  next
    case False
    with 1 have "c \<in> set (digits_of (n div 10)) \<or> c = digit_char (n mod 10)"
      by (subst (asm) (2) digits_of.simps) auto
    with 1 False show ?thesis by (auto intro: exI [of _ "n mod 10"])
  qed
qed

lemma hd_digits_of: "hd (digits_of n) \<noteq> CHR ''-'' \<and> hd (digits_of n) \<noteq> CHR ''+''"
  by (metis digit_char_not_sign digits_of_nonempty list.set_sel(1) set_digits_of)

lemma take1_digits_of: "take 1 (digits_of n) \<noteq> ''-''" "take 1 (digits_of n) \<noteq> ''+''"
  using hd_digits_of [of n] by (cases "digits_of n"; simp)+

theorem Atoi_Itoa: "- (2 ^ 63) \<le> i \<Longrightarrow> i < 2 ^ 63 \<Longrightarrow> Atoi (Itoa i) = Some i"
  using take1_digits_of [of "nat i"]
  by (simp add: Atoi_def ParseInt_def Itoa_def parse_digits_of Let_def nat_le_iff nat_less_iff)

lemma Itoa_nat_inject: "0 \<le> i \<Longrightarrow> 0 \<le> j \<Longrightarrow> Itoa i = Itoa j \<Longrightarrow> i = j"
  by (metis Itoa_def eq_nat_nat_iff linorder_not_less option.inject parse_digits_of)

section \<open>path/filepath\<close>

text \<open>
  \<open>split_slash\<close> cuts a path at every slash; \<open>clean_comps\<close> processes the
  components as \<open>filepath.Clean\<close> does: empty and \<open>.\<close> elements go,
  \<open>..\<close> removes the element before it, at the root it is dropped and in a relative path
  it is kept.  \<open>comps\<close> is the list that identifies a file; the working directory is
  the empty list of a relative path, so that a rooted and a relative path differ in their
  first element.
\<close>

fun split_slash :: "string \<Rightarrow> string list" where
  "split_slash [] = [[]]"
| "split_slash (c # cs) =
     (if c = CHR ''/'' then [] # split_slash cs
      else case split_slash cs of [] \<Rightarrow> [[c]] | x # xs \<Rightarrow> (c # x) # xs)"

definition clean_push :: "bool \<Rightarrow> string list \<Rightarrow> string \<Rightarrow> string list" where
  "clean_push rooted st x =
     (if x = [] \<or> x = ''.'' then st
      else if x = ''..'' then
        (if st \<noteq> [] \<and> last st \<noteq> ''..'' then butlast st
         else if rooted then st else st @ [''..''])
      else st @ [x])"

definition is_rooted :: "string \<Rightarrow> bool" where
  "is_rooted p = (take 1 p = ''/'')"

definition clean_comps :: "string \<Rightarrow> string list" where
  "clean_comps p = foldl (clean_push (is_rooted p)) [] (split_slash p)"

definition Clean :: "string \<Rightarrow> string" where
  "Clean p = (let body = JoinStr (clean_comps p) ''/''
              in if is_rooted p then ''/'' @ body else if body = [] then ''.'' else body)"

definition Join :: "string list \<Rightarrow> string" where
  "Join es = (let ne = filter (\<lambda>e. e \<noteq> []) es in if ne = [] then [] else Clean (JoinStr ne ''/''))"

definition Base :: "string \<Rightarrow> string" where
  "Base p =
     (if p = [] then ''.''
      else let xs = filter (\<lambda>x. x \<noteq> []) (split_slash p) in if xs = [] then ''/'' else last xs)"

definition comps :: "string \<Rightarrow> string list" where
  "comps p = (if is_rooted p then ''/'' # clean_comps p else clean_comps p)"

text \<open>A plain name is a single path element that \<open>Clean\<close> keeps.\<close>

definition plain_name :: "string \<Rightarrow> bool" where
  "plain_name n \<longleftrightarrow> n \<noteq> [] \<and> n \<noteq> ''.'' \<and> n \<noteq> ''..'' \<and> CHR ''/'' \<notin> set n"

lemma split_slash_ne [simp]: "split_slash s \<noteq> []"
  by (induction s) (auto split: list.split)

lemma split_slash_plain: "CHR ''/'' \<notin> set s \<Longrightarrow> split_slash s = [s]"
  by (induction s) auto

lemma split_slash_append:
  "split_slash (a @ CHR ''/'' # b) = split_slash a @ split_slash b"
  by (induction a) (auto split: list.split)

lemma clean_push_plain: "plain_name n \<Longrightarrow> clean_push r st n = st @ [n]"
  by (simp add: clean_push_def plain_name_def)

lemma clean_comps_append:
  assumes "a \<noteq> []" "plain_name n"
  shows "clean_comps (a @ CHR ''/'' # n) = clean_comps a @ [n]"
proof -
  have "is_rooted (a @ CHR ''/'' # n) = is_rooted a"
    using assms(1) by (cases a) (simp_all add: is_rooted_def)
  moreover have "split_slash n = [n]"
    using assms(2) by (simp add: split_slash_plain plain_name_def)
  ultimately show ?thesis
    using assms(2) by (simp add: clean_comps_def split_slash_append clean_push_plain)
qed

text \<open>The components \<open>Clean\<close> can return: \<open>..\<close> only in front, and not at all when rooted.\<close>

definition name_ok :: "string \<Rightarrow> bool" where
  "name_ok y \<longleftrightarrow> y \<noteq> [] \<and> y \<noteq> ''.'' \<and> CHR ''/'' \<notin> set y"

inductive cleaned :: "bool \<Rightarrow> string list \<Rightarrow> bool" for r where
  cleaned_nil: "cleaned r []"
| cleaned_name: "cleaned r xs \<Longrightarrow> name_ok x \<Longrightarrow> x \<noteq> ''..'' \<Longrightarrow> cleaned r (xs @ [x])"
| cleaned_up: "cleaned r xs \<Longrightarrow> \<not> r \<Longrightarrow> xs = [] \<or> last xs = ''..'' \<Longrightarrow> cleaned r (xs @ [''..''])"

lemma cleaned_butlast: "cleaned r xs \<Longrightarrow> cleaned r (butlast xs)"
  by (induction rule: cleaned.induct) (simp_all add: cleaned_nil)

lemma cleaned_ok: "cleaned r xs \<Longrightarrow> x \<in> set xs \<Longrightarrow> name_ok x"
  by (induction rule: cleaned.induct) (auto simp: name_ok_def)

lemma clean_push_cleaned:
  assumes "cleaned r st" "CHR ''/'' \<notin> set x"
  shows "cleaned r (clean_push r st x)"
proof (cases "x = [] \<or> x = ''.'' \<or> x = ''..''")
  case True
  with assms(1) show ?thesis
    using cleaned_butlast cleaned_up [OF assms(1)] by (auto simp: clean_push_def)
next
  case False
  with assms show ?thesis by (simp add: clean_push_def cleaned_name name_ok_def)
qed

lemma foldl_clean_push_cleaned:
  "list_all (\<lambda>x. CHR ''/'' \<notin> set x) xs \<Longrightarrow> cleaned r st \<Longrightarrow> cleaned r (foldl (clean_push r) st xs)"
  by (induction xs arbitrary: st) (simp_all add: clean_push_cleaned)

lemma split_slash_set: "x \<in> set (split_slash s) \<Longrightarrow> CHR ''/'' \<notin> set x"
  by (induction s arbitrary: x) (auto split: list.splits if_splits)

lemma cleaned_clean_comps: "cleaned (is_rooted p) (clean_comps p)"
  unfolding clean_comps_def
  by (rule foldl_clean_push_cleaned) (simp_all add: list_all_iff split_slash_set cleaned_nil)

lemma foldl_clean_push_id: "cleaned r xs \<Longrightarrow> foldl (clean_push r) [] xs = xs"
  by (induction rule: cleaned.induct) (auto simp: clean_push_def name_ok_def)

text \<open>Cleaning is idempotent, so a cleaned path names the same file as the path itself.\<close>

lemma split_slash_JoinStr:
  "xs \<noteq> [] \<Longrightarrow> (\<And>x. x \<in> set xs \<Longrightarrow> CHR ''/'' \<notin> set x) \<Longrightarrow> split_slash (JoinStr xs ''/'') = xs"
proof (induction xs rule: induct_list012)
  case (3 x y xs)
  then have "split_slash (JoinStr (y # xs) ''/'') = y # xs" by simp
  with 3 show ?case by (simp add: split_slash_append split_slash_plain)
qed (simp_all add: split_slash_plain)

lemma JoinStr_not_rooted:
  "(\<And>x. x \<in> set xs \<Longrightarrow> name_ok x) \<Longrightarrow> \<not> is_rooted (JoinStr xs ''/'')"
proof (induction xs rule: induct_list012)
  case (3 x y xs)
  then have "name_ok x" by simp
  then show ?case by (cases x) (auto simp: is_rooted_def name_ok_def)
qed (auto simp: is_rooted_def name_ok_def neq_Nil_conv)

lemma JoinStr_empty: "(\<And>x. x \<in> set xs \<Longrightarrow> name_ok x) \<Longrightarrow> JoinStr xs sep = [] \<longleftrightarrow> xs = []"
  by (induction xs rule: induct_list012) (auto simp: name_ok_def)

theorem comps_Clean: "comps (Clean p) = comps p"
proof -
  let ?xs = "clean_comps p" and ?r = "is_rooted p"
  have cl: "cleaned ?r ?xs" by (rule cleaned_clean_comps)
  note ok = cleaned_ok [OF cl]
  have sl: "split_slash (JoinStr ?xs ''/'') = ?xs" if "?xs \<noteq> []"
    using that ok by (intro split_slash_JoinStr) (auto simp: name_ok_def)
  have e: "JoinStr ?xs ''/'' = [] \<longleftrightarrow> ?xs = []" by (rule JoinStr_empty) (rule ok)
  have nr: "\<not> is_rooted (JoinStr ?xs ''/'')" by (rule JoinStr_not_rooted) (rule ok)
  have f: "foldl (clean_push ?r) [] ?xs = ?xs" by (rule foldl_clean_push_id [OF cl])
  show ?thesis
  proof (cases "?xs = []")
    case True
    then show ?thesis
      by (auto simp: comps_def Clean_def clean_comps_def is_rooted_def clean_push_def)
  next
    case False
    then show ?thesis
      using sl f e nr
      by (auto simp: comps_def Clean_def Let_def is_rooted_def clean_comps_def [of "CHR ''/'' # _"]
          clean_comps_def [of "JoinStr _ _"] clean_push_def [of _ "[]" "[]"])
  qed
qed

lemma Join_two: "a \<noteq> [] \<Longrightarrow> b \<noteq> [] \<Longrightarrow> Join [a, b] = Clean (a @ CHR ''/'' # b)"
  by (simp add: Join_def)

theorem comps_Join: "a \<noteq> [] \<Longrightarrow> plain_name n \<Longrightarrow> comps (Join [a, n]) = comps a @ [n]"
proof -
  assume a: "a \<noteq> []" and n: "plain_name n"
  have "is_rooted (a @ CHR ''/'' # n) = is_rooted a"
    using a by (cases a) (simp_all add: is_rooted_def)
  with a n have "comps (a @ CHR ''/'' # n) = comps a @ [n]"
    by (simp add: comps_def clean_comps_append)
  with a n show ?thesis by (simp add: Join_two comps_Clean plain_name_def)
qed

lemma Join_nonempty [simp]: "a \<noteq> [] \<Longrightarrow> Join [a, b] \<noteq> []"
  by (auto simp: Join_def Clean_def Let_def)

text \<open>The last component of a joined path is the joined name.\<close>

lemma clean_comps_no_slash: "x \<in> set (clean_comps p) \<Longrightarrow> CHR ''/'' \<notin> set x"
  using cleaned_ok [OF cleaned_clean_comps] by (auto simp: name_ok_def)

lemma Base_Join: "a \<noteq> [] \<Longrightarrow> plain_name n \<Longrightarrow> Base (Join [a, n]) = n"
proof -
  assume a: "a \<noteq> []" and n: "plain_name n"
  let ?p = "a @ CHR ''/'' # n" and ?xs = "clean_comps a @ [n]"
  have cc: "clean_comps ?p = ?xs" by (rule clean_comps_append [OF a n])
  have sl: "split_slash (JoinStr ?xs ''/'') = ?xs"
    using n by (intro split_slash_JoinStr) (auto simp: plain_name_def clean_comps_no_slash)
  have ne: "JoinStr ?xs ''/'' \<noteq> []"
  proof
    assume "JoinStr ?xs ''/'' = []"
    with sl have "?xs = [[]]" by simp
    with n show False by (simp add: plain_name_def)
  qed
  have "Join [a, n] = (if is_rooted ?p then ''/'' @ JoinStr ?xs ''/'' else JoinStr ?xs ''/'')"
    using a n ne by (simp add: Join_two Clean_def Let_def cc plain_name_def)
  then show ?thesis using sl ne n by (auto simp: Base_def Let_def plain_name_def)
qed

lemma JoinStr_snoc_append: "JoinStr (xs @ [n]) sep @ x = JoinStr (xs @ [n @ x]) sep"
  by (induction xs sep rule: JoinStr.induct) (auto simp: neq_Nil_conv)

lemma JoinStr_snoc_ne: "m \<noteq> [] \<Longrightarrow> JoinStr (xs @ [m]) ''/'' \<noteq> []"
  by (induction xs rule: induct_list012) simp_all

lemma Join_suffix:
  assumes "a \<noteq> []" "plain_name n" "plain_name (n @ x)"
  shows "Join [a, n] @ x = Join [a, n @ x]"
proof -
  have ne: "JoinStr (clean_comps a @ [m]) ''/'' \<noteq> []" if "plain_name m" for m
    using that by (intro JoinStr_snoc_ne) (simp add: plain_name_def)
  have r: "is_rooted (a @ CHR ''/'' # m) = is_rooted a" for m
    using assms(1) by (cases a) (simp_all add: is_rooted_def)
  show ?thesis
    using assms ne [OF assms(2)] ne [OF assms(3)]
    by (simp add: Join_two Clean_def Let_def clean_comps_append r JoinStr_snoc_append plain_name_def del: append_assoc)
qed

end
