(* ===== verification/UnionFind.thy ===== *)
theory UnionFind
  imports GoStrings
begin

text \<open>
  The union-find structure of \<^verbatim>\<open>pkg/topology/types/pcitopo/tier_groups.go\<close>:
  \<open>unionFind\<close> with its \<open>parent\<close> map, \<open>find\<close> with path compression,
  \<open>union\<close> with the lexicographically smaller root on top, and \<open>groups\<close>.
  \<open>find\<close> recurses along the parent map, which need not end on a cyclic map, so it is a
  \<open>partial_function\<close>; \<open>uf_find_ok\<close> proves that it returns on every map the code
  can build.  The interface the component algorithm relies on is the locale
  \<open>disjoint_sets\<close>; the code's structure is interpreted at the end of this theory.
\<close>

section \<open>The structure and its operations\<close>

record unionFind =
  parent :: "string \<rightharpoonup> string"

definition newUnionFind :: "string list \<Rightarrow> unionFind" where
  "newUnionFind addrs = \<lparr>parent = fold (\<lambda>a p. p(a \<mapsto> a)) addrs Map.empty\<rparr>"

partial_function (option) uf_find :: "unionFind \<Rightarrow> string \<Rightarrow> (string \<times> unionFind) option" where
  "uf_find uf x =
     (if go_get (parent uf) [] x \<noteq> x then
        Option.bind (uf_find uf (go_get (parent uf) [] x)) (\<lambda>(r, uf').
          let uf'' = uf'\<lparr>parent := (parent uf')(x \<mapsto> r)\<rparr>
          in Some (go_get (parent uf'') [] x, uf''))
      else Some (go_get (parent uf) [] x, uf))"

definition uf_union :: "unionFind \<Rightarrow> string \<Rightarrow> string \<Rightarrow> unionFind option" where
  "uf_union uf a b =
     (case parent uf b of
        None \<Rightarrow> Some uf
      | Some _ \<Rightarrow>
          Option.bind (uf_find uf a) (\<lambda>(ra, uf1).
          Option.bind (uf_find uf1 b) (\<lambda>(rb, uf2).
            if ra = rb then Some uf2
            else if ra < rb then Some (uf2\<lparr>parent := (parent uf2)(rb \<mapsto> ra)\<rparr>)
            else Some (uf2\<lparr>parent := (parent uf2)(ra \<mapsto> rb)\<rparr>))))"

text \<open>\<open>groups\<close> ranges over the parent map, in the order \<open>ks\<close>, while \<open>find\<close> updates it.\<close>

definition uf_groups :: "string list \<Rightarrow> unionFind \<Rightarrow> (string \<rightharpoonup> string) option" where
  "uf_groups ks uf =
     map_option snd (foldM (\<lambda>a (u, res). case uf_find u a of
                              None \<Rightarrow> None
                            | Some (r, u') \<Rightarrow> Some (u', res(a \<mapsto> r))) ks (uf, Map.empty))"

section \<open>Equivalences generated by edges\<close>

definition join_class :: "('a \<times> 'a) set \<Rightarrow> 'a \<Rightarrow> 'a \<Rightarrow> ('a \<times> 'a) set" where
  "join_class R a b =
     (let linked = (\<lambda>u v p. (fst p, u) \<in> R \<and> (v, snd p) \<in> R) in {p. p \<in> R \<or> linked a b p \<or> linked b a p})"

text \<open>\<open>conn A E\<close>: connected inside \<open>A\<close> by the edges \<open>E\<close>, in either direction.\<close>

definition conn :: "'a set \<Rightarrow> ('a \<times> 'a) set \<Rightarrow> ('a \<times> 'a) set" where
  "conn A E = {(x, y). x \<in> A \<and> (x, y) \<in> ((E \<union> E\<inverse>) \<inter> A \<times> A)\<^sup>*}"

lemma conn_empty: "conn A {} = Id_on A"
  by (auto simp: conn_def)

lemma conn_mono: "E \<subseteq> F \<Longrightarrow> conn A E \<subseteq> conn A F"
proof -
  assume "E \<subseteq> F"
  then have "((E \<union> E\<inverse>) \<inter> A \<times> A)\<^sup>* \<subseteq> ((F \<union> F\<inverse>) \<inter> A \<times> A)\<^sup>*"
    by (intro rtrancl_mono) auto
  then show ?thesis by (auto simp: conn_def)
qed

lemma conn_equiv: "equiv A (conn A E)"
proof (rule equivI)
  have "y \<in> A" if "(x, y) \<in> ((E \<union> E\<inverse>) \<inter> A \<times> A)\<^sup>*" "x \<in> A" for x y
    using that by (induction rule: rtrancl_induct) auto
  then show "conn A E \<subseteq> A \<times> A" by (auto simp: conn_def)
  show "refl_on A (conn A E)" by (auto simp: conn_def refl_on_def)
  have "sym (((E \<union> E\<inverse>) \<inter> A \<times> A)\<^sup>*)" by (rule sym_rtrancl) (auto simp: sym_def)
  then show "sym (conn A E)"
    using \<open>conn A E \<subseteq> A \<times> A\<close> by (auto simp: conn_def sym_def)
  show "trans (conn A E)" by (auto simp: conn_def trans_def)
qed

lemma conn_trans: "(x, y) \<in> conn A E \<Longrightarrow> (y, z) \<in> conn A E \<Longrightarrow> (x, z) \<in> conn A E"
  by (auto simp: conn_def)

lemma conn_edge: "(a, b) \<in> E \<Longrightarrow> a \<in> A \<Longrightarrow> b \<in> A \<Longrightarrow> (a, b) \<in> conn A E"
  by (auto simp: conn_def)

lemma conn_outside: "b \<notin> A \<Longrightarrow> conn A (insert (a, b) E) = conn A E"
proof -
  assume "b \<notin> A"
  then have "(insert (a, b) E \<union> (insert (a, b) E)\<inverse>) \<inter> A \<times> A = (E \<union> E\<inverse>) \<inter> A \<times> A" by auto
  then show ?thesis by (simp add: conn_def)
qed

lemma conn_insert:
  assumes "a \<in> A" "b \<in> A"
  shows "conn A (insert (a, b) E) = join_class (conn A E) a b"
proof
  let ?R = "conn A E"
  have re: "(a, a) \<in> ?R" "(b, b) \<in> ?R" using assms by (auto simp: conn_def)
  have adv: "(x, z) \<in> join_class ?R a b"
    if xy: "(x, y) \<in> join_class ?R a b"
      and yz: "(y, z) \<in> (insert (a, b) E \<union> (insert (a, b) E)\<inverse>) \<inter> A \<times> A" for x y z
  proof -
    consider "(y, z) \<in> ?R" | "y = a" "z = b" | "y = b" "z = a"
      using yz by (auto simp: conn_def)
    then show ?thesis
    proof cases
      case 1
      then show ?thesis
        using xy unfolding join_class_def Let_def by (auto dest: conn_trans [OF _ 1])
    next
      case 2
      with xy re show ?thesis by (auto simp: join_class_def Let_def)
    next
      case 3
      with xy re show ?thesis by (auto simp: join_class_def Let_def)
    qed
  qed
  have "(x, y) \<in> join_class ?R a b"
    if "(x, y) \<in> ((insert (a, b) E \<union> (insert (a, b) E)\<inverse>) \<inter> A \<times> A)\<^sup>*" "x \<in> A" for x y
    using that
  proof (induction rule: rtrancl_induct)
    case base
    then show ?case by (auto simp: join_class_def Let_def conn_def)
  next
    case (step y z)
    then show ?case using adv [of x y z] by simp
  qed
  then show "conn A (insert (a, b) E) \<subseteq> join_class ?R a b" by (auto simp: conn_def)
next
  let ?S = "conn A (insert (a, b) E)"
  have ab: "(a, b) \<in> ?S" "(b, a) \<in> ?S" using assms by (auto simp: conn_def)
  have sub: "conn A E \<subseteq> ?S" by (rule conn_mono) auto
  show "join_class (conn A E) a b \<subseteq> ?S"
  proof (rule subrelI)
    fix x y
    assume "(x, y) \<in> join_class (conn A E) a b"
    then consider "(x, y) \<in> ?S" | "(x, a) \<in> ?S" "(b, y) \<in> ?S" | "(x, b) \<in> ?S" "(a, y) \<in> ?S"
      using sub by (auto simp: join_class_def Let_def)
    then show "(x, y) \<in> ?S"
      by cases (auto intro: conn_trans [OF conn_trans [OF _ ab(1)]] conn_trans [OF conn_trans [OF _ ab(2)]])
  qed
qed

section \<open>The interface of a disjoint-set structure\<close>

locale disjoint_sets =
  fixes find :: "'s \<Rightarrow> 'a::linorder \<Rightarrow> ('a \<times> 's) option"
    and union :: "'s \<Rightarrow> 'a \<Rightarrow> 'a \<Rightarrow> 's option"
    and invar :: "'s \<Rightarrow> bool"
    and carrier :: "'s \<Rightarrow> 'a set"
    and rel :: "'s \<Rightarrow> ('a \<times> 'a) set"
  assumes find_ok: "invar s \<Longrightarrow> a \<in> carrier s \<Longrightarrow>
      \<exists>s'. find s a = Some (Min (rel s `` {a}), s') \<and> invar s' \<and> carrier s' = carrier s \<and> rel s' = rel s"
    and union_ok: "invar s \<Longrightarrow> a \<in> carrier s \<Longrightarrow> b \<in> carrier s \<Longrightarrow>
      \<exists>s'. union s a b = Some s' \<and> invar s' \<and> carrier s' = carrier s \<and> rel s' = join_class (rel s) a b"
    and union_skip: "b \<notin> carrier s \<Longrightarrow> union s a b = Some s"
begin

lemma unions_conn:
  assumes "invar s" "rel s = conn (carrier s) E" "fst ` set es \<subseteq> carrier s"
  shows "\<exists>s'. foldM (\<lambda>(a, b) s. union s a b) es s = Some s' \<and> invar s' \<and> carrier s' = carrier s \<and>
              rel s' = conn (carrier s) (E \<union> set es)"
  using assms
proof (induction es arbitrary: s E)
  case Nil
  then show ?case by auto
next
  case (Cons e es)
  obtain a b where e: "e = (a, b)" by force
  with Cons.prems(3) have a: "a \<in> carrier s" and es: "fst ` set es \<subseteq> carrier s" by auto
  obtain s1 where s1: "union s a b = Some s1" "invar s1" "carrier s1 = carrier s"
      "rel s1 = conn (carrier s) (insert (a, b) E)"
  proof (cases "b \<in> carrier s")
    case True
    then show ?thesis using union_ok [OF Cons.prems(1) a True] Cons.prems(2) a that
      by (auto simp: conn_insert)
  next
    case False
    then show ?thesis using union_skip [OF False] Cons.prems that by (simp add: conn_outside)
  qed
  then show ?case
    using Cons.IH [of s1 "insert (a, b) E"] e es by auto
qed

lemma finds_min:
  assumes "invar s" "set ks \<subseteq> carrier s"
  shows "\<exists>s'. foldM (\<lambda>a (u, res). case find u a of None \<Rightarrow> None
                          | Some (r, u') \<Rightarrow> Some (u', res(a \<mapsto> r))) ks (s, res0) =
           Some (s', \<lambda>a. if a \<in> set ks then Some (Min (rel s `` {a})) else res0 a)"
  using assms
proof (induction ks arbitrary: s res0)
  case Nil
  then show ?case by simp
next
  case (Cons k ks)
  obtain s1 where s1: "find s k = Some (Min (rel s `` {k}), s1)" "invar s1"
      "carrier s1 = carrier s" "rel s1 = rel s"
    using find_ok [of s k] Cons.prems by auto
  have sub: "set ks \<subseteq> carrier s1" using Cons.prems(2) s1(3) by simp
  have "(\<lambda>a. if a \<in> set ks then Some (Min (rel s `` {a})) else (res0(k \<mapsto> Min (rel s `` {k}))) a) =
        (\<lambda>a. if a \<in> set (k # ks) then Some (Min (rel s `` {a})) else res0 a)"
    by (auto simp: fun_eq_iff)
  then obtain s' where
      "foldM (\<lambda>a (u, res). case find u a of None \<Rightarrow> None | Some (r, u') \<Rightarrow> Some (u', res(a \<mapsto> r)))
         ks (s1, res0(k \<mapsto> Min (rel s `` {k}))) =
       Some (s', \<lambda>a. if a \<in> set (k # ks) then Some (Min (rel s `` {a})) else res0 a)"
    using Cons.IH [OF s1(2) sub, of "res0(k \<mapsto> Min (rel s `` {k}))"] unfolding s1(4) by metis
  with s1(1) show ?case by (intro exI [of _ s']) simp
qed

end

section \<open>Roots\<close>

text \<open>
  \<open>uf_root p x r\<close>: following the parents from \<open>x\<close> ends at the root \<open>r\<close>.
  The invariant of the code: every parent is a known address not larger than its child.
\<close>

inductive uf_root :: "(string \<rightharpoonup> string) \<Rightarrow> string \<Rightarrow> string \<Rightarrow> bool" for p where
  root_self: "p x = Some x \<Longrightarrow> uf_root p x x"
| root_step: "p x = Some y \<Longrightarrow> y \<noteq> x \<Longrightarrow> uf_root p y r \<Longrightarrow> uf_root p x r"

inductive_cases uf_rootE: "uf_root p x r"

definition uf_inv :: "unionFind \<Rightarrow> bool" where
  "uf_inv uf \<longleftrightarrow> finite (dom (parent uf)) \<and>
     (\<forall>x y. parent uf x = Some y \<longrightarrow> y \<in> dom (parent uf) \<and> y \<le> x)"

definition uf_rel :: "unionFind \<Rightarrow> (string \<times> string) set" where
  "uf_rel uf = {(x, y). \<exists>r. uf_root (parent uf) x r \<and> uf_root (parent uf) y r}"

lemma uf_root_det: "uf_root p x r \<Longrightarrow> uf_root p x s \<Longrightarrow> r = s"
  by (induction rule: uf_root.induct) (auto elim: uf_rootE)

lemma uf_root_fix: "uf_root p x r \<Longrightarrow> p r = Some r"
  by (induction rule: uf_root.induct)

lemma uf_root_dom: "uf_root p x r \<Longrightarrow> x \<in> dom p"
  by (auto elim: uf_rootE)

lemma uf_root_le: "uf_root (parent uf) x r \<Longrightarrow> uf_inv uf \<Longrightarrow> r \<le> x"
proof (induction rule: uf_root.induct)
  case (root_step x y r)
  then have "y \<le> x" by (auto simp: uf_inv_def)
  with root_step show ?case by (auto intro: order_trans)
qed simp

lemma uf_root_same: "uf_root p x r \<Longrightarrow> p x = Some y \<Longrightarrow> uf_root p y r"
  by (erule uf_rootE) (auto intro: root_self)

text \<open>Induction along the parents, downwards in the finite set of known addresses.\<close>

lemma uf_induct [consumes 2, case_names down]:
  assumes "uf_inv uf" "x \<in> dom (parent uf)"
    and "\<And>x. x \<in> dom (parent uf) \<Longrightarrow> (\<And>y. y \<in> dom (parent uf) \<Longrightarrow> y < x \<Longrightarrow> P y) \<Longrightarrow> P x"
  shows "P x"
proof -
  let ?D = "dom (parent uf)"
  have fin: "finite ?D" using assms(1) by (simp add: uf_inv_def)
  show ?thesis
    using assms(2)
  proof (induction "card {y \<in> ?D. y < x}" arbitrary: x rule: less_induct)
    case less
    have "card {z \<in> ?D. z < y} < card {z \<in> ?D. z < x}" if "y \<in> ?D" "y < x" for y
      using fin that by (intro psubset_card_mono) auto
    then show ?case using less by (intro assms(3) [OF less.prems]) blast
  qed
qed

lemma uf_root_ex:
  assumes "uf_inv uf" "x \<in> dom (parent uf)"
  shows "\<exists>r. uf_root (parent uf) x r"
  using assms
proof (induction x rule: uf_induct)
  case (down x)
  then obtain y where y: "parent uf x = Some y" by auto
  show ?case
  proof (cases "y = x")
    case True
    with y show ?thesis by (auto intro: root_self)
  next
    case False
    moreover have "y \<in> dom (parent uf)" "y \<le> x"
      using y assms(1) by (auto simp: uf_inv_def)
    ultimately show ?thesis using down y by (metis order_less_le root_step)
  qed
qed

section \<open>Path compression and linking keep the invariant\<close>

lemma compress_root:
  assumes x: "uf_root p x r" and z: "uf_root p z s"
  shows "uf_root (p(x \<mapsto> r)) z s"
  using z
proof (induction rule: uf_root.induct)
  case (root_self z)
  have "r = x" if "z = x" using uf_root_det [OF x uf_root.root_self] root_self that by simp
  with root_self show ?case by (auto intro: uf_root.root_self)
next
  case (root_step z y s)
  show ?case
  proof (cases "z = x")
    case True
    with root_step x have "s = r" by (metis uf_root.root_step uf_root_det)
    moreover have "r \<noteq> x" using root_step True uf_root_fix [OF x] by auto
    moreover have "uf_root (p(x \<mapsto> r)) r r"
      by (rule uf_root.root_self) (use \<open>r \<noteq> x\<close> uf_root_fix [OF x] in simp)
    moreover have "uf_root (p(x \<mapsto> r)) x r"
      by (rule uf_root.root_step [of _ x r]) (use \<open>r \<noteq> x\<close> calculation(3) in simp_all)
    ultimately show ?thesis using True by (simp del: fun_upd_apply)
  next
    case False
    with root_step show ?thesis by (auto intro: uf_root.root_step)
  qed
qed

lemma compress_ok:
  assumes inv: "uf_inv uf" and x: "uf_root (parent uf) x r"
  defines "uf' \<equiv> uf\<lparr>parent := (parent uf)(x \<mapsto> r)\<rparr>"
  shows "uf_inv uf'" "dom (parent uf') = dom (parent uf)"
    "uf_root (parent uf') z s = uf_root (parent uf) z s"
proof -
  have dm: "x \<in> dom (parent uf)" "r \<in> dom (parent uf)"
    using uf_root_dom [OF x] uf_root_fix [OF x] by auto
  then show d: "dom (parent uf') = dom (parent uf)" by (auto simp: uf'_def)
  show "uf_inv uf'"
    using inv dm uf_root_le [OF x inv] by (auto simp: uf_inv_def uf'_def)
  show "uf_root (parent uf') z s = uf_root (parent uf) z s"
  proof
    assume a: "uf_root (parent uf') z s"
    then have "z \<in> dom (parent uf)" using uf_root_dom d by blast
    then obtain t where t: "uf_root (parent uf) z t" using uf_root_ex [OF inv] by blast
    with compress_root [OF x t] a have "s = t" by (auto simp: uf'_def dest: uf_root_det)
    with t show "uf_root (parent uf) z s" by simp
  qed (simp add: uf'_def compress_root [OF x])
qed

lemma link_root:
  assumes z: "uf_root p z t" and r: "p ra = Some ra" "p rb = Some rb" "ra \<noteq> rb"
  shows "uf_root (p(rb \<mapsto> ra)) z (if t = rb then ra else t)"
  using z
proof (induction rule: uf_root.induct)
  case (root_self z)
  have "uf_root (p(rb \<mapsto> ra)) ra ra" using r by (intro uf_root.root_self) simp
  then have "uf_root (p(rb \<mapsto> ra)) rb ra"
    by (rule uf_root.root_step [of _ rb ra, rotated 2]) (use r in simp_all)
  moreover have "uf_root (p(rb \<mapsto> ra)) z z" if "z \<noteq> rb"
    by (rule uf_root.root_self) (use that root_self in simp)
  ultimately show ?case by (simp del: fun_upd_apply)
next
  case (root_step z y s)
  then have "z \<noteq> rb" using r by auto
  with root_step show ?case by (auto intro: uf_root.root_step)
qed

lemma link_ok:
  assumes inv: "uf_inv uf" and r: "parent uf ra = Some ra" "parent uf rb = Some rb" "ra < rb"
  defines "uf' \<equiv> uf\<lparr>parent := (parent uf)(rb \<mapsto> ra)\<rparr>"
  shows "uf_inv uf'" "dom (parent uf') = dom (parent uf)"
    "uf_root (parent uf') z s \<longleftrightarrow>
       (\<exists>t. uf_root (parent uf) z t \<and> s = (if t = rb then ra else t))"
proof -
  show d: "dom (parent uf') = dom (parent uf)" using r by (auto simp: uf'_def)
  show "uf_inv uf'" using inv r by (auto simp: uf_inv_def uf'_def)
  note link = link_root [where p = "parent uf", OF _ r(1,2) less_imp_neq [OF r(3)]]
  show "uf_root (parent uf') z s \<longleftrightarrow>
          (\<exists>t. uf_root (parent uf) z t \<and> s = (if t = rb then ra else t))"
  proof
    assume a: "uf_root (parent uf') z s"
    then have "z \<in> dom (parent uf)" using uf_root_dom d by blast
    then obtain t where t: "uf_root (parent uf) z t" using uf_root_ex [OF inv] by blast
    have "s = (if t = rb then ra else t)"
      using uf_root_det [OF _ link [OF t]] a by (simp add: uf'_def)
    with t show "\<exists>t. uf_root (parent uf) z t \<and> s = (if t = rb then ra else t)" by blast
  qed (auto simp: uf'_def dest: link)
qed

section \<open>find and union\<close>

text \<open>\<open>find\<close> returns the root, and only compresses: no root changes.\<close>

lemma uf_find_ok:
  assumes inv: "uf_inv uf" and "x \<in> dom (parent uf)"
  shows "\<exists>r uf'. uf_find uf x = Some (r, uf') \<and> uf_root (parent uf) x r \<and> uf_inv uf' \<and>
           dom (parent uf') = dom (parent uf) \<and>
           (\<forall>z s. uf_root (parent uf') z s = uf_root (parent uf) z s)"
  using assms
proof (induction x rule: uf_induct)
  case (down x)
  then obtain y where y: "parent uf x = Some y" by auto
  show ?case
  proof (cases "y = x")
    case True
    with y inv show ?thesis
      by (subst uf_find.simps) (auto simp: go_get_def intro: root_self)
  next
    case False
    moreover have yd: "y \<in> dom (parent uf)" "y \<le> x" using y inv by (auto simp: uf_inv_def)
    ultimately obtain r uf' where IH: "uf_find uf y = Some (r, uf')" "uf_root (parent uf) y r"
        "uf_inv uf'" "dom (parent uf') = dom (parent uf)"
        "\<forall>z s. uf_root (parent uf') z s = uf_root (parent uf) z s"
      using down.IH [of y] by (auto simp: order_less_le)
    have rx: "uf_root (parent uf) x r" using y False IH(2) by (rule root_step)
    with IH(5) have "uf_root (parent uf') x r" by simp
    note c = compress_ok [OF IH(3) this]
    have "uf_find uf x = Some (r, uf'\<lparr>parent := (parent uf')(x \<mapsto> r)\<rparr>)"
      using False y IH(1) by (subst uf_find.simps) (simp add: go_get_def Let_def)
    with rx c IH(4,5) show ?thesis by auto
  qed
qed

lemma uf_rel_root:
  "uf_root (parent uf) a r \<Longrightarrow> uf_rel uf `` {a} = {y. uf_root (parent uf) y r}"
  by (auto simp: uf_rel_def dest: uf_root_det)

lemma uf_root_Min:
  assumes inv: "uf_inv uf" and a: "uf_root (parent uf) a r"
  shows "Min (uf_rel uf `` {a}) = r"
proof (rule Min_eqI)
  have "uf_rel uf `` {a} \<subseteq> dom (parent uf)" by (auto simp: uf_rel_root [OF a] dest: uf_root_dom)
  then show "finite (uf_rel uf `` {a})" using inv by (auto simp: uf_inv_def intro: finite_subset)
  show "r \<le> y" if "y \<in> uf_rel uf `` {a}" for y
    using that uf_root_le [OF _ inv] by (simp add: uf_rel_root [OF a])
  show "r \<in> uf_rel uf `` {a}"
    using uf_root_fix [OF a] by (simp add: uf_rel_root [OF a] root_self)
qed

lemma uf_rel_link:
  assumes ra: "uf_root (parent uf) a ra" and rb: "uf_root (parent uf) b rb"
    and roots: "\<And>z s. uf_root (parent uf') z s \<longleftrightarrow>
          (\<exists>t. uf_root (parent uf) z t \<and> s = (if t = u then v else t))"
    and uv: "(u = rb \<and> v = ra) \<or> (u = ra \<and> v = rb)"
  shows "uf_rel uf' = join_class (uf_rel uf) a b"
proof -
  let ?R = "uf_root (parent uf)"
  have A: "(x, a) \<in> uf_rel uf \<longleftrightarrow> ?R x ra" "(a, x) \<in> uf_rel uf \<longleftrightarrow> ?R x ra"
    "(x, b) \<in> uf_rel uf \<longleftrightarrow> ?R x rb" "(b, x) \<in> uf_rel uf \<longleftrightarrow> ?R x rb" for x
    using ra rb by (auto simp: uf_rel_def dest: uf_root_det)
  have "(x, y) \<in> uf_rel uf' \<longleftrightarrow>
      (\<exists>s t. ?R x s \<and> ?R y t \<and> (if s = u then v else s) = (if t = u then v else t))" for x y
    unfolding uf_rel_def by (auto simp: roots)
  moreover have "(x, y) \<in> join_class (uf_rel uf) a b \<longleftrightarrow>
      (\<exists>s t. ?R x s \<and> ?R y t \<and> (if s = u then v else s) = (if t = u then v else t))" for x y
  proof -
    have f: "(if s = u then v else s) = (if t = u then v else t) \<longleftrightarrow>
        s = t \<or> (s = ra \<and> t = rb) \<or> (s = rb \<and> t = ra)" for s t
      using uv by auto
    show ?thesis unfolding f join_class_def Let_def by (simp add: A) (auto simp: uf_rel_def)
  qed
  ultimately show ?thesis by auto
qed

lemma uf_union_ok:
  assumes inv: "uf_inv uf" and a: "a \<in> dom (parent uf)" and b: "b \<in> dom (parent uf)"
  shows "\<exists>uf'. uf_union uf a b = Some uf' \<and> uf_inv uf' \<and> dom (parent uf') = dom (parent uf) \<and>
           uf_rel uf' = join_class (uf_rel uf) a b"
proof -
  obtain ra uf1 where f1: "uf_find uf a = Some (ra, uf1)" "uf_root (parent uf) a ra" "uf_inv uf1"
      "dom (parent uf1) = dom (parent uf)"
      "\<And>z s. uf_root (parent uf1) z s = uf_root (parent uf) z s"
    using uf_find_ok [OF inv a] by blast
  obtain rb uf2 where f2: "uf_find uf1 b = Some (rb, uf2)" "uf_root (parent uf1) b rb" "uf_inv uf2"
      "dom (parent uf2) = dom (parent uf1)"
      "\<And>z s. uf_root (parent uf2) z s = uf_root (parent uf1) z s"
    using uf_find_ok [OF f1(3)] b f1(4) by blast
  have R: "uf_root (parent uf2) z s = uf_root (parent uf) z s" for z s by (simp add: f1(5) f2(5))
  have rel: "uf_rel uf2 = uf_rel uf" by (simp add: uf_rel_def R)
  have ra: "uf_root (parent uf2) a ra" and rb: "uf_root (parent uf2) b rb"
    using f1(2) f2(2) by (simp_all add: f1(5) f2(5))
  note rt = uf_root_fix [OF ra] uf_root_fix [OF rb]
  obtain y where y: "parent uf b = Some y" using b by auto
  consider "ra = rb" | "ra < rb" | "rb < ra" by fastforce
  then show ?thesis
  proof cases
    case 1
    with ra rb have "(a, b) \<in> uf_rel uf2" by (auto simp: uf_rel_def)
    then have "join_class (uf_rel uf2) a b = uf_rel uf2"
      unfolding join_class_def Let_def uf_rel_def
      by (clarsimp simp: set_eq_iff) (blast dest: uf_root_det)
    with 1 f1 f2 y rel show ?thesis by (auto simp: uf_union_def)
  next
    case 2
    note l = link_ok [OF f2(3) rt 2]
    have "uf_rel (uf2\<lparr>parent := (parent uf2)(rb \<mapsto> ra)\<rparr>) = join_class (uf_rel uf2) a b"
      using uf_rel_link [OF ra rb l(3)] by blast
    with 2 f1 f2 y rel l(1,2) show ?thesis by (auto simp: uf_union_def)
  next
    case 3
    note l = link_ok [OF f2(3) rt(2,1) 3]
    have "uf_rel (uf2\<lparr>parent := (parent uf2)(ra \<mapsto> rb)\<rparr>) = join_class (uf_rel uf2) a b"
      using uf_rel_link [OF ra rb l(3)] by blast
    with 3 f1 f2 y rel l(1,2) show ?thesis by (auto simp: uf_union_def)
  qed
qed

text \<open>The fresh structure: every address is its own group.\<close>

lemma parent_newUnionFind: "parent (newUnionFind as) x = (if x \<in> set as then Some x else None)"
proof -
  have "fold (\<lambda>a p. p(a \<mapsto> a)) as m x = (if x \<in> set as then Some x else m x)" for m
    by (induction as arbitrary: m) auto
  then show ?thesis by (simp add: newUnionFind_def)
qed

lemma newUnionFind_ok:
  "uf_inv (newUnionFind as)" "dom (parent (newUnionFind as)) = set as"
  "uf_rel (newUnionFind as) = Id_on (set as)"
proof -
  show d: "dom (parent (newUnionFind as)) = set as"
    by (auto simp: parent_newUnionFind split: if_splits)
  show "uf_inv (newUnionFind as)"
    by (auto simp: uf_inv_def d parent_newUnionFind split: if_splits)
  have "uf_root (parent (newUnionFind as)) x r \<longleftrightarrow> x \<in> set as \<and> r = x" for x r
    by (auto elim: uf_rootE simp: parent_newUnionFind intro: root_self split: if_splits)
  then show "uf_rel (newUnionFind as) = Id_on (set as)" by (auto simp: uf_rel_def)
qed

interpretation uf: disjoint_sets uf_find uf_union uf_inv "\<lambda>uf. dom (parent uf)" uf_rel
proof
  show "\<exists>s'. uf_find s a = Some (Min (uf_rel s `` {a}), s') \<and> uf_inv s' \<and>
          dom (parent s') = dom (parent s) \<and> uf_rel s' = uf_rel s"
    if "uf_inv s" "a \<in> dom (parent s)" for s a
    using uf_find_ok [OF that] uf_root_Min [OF that(1)] by (fastforce simp: uf_rel_def)
  show "\<exists>s'. uf_union s a b = Some s' \<and> uf_inv s' \<and> dom (parent s') = dom (parent s) \<and>
          uf_rel s' = join_class (uf_rel s) a b"
    if "uf_inv s" "a \<in> dom (parent s)" "b \<in> dom (parent s)" for s a b
    using uf_union_ok [OF that] .
  show "uf_union s a b = Some s" if "b \<notin> dom (parent s)" for s a b
    using that by (simp add: uf_union_def domIff)
qed

lemma uf_groups_ok:
  assumes "uf_inv uf" "set ks = dom (parent uf)"
  shows "uf_groups ks uf = Some (\<lambda>a. if a \<in> set ks then Some (Min (uf_rel uf `` {a})) else None)"
  using uf.finds_min [OF assms(1), of ks Map.empty] assms(2) by (auto simp: uf_groups_def)

end
