(* ===== verification/GoAny.thy ===== *)
theory GoAny
  imports GoStrings
begin

text \<open>
  Values of Go's type \<open>any\<close>, as far as the driver stores or inspects them: what
  \<open>encoding/json\<close> decodes into an \<open>any\<close>, and the two typed values the driver
  itself asks for or stores, \<open>[]string\<close> and \<open>map[string]string\<close>.  A
  \<open>map[string]any\<close> is an association list; \<open>obj_get\<close>, \<open>obj_set\<close> are
  reading and assigning a key.  A number is kept as its text: the driver never computes
  with one.  A type assertion \<open>v.(map[string]any)\<close> is \<open>as_map\<close>, and so on.
\<close>

datatype any =
    ANil
  | ABool bool
  | ANum string
  | AStr string
  | AList "any list"
  | AMap "(string \<times> any) list"
  | AStrMap "(string \<times> string) list"
  | AStrs "string list"

type_synonym obj = "(string \<times> any) list"

definition obj_get :: "('k \<times> 'v) list \<Rightarrow> 'k \<Rightarrow> 'v option" where
  "obj_get m k = map_of m k"

fun obj_set :: "('k \<times> 'v) list \<Rightarrow> 'k \<Rightarrow> 'v \<Rightarrow> ('k \<times> 'v) list" where
  "obj_set [] k v = [(k, v)]"
| "obj_set ((k', v') # m) k v = (if k' = k then (k, v) # m else (k', v') # obj_set m k v)"

fun as_map :: "any \<Rightarrow> obj option" where
  "as_map (AMap m) = Some m"
| "as_map _ = None"

fun as_strmap :: "any \<Rightarrow> (string \<times> string) list option" where
  "as_strmap (AStrMap m) = Some m"
| "as_strmap _ = None"

fun as_bool :: "any \<Rightarrow> bool option" where
  "as_bool (ABool b) = Some b"
| "as_bool _ = None"

fun as_str :: "any \<Rightarrow> string option" where
  "as_str (AStr s) = Some s"
| "as_str _ = None"

text \<open>The values \<open>json.Unmarshal\<close> produces for an \<open>any\<close>: only the plain constructors.\<close>

fun from_json :: "any \<Rightarrow> bool" where
  "from_json (AList xs) = list_all from_json xs"
| "from_json (AMap m) = list_all (\<lambda>(k, v). from_json v) m"
| "from_json (AStrMap m) = False"
| "from_json (AStrs ss) = False"
| "from_json _ = True"

lemma obj_get_set [simp]: "obj_get (obj_set m k v) k' = (if k' = k then Some v else obj_get m k')"
  by (induction m k v rule: obj_set.induct) (auto simp: obj_get_def)

lemma obj_get_Nil [simp]: "obj_get [] k = None"
  by (simp add: obj_get_def)

lemma obj_get_Cons [simp]: "obj_get ((k, v) # m) k' = (if k' = k then Some v else obj_get m k')"
  by (simp add: obj_get_def)

lemma from_json_get: "list_all (\<lambda>(k, v). from_json v) m \<Longrightarrow> obj_get m k = Some v \<Longrightarrow> from_json v"
  by (induction m) (auto split: if_splits)

lemma from_json_not_strmap: "from_json v \<Longrightarrow> as_strmap v = None"
  by (cases v) auto

section \<open>Floating-point numbers\<close>

text \<open>
  How Go reads and prints floating-point numbers is a parameter: the text Go prints for the number
  a text denotes, \<open>None\<close> when it is out of range.  Some theorems need that printing is stable
  (\<^verbatim>\<open>floats_ok\<close>).
\<close>

record go_floats =
  float32_text :: "string \<Rightarrow> string option"
  float64_text :: "string \<Rightarrow> string option"

definition floats_ok :: "go_floats \<Rightarrow> bool" where
  "floats_ok F \<longleftrightarrow> (\<forall>s t. float32_text F s = Some t \<longrightarrow> float32_text F t = Some t) \<and>
     (\<forall>s t. float64_text F s = Some t \<longrightarrow> float64_text F t = Some t)"

definition sample_floats :: go_floats where
  "sample_floats = \<lparr>float32_text = Some, float64_text = Some\<rparr>"

lemma sample_floats_ok: "floats_ok sample_floats"
  by (simp add: floats_ok_def sample_floats_def)

end
