(* ===== verification/Topology.thy ===== *)
theory Topology
  imports GoAny
begin

text \<open>
  The data of \<^verbatim>\<open>pkg/topology/types/pcitopo/pcitopo.go\<close>: the topology file as a
  value, \<open>GetDevices\<close>, and \<open>GenerateNumaInfoMapFromTopo\<close>, which numbers the NUMA
  nodes of a pseudo topology by sweeping the PF devices and their \<open>peers_0\<close>.
  The lemmas: every PF device gets a number, every number is below the count of sweeps, and
  when \<open>peers_0\<close> partitions the devices the grouping (not the numbering) is
  independent of Go's map order.
\<close>

section \<open>Keys of the metadata of a device\<close>

abbreviation ClockKey :: string where "ClockKey \<equiv> ''Clocks''"
abbreviation ClockRPDKey :: string where "ClockRPDKey \<equiv> ''RPD''"
abbreviation ClockSOCKey :: string where "ClockSOCKey \<equiv> ''SOC''"
abbreviation MemoryKey :: string where "MemoryKey \<equiv> ''Memory''"
abbreviation MemoryBoostableKey :: string where "MemoryBoostableKey \<equiv> ''Boostable''"
abbreviation MemoryFrequencyKey :: string where "MemoryFrequencyKey \<equiv> ''Freq''"
abbreviation MemoryVendorKey :: string where "MemoryVendorKey \<equiv> ''Make''"
abbreviation MemorySpeedKey :: string where "MemorySpeedKey \<equiv> ''Speed''"

section \<open>Data\<close>

record Peers =
  Peer0 :: "string \<rightharpoonup> int"
  Peer1 :: "string \<rightharpoonup> int"
  Peer2 :: "string \<rightharpoonup> int"

record TopoDevice =
  td_Name :: string
  td_NumaNode :: int
  td_Linkspeed :: string
  td_Peers :: Peers
  td_SpyreVfPeers :: Peers
  td_DeviceId :: string
  td_IsPf :: bool
  td_Metadata :: "obj option"     \<comment> \<open>a Go map, \<open>None\<close> when nil\<close>

record Pcitopo =
  Timestamp :: string
  Version :: string               \<comment> \<open>a \<open>float32\<close>, kept as its text; never inspected\<close>
  Server :: string
  NumDevices :: int
  Devices :: "(string \<rightharpoonup> TopoDevice) option"          \<comment> \<open>\<open>None\<close>: the nil map\<close>
  SpyreVfNumDevices :: int
  SpyreVfDevices :: "(string \<rightharpoonup> TopoDevice) option"

definition noPeers :: Peers where
  "noPeers = \<lparr>Peer0 = Map.empty, Peer1 = Map.empty, Peer2 = Map.empty\<rparr>"

definition emptyTopo :: Pcitopo where
  "emptyTopo = \<lparr>Timestamp = [], Version = ''0'', Server = [], NumDevices = 0, Devices = None,
     SpyreVfNumDevices = 0, SpyreVfDevices = None\<rparr>"

text \<open>Reading a nil map is reading an empty one.\<close>

definition nil_map :: "('k \<rightharpoonup> 'v) option \<Rightarrow> ('k \<rightharpoonup> 'v)" where
  "nil_map m = (case m of None \<Rightarrow> Map.empty | Some m' \<Rightarrow> m')"

abbreviation pf_devices :: "Pcitopo \<Rightarrow> (string \<rightharpoonup> TopoDevice)" where
  "pf_devices t \<equiv> nil_map (Devices t)"

abbreviation vf_devices :: "Pcitopo \<Rightarrow> (string \<rightharpoonup> TopoDevice)" where
  "vf_devices t \<equiv> nil_map (SpyreVfDevices t)"

text \<open>\<open>GetDevices\<close> appends the keys in the order \<open>ks\<close> in which Go ranges over the map.\<close>

definition GetDevices :: "string list \<Rightarrow> Pcitopo \<Rightarrow> string list" where
  "GetDevices ks t = filter (\<lambda>k. pf_devices t k \<noteq> None) ks"

section \<open>NUMA numbering\<close>

definition numa_step :: "Pcitopo \<Rightarrow> (string \<Rightarrow> string list) \<Rightarrow> string \<Rightarrow>
    (string \<rightharpoonup> string) \<times> int \<Rightarrow> (string \<rightharpoonup> string) \<times> int" where
  "numa_step t po a s =
     (case s of (m, i) \<Rightarrow>
        case m a of
          Some _ \<Rightarrow> (m, i)
        | None \<Rightarrow> (fold (\<lambda>p m'. m'(p \<mapsto> Itoa i)) (po a) (m(a \<mapsto> Itoa i)), i + 1))"

text \<open>
  \<open>ks\<close> is the order in which \<open>topo.Devices\<close> is ranged over, \<open>po a\<close> the order
  for the \<open>peers_0\<close> map of device \<open>a\<close>.
\<close>

definition GenerateNumaInfoMapFromTopo ::
    "string list \<Rightarrow> (string \<Rightarrow> string list) \<Rightarrow> Pcitopo \<Rightarrow> (string \<rightharpoonup> string)" where
  "GenerateNumaInfoMapFromTopo ks po t = fst (fold (numa_step t po) ks (Map.empty, 0))"

definition numa_orders_ok :: "Pcitopo \<Rightarrow> string list \<Rightarrow> (string \<Rightarrow> string list) \<Rightarrow> bool" where
  "numa_orders_ok t ks po \<longleftrightarrow> range_order ks (pf_devices t) \<and>
     (\<forall>a d. pf_devices t a = Some d \<longrightarrow> range_order (po a) (Peer0 (td_Peers d)))"

text \<open>\<open>same_switch t a\<close>: the device \<open>a\<close> and its \<open>peers_0\<close>.\<close>

definition same_switch :: "Pcitopo \<Rightarrow> string \<Rightarrow> string set" where
  "same_switch t a = insert a (case pf_devices t a of None \<Rightarrow> {} | Some d \<Rightarrow> dom (Peer0 (td_Peers d)))"

definition switch_partition :: "Pcitopo \<Rightarrow> bool" where
  "switch_partition t \<longleftrightarrow> (\<forall>a \<in> dom (pf_devices t). same_switch t a \<subseteq> dom (pf_devices t) \<and>
     (\<forall>b \<in> same_switch t a. same_switch t b = same_switch t a))"

lemma fold_assign: "fold (\<lambda>p m. m(p \<mapsto> v)) ps m x = (if x \<in> set ps then Some v else m x)"
  by (induction ps arbitrary: m) auto

lemma numa_step_Some: "m a = Some v \<Longrightarrow> numa_step t po a (m, i) = (m, i)"
  by (simp add: numa_step_def)

lemma numa_step_None:
  "m a = None \<Longrightarrow> numa_step t po a (m, i) =
     (\<lambda>x. if x \<in> insert a (set (po a)) then Some (Itoa i) else m x, i + 1)"
  by (auto simp: numa_step_def fold_assign fun_eq_iff)

text \<open>Every swept device is numbered, and the numbers are below the counter.\<close>

lemma numa_fold_bounds:
  assumes "fold (numa_step t po) ks (m, i) = (m', i')" "0 \<le> i"
    and "\<And>x v. m x = Some v \<Longrightarrow> \<exists>k. 0 \<le> k \<and> k < i \<and> v = Itoa k"
  shows "set ks \<subseteq> dom m' \<and> dom m \<subseteq> dom m' \<and> i \<le> i' \<and> i' \<le> i + int (length ks) \<and>
    (\<forall>x v. m' x = Some v \<longrightarrow> (\<exists>k. 0 \<le> k \<and> k < i' \<and> v = Itoa k))"
  using assms
proof (induction ks arbitrary: m i)
  case Nil
  then show ?case by auto
next
  case (Cons a ks)
  show ?case
  proof (cases "m a")
    case None
    let ?m = "\<lambda>x. if x \<in> insert a (set (po a)) then Some (Itoa i) else m x"
    have "\<exists>k. 0 \<le> k \<and> k < i + 1 \<and> v = Itoa k" if "?m x = Some v" for x v
      using that Cons.prems(2,3) by (fastforce split: if_splits)
    moreover have "fold (numa_step t po) ks (?m, i + 1) = (m', i')"
      using Cons.prems(1) None by (simp add: numa_step_None)
    ultimately have *: "set ks \<subseteq> dom m' \<and> dom ?m \<subseteq> dom m' \<and> i + 1 \<le> i' \<and>
        i' \<le> i + 1 + int (length ks) \<and> (\<forall>x v. m' x = Some v \<longrightarrow> (\<exists>k. 0 \<le> k \<and> k < i' \<and> v = Itoa k))"
      using Cons.IH [of ?m "i + 1"] Cons.prems(2) by simp
    have "insert a (dom m) \<subseteq> dom ?m" by auto
    with * have "insert a (dom m) \<subseteq> dom m'" by (meson subset_trans)
    with * show ?thesis by simp
  next
    case (Some v)
    then have "set ks \<subseteq> dom m' \<and> dom m \<subseteq> dom m' \<and> i \<le> i' \<and> i' \<le> i + int (length ks) \<and>
        (\<forall>x v. m' x = Some v \<longrightarrow> (\<exists>k. 0 \<le> k \<and> k < i' \<and> v = Itoa k))"
      using Cons.prems by (intro Cons.IH) (simp_all add: numa_step_Some)
    with Some show ?thesis by auto
  qed
qed

text \<open>Under a partition, equal numbers mean the same switch, whatever the order.\<close>

definition numa_inv :: "Pcitopo \<Rightarrow> (string \<rightharpoonup> string) \<Rightarrow> int \<Rightarrow> bool" where
  "numa_inv t m i \<longleftrightarrow> 0 \<le> i \<and> dom m \<subseteq> dom (pf_devices t) \<and>
     (\<forall>x v. m x = Some v \<longrightarrow> (\<exists>k. 0 \<le> k \<and> k < i \<and> v = Itoa k)) \<and>
     (\<forall>x \<in> dom m. \<forall>y. m y = m x \<longleftrightarrow> y \<in> same_switch t x)"

lemma numa_step_inv:
  assumes part: "switch_partition t" and a: "a \<in> dom (pf_devices t)"
    and po: "insert a (set (po a)) = same_switch t a" and inv: "numa_inv t m i"
  shows "numa_inv t (fst (numa_step t po a (m, i))) (snd (numa_step t po a (m, i)))"
proof (cases "m a")
  case None
  let ?S = "same_switch t a" and ?m = "\<lambda>x. if x \<in> same_switch t a then Some (Itoa i) else m x"
  have S: "?S \<subseteq> dom (pf_devices t)" "\<And>b. b \<in> ?S \<Longrightarrow> same_switch t b = ?S"
    using part a by (auto simp: switch_partition_def)
  have fresh: "m x \<noteq> Some (Itoa i)" for x
  proof
    assume "m x = Some (Itoa i)"
    then have "\<exists>k. 0 \<le> k \<and> k < i \<and> Itoa i = Itoa k" using inv unfolding numa_inv_def by blast
    then show False using Itoa_nat_inject [of i] by force
  qed
  have sep: "x \<notin> ?S" if "x \<in> dom m" for x
  proof
    assume "x \<in> ?S"
    from S(2) [OF this] have "a \<in> same_switch t x" by (simp add: same_switch_def [of t a])
    then have "m a = m x" using inv that by (simp add: numa_inv_def)
    with None that show False by auto
  qed
  have disj: "same_switch t x \<inter> ?S = {}" if "x \<in> dom m" for x
  proof (rule ccontr)
    assume "same_switch t x \<inter> ?S \<noteq> {}"
    then obtain z where z: "z \<in> same_switch t x" "z \<in> ?S" by blast
    have "x \<in> dom (pf_devices t)" using that inv by (auto simp: numa_inv_def)
    with z(1) part have "same_switch t z = same_switch t x" unfolding switch_partition_def by blast
    with S(2) [OF z(2)] have "x \<in> ?S" by (metis insertI1 same_switch_def)
    with sep [OF that] show False by simp
  qed
  have "\<forall>y. ?m y = ?m x \<longleftrightarrow> y \<in> same_switch t x" if "x \<in> dom ?m" for x
  proof (cases "x \<in> ?S")
    case True
    then show ?thesis using S(2) [OF True] fresh by auto
  next
    case False
    with that have x: "x \<in> dom m" by (simp add: domIff)
    then show ?thesis using inv disj [OF x] False fresh by (auto simp: numa_inv_def)
  qed
  moreover have "\<exists>k. 0 \<le> k \<and> k < i + 1 \<and> v = Itoa k" if "?m x = Some v" for x v
    using that inv by (fastforce simp: numa_inv_def split: if_splits)
  moreover have "dom ?m = ?S \<union> dom m" by (auto split: if_splits)
  then have "dom ?m \<subseteq> dom (pf_devices t)" using S(1) inv by (simp add: numa_inv_def)
  moreover have "0 \<le> i + 1" using inv by (simp add: numa_inv_def)
  ultimately have "numa_inv t ?m (i + 1)" unfolding numa_inv_def by blast
  with None po show ?thesis by (simp add: numa_step_None)
next
  case (Some v)
  with inv show ?thesis by (simp add: numa_step_Some)
qed

lemma numa_fold_inv:
  assumes "switch_partition t" "set ks \<subseteq> dom (pf_devices t)"
    and "\<And>a. a \<in> set ks \<Longrightarrow> insert a (set (po a)) = same_switch t a" "numa_inv t (fst s) (snd s)"
  shows "numa_inv t (fst (fold (numa_step t po) ks s)) (snd (fold (numa_step t po) ks s))"
  using assms(2-)
proof (induction ks arbitrary: s)
  case Nil
  then show ?case by simp
next
  case (Cons a ks)
  then show ?case
    using numa_step_inv [OF assms(1), of a po "fst s" "snd s"] by simp
qed

lemma numa_orders_switch:
  "numa_orders_ok t ks po \<Longrightarrow> a \<in> set ks \<Longrightarrow> insert a (set (po a)) = same_switch t a"
  by (force simp: numa_orders_ok_def same_switch_def range_order_def)

section \<open>Properties\<close>

definition numa_device :: "string \<Rightarrow> (string \<rightharpoonup> int) \<Rightarrow> TopoDevice" where
  "numa_device n ps = \<lparr>td_Name = n, td_NumaNode = 0, td_Linkspeed = [], td_Peers = noPeers\<lparr>Peer0 := ps\<rparr>,
     td_SpyreVfPeers = noPeers, td_DeviceId = [], td_IsPf = True, td_Metadata = None\<rparr>"

definition numa_sample :: Pcitopo where
  "numa_sample = emptyTopo\<lparr>Devices := Some
     [''a'' \<mapsto> numa_device ''a'' [''b'' \<mapsto> 1], ''b'' \<mapsto> numa_device ''b'' [''a'' \<mapsto> 1],
      ''c'' \<mapsto> numa_device ''c'' Map.empty]\<rparr>"

definition numa_sample_peers :: "string \<Rightarrow> string list" where
  "numa_sample_peers a = (if a = ''a'' then [''b''] else if a = ''b'' then [''a''] else [])"

lemma numa_sample_devices:
  "pf_devices numa_sample = [''a'' \<mapsto> numa_device ''a'' [''b'' \<mapsto> 1], ''b'' \<mapsto> numa_device ''b'' [''a'' \<mapsto> 1],
     ''c'' \<mapsto> numa_device ''c'' Map.empty]"
  by (simp add: numa_sample_def nil_map_def emptyTopo_def)

lemma Peer0_numa_device [simp]: "Peer0 (td_Peers (numa_device n ps)) = ps"
  by (simp add: numa_device_def)

lemma numa_sample_orders:
  "distinct ks \<Longrightarrow> set ks = {''a'', ''b'', ''c''} \<Longrightarrow> numa_orders_ok numa_sample ks numa_sample_peers"
  by (auto simp: numa_orders_ok_def range_order_def numa_sample_devices numa_sample_peers_def split: if_splits)

lemma numa_sample_switch:
  "same_switch numa_sample ''a'' = {''a'', ''b''}" "same_switch numa_sample ''b'' = {''a'', ''b''}"
  "same_switch numa_sample ''c'' = {''c''}"
  by (auto simp: same_switch_def numa_sample_devices)

lemma numa_sample_dom: "dom (pf_devices numa_sample) = {''a'', ''b'', ''c''}"
  by (auto simp: numa_sample_devices)

text \<open>
  \<open>GenerateNumaInfoMapFromTopo\<close> numbers every PF device of the topology, and the numbers
  it hands out are the decimal numerals of \<open>0, 1, ...\<close>, fewer than the devices.
\<close>

lemma numa_numbering_total:
  assumes "numa_orders_ok t ks po"
  shows "dom (pf_devices t) \<subseteq> dom (GenerateNumaInfoMapFromTopo ks po t) \<and>
    ran (GenerateNumaInfoMapFromTopo ks po t) \<subseteq> Itoa ` {0 ..< int (card (dom (pf_devices t)))}"
proof -
  obtain m i where mi: "fold (numa_step t po) ks (Map.empty, 0) = (m, i)" by fastforce
  have ks: "set ks = dom (pf_devices t)" "length ks = card (dom (pf_devices t))"
    using assms distinct_card [of ks] by (simp_all add: numa_orders_ok_def range_order_def)
  have m: "GenerateNumaInfoMapFromTopo ks po t = m" by (simp add: GenerateNumaInfoMapFromTopo_def mi)
  have *: "set ks \<subseteq> dom m" "i \<le> int (length ks)" "m x = Some v \<Longrightarrow> \<exists>k. 0 \<le> k \<and> k < i \<and> v = Itoa k" for x v
    using numa_fold_bounds [OF mi] by simp_all
  have "v \<in> Itoa ` {0 ..< int (card (dom (pf_devices t)))}" if "m x = Some v" for x v
    using *(2) *(3) [OF that] unfolding ks(2) by fastforce
  then show ?thesis
    unfolding m using *(1) ks(1) by (auto simp: ran_def)
qed

text \<open>
  C39. When \<open>peers_0\<close> partitions the devices into switches, two PF devices get the same NUMA
  number iff they are on the same switch, whatever order Go ranges over the maps in.
\<close>

theorem numa_numbering_switch:
  assumes "switch_partition t" "numa_orders_ok t ks po"
    and "a \<in> dom (pf_devices t)" "b \<in> dom (pf_devices t)"
  shows "GenerateNumaInfoMapFromTopo ks po t a = GenerateNumaInfoMapFromTopo ks po t b \<longleftrightarrow> b \<in> same_switch t a"
proof -
  let ?s = "fold (numa_step t po) ks (Map.empty, 0)"
  have ks: "set ks = dom (pf_devices t)" using assms(2) by (simp add: numa_orders_ok_def range_order_def)
  have "numa_inv t (fst ?s) (snd ?s)"
    using numa_fold_inv [OF assms(1), of ks po "(Map.empty, 0)"] ks numa_orders_switch [OF assms(2)]
    by (simp add: numa_inv_def)
  moreover have "a \<in> dom (fst ?s)"
    using numa_fold_bounds [of t po ks Map.empty 0 "fst ?s" "snd ?s"] assms(3) ks by auto
  ultimately show ?thesis
    unfolding numa_inv_def GenerateNumaInfoMapFromTopo_def by metis
qed

theorem numa_numbering_switch_witness:
  "GenerateNumaInfoMapFromTopo [''c'', ''a'', ''b''] numa_sample_peers numa_sample ''a'' =
     GenerateNumaInfoMapFromTopo [''c'', ''a'', ''b''] numa_sample_peers numa_sample ''b''"
proof -
  have "switch_partition numa_sample"
    unfolding switch_partition_def numa_sample_dom by (auto simp: numa_sample_switch)
  then show ?thesis
    using numa_numbering_switch [OF _ numa_sample_orders, of "[''c'', ''a'', ''b'']" "''a''" "''b''"]
    by (simp add: numa_sample_switch numa_sample_dom insert_commute)
qed

text \<open>The numbering itself depends on the order: the same topology, two different maps.\<close>

lemma numa_numbering_depends_on_order:
  "GenerateNumaInfoMapFromTopo [''a'', ''b'', ''c''] numa_sample_peers numa_sample ''a'' = Some ''0'' \<and>
   GenerateNumaInfoMapFromTopo [''c'', ''a'', ''b''] numa_sample_peers numa_sample ''a'' = Some ''1''"
  by (simp add: GenerateNumaInfoMapFromTopo_def numa_step_def numa_sample_peers_def Itoa_def digits_of.simps digit_char_def) code_simp

end
