(* ===== verification/TierGroups.thy ===== *)
theory TierGroups
  imports UnionFind Topology
begin

text \<open>
  \<open>GenerateTierGroupsFromTopo\<close> of \<^verbatim>\<open>pkg/topology/types/pcitopo/tier_groups.go\<close>
  with \<open>buildAdjacency\<close>, \<open>peersUpToTier\<close> and \<open>connectedComponents\<close>.
  The specification is the graph: two devices share a group at a tier when they are connected
  by the peer edges of that tier, and the group is named by its smallest address.  The lemma
  \<open>connectedComponents_min\<close> computes the algorithm's result for every order in which Go
  can range over the maps.
\<close>

section \<open>Definitions\<close>

record TierGroups =
  Tier0 :: "string \<rightharpoonup> string"
  Tier1 :: "string \<rightharpoonup> string"
  Tier2 :: "string \<rightharpoonup> string"

record peerSets =
  p0 :: "string \<rightharpoonup> int"
  p1 :: "string \<rightharpoonup> int"
  p2 :: "string \<rightharpoonup> int"

definition noPeerSets :: peerSets where
  "noPeerSets = \<lparr>p0 = Map.empty, p1 = Map.empty, p2 = Map.empty\<rparr>"

definition peersOf :: "Peers \<Rightarrow> peerSets" where
  "peersOf p = \<lparr>p0 = Peer0 p, p1 = Peer1 p, p2 = Peer2 p\<rparr>"

text \<open>
  The two loops write \<open>adjacency[addr]\<close> for every PF, then for every VF device; the
  second overwrites an address that is in both maps.
\<close>

definition buildAdjacency :: "Pcitopo \<Rightarrow> (string \<rightharpoonup> peerSets)" where
  "buildAdjacency topo =
     (\<lambda>a. map_option (\<lambda>d. peersOf (td_Peers d)) (pf_devices topo a)) ++
     (\<lambda>a. map_option (\<lambda>d. peersOf (td_SpyreVfPeers d)) (vf_devices topo a))"

definition peersUpToTier :: "peerSets \<Rightarrow> int \<Rightarrow> (string \<rightharpoonup> int) list" where
  "peersUpToTier ps maxTier =
     [p0 ps] @ (if maxTier \<ge> 1 then [p1 ps] else []) @ (if maxTier \<ge> 2 then [p2 ps] else [])"

text \<open>
  The loops of \<open>connectedComponents\<close>.  \<open>po addr j\<close> is the order of the range over
  the \<open>j\<close>-th peer map of \<open>addr\<close>, \<open>gks\<close> the order of the range over
  \<open>uf.parent\<close> in \<open>groups\<close>.
\<close>

definition unite_neighbours :: "string \<Rightarrow> string list \<Rightarrow> unionFind \<Rightarrow> unionFind option" where
  "unite_neighbours addr nbs uf = foldM (\<lambda>nb u. uf_union u addr nb) nbs uf"

definition unite_peers ::
    "(string \<rightharpoonup> peerSets) \<Rightarrow> int \<Rightarrow> (string \<Rightarrow> nat \<Rightarrow> string list) \<Rightarrow> string \<Rightarrow> unionFind \<Rightarrow> unionFind option"
where
  "unite_peers adj t po addr uf =
     foldM (\<lambda>j u. unite_neighbours addr (po addr j) u)
       [0 ..< length (peersUpToTier (go_get adj noPeerSets addr) t)] uf"

definition connectedComponents ::
    "string list \<Rightarrow> (string \<rightharpoonup> peerSets) \<Rightarrow> int \<Rightarrow> (string \<Rightarrow> nat \<Rightarrow> string list) \<Rightarrow> string list \<Rightarrow>
       (string \<rightharpoonup> string) option"
where
  "connectedComponents allAddrs adj t po gks =
     Option.bind (foldM (unite_peers adj t po) allAddrs (newUnionFind allAddrs)) (uf_groups gks)"

text \<open>The orders of one call of \<open>GenerateTierGroupsFromTopo\<close>: one per range statement.\<close>

record tier_orders =
  addr_order :: "string list"
  peer_order :: "int \<Rightarrow> string \<Rightarrow> nat \<Rightarrow> string list"
  group_order :: "int \<Rightarrow> string list"

definition GenerateTierGroupsFromTopo :: "tier_orders \<Rightarrow> Pcitopo \<Rightarrow> TierGroups option" where
  "GenerateTierGroupsFromTopo ord topo =
     (let adj = buildAdjacency topo;
          comp = (\<lambda>t. connectedComponents (addr_order ord) adj t (peer_order ord t) (group_order ord t))
      in Option.bind (comp 0) (\<lambda>g0. Option.bind (comp 1) (\<lambda>g1. Option.bind (comp 2) (\<lambda>g2.
           Some \<lparr>Tier0 = g0, Tier1 = g1, Tier2 = g2\<rparr>))))"

section \<open>Specification\<close>

definition peer_orders_ok :: "(string \<rightharpoonup> peerSets) \<Rightarrow> int \<Rightarrow> (string \<Rightarrow> nat \<Rightarrow> string list) \<Rightarrow> bool" where
  "peer_orders_ok adj t po \<longleftrightarrow> (\<forall>a ps. adj a = Some ps \<longrightarrow>
     (\<forall>j < length (peersUpToTier ps t). range_order (po a j) (peersUpToTier ps t ! j)))"

definition tier_orders_ok :: "Pcitopo \<Rightarrow> tier_orders \<Rightarrow> bool" where
  "tier_orders_ok topo ord \<longleftrightarrow> range_order (addr_order ord) (buildAdjacency topo) \<and>
     (\<forall>t. peer_orders_ok (buildAdjacency topo) t (peer_order ord t)) \<and>
     (\<forall>t. range_order (group_order ord t) (buildAdjacency topo))"

definition tier_edges :: "(string \<rightharpoonup> peerSets) \<Rightarrow> int \<Rightarrow> (string \<times> string) set" where
  "tier_edges adj t = {(a, b). \<exists>ps. adj a = Some ps \<and> (\<exists>m \<in> set (peersUpToTier ps t). b \<in> dom m)}"

text \<open>\<open>tier_conn topo t\<close>: connected by the peer edges up to tier \<open>t\<close>.\<close>

definition tier_conn :: "Pcitopo \<Rightarrow> int \<Rightarrow> (string \<times> string) set" where
  "tier_conn topo t = conn (dom (buildAdjacency topo)) (tier_edges (buildAdjacency topo) t)"

definition tier_group :: "Pcitopo \<Rightarrow> int \<Rightarrow> string \<Rightarrow> string option" where
  "tier_group topo t a =
     (if a \<in> dom (buildAdjacency topo) then Some (Min (tier_conn topo t `` {a})) else None)"

section \<open>The loops visit the edges of the tier\<close>

definition edge_list ::
    "(string \<rightharpoonup> peerSets) \<Rightarrow> int \<Rightarrow> (string \<Rightarrow> nat \<Rightarrow> string list) \<Rightarrow> string list \<Rightarrow> (string \<times> string) list"
where
  "edge_list adj t po as = concat (map (\<lambda>a. concat (map (\<lambda>j. map (Pair a) (po a j))
     [0 ..< length (peersUpToTier (go_get adj noPeerSets a) t)])) as)"

lemma unite_peers_edges:
  "foldM (unite_peers adj t po) as uf =
     foldM (\<lambda>(a, b) u. uf_union u a b) (edge_list adj t po as) uf"
proof -
  have pairs: "foldM (\<lambda>(a, b) u. uf_union u a b) (map (Pair a) xs) = foldM (\<lambda>b u. uf_union u a b) xs"
    for a xs
    by (rule ext) (simp add: foldM_map)
  have "unite_peers adj t po a u = foldM (\<lambda>(a, b) u. uf_union u a b)
     (concat (map (\<lambda>j. map (Pair a) (po a j)) [0 ..< length (peersUpToTier (go_get adj noPeerSets a) t)])) u"
    for a u
    by (simp add: unite_peers_def unite_neighbours_def [abs_def] foldM_concat foldM_map pairs)
  then have "unite_peers adj t po = (\<lambda>a. foldM (\<lambda>(a, b) u. uf_union u a b)
     (concat (map (\<lambda>j. map (Pair a) (po a j)) [0 ..< length (peersUpToTier (go_get adj noPeerSets a) t)])))"
    by (intro ext)
  then show ?thesis
    by (simp add: edge_list_def foldM_concat foldM_map)
qed

lemma set_edge_list:
  assumes "set as = dom adj" "peer_orders_ok adj t po"
  shows "set (edge_list adj t po as) = tier_edges adj t"
proof -
  have "(\<exists>j < length (peersUpToTier ps t). b \<in> set (po a j)) \<longleftrightarrow>
        (\<exists>m \<in> set (peersUpToTier ps t). b \<in> dom m)" if "adj a = Some ps" for a b ps
    using assms(2) that by (fastforce simp: peer_orders_ok_def range_order_def in_set_conv_nth)
  then show ?thesis
    using assms(1) by (fastforce simp: edge_list_def tier_edges_def go_get_def domIff image_iff)
qed

lemma connectedComponents_min:
  assumes as: "set as = dom adj" and po: "peer_orders_ok adj t po" and g: "set gks = dom adj"
  shows "connectedComponents as adj t po gks =
    Some (\<lambda>a. if a \<in> dom adj then Some (Min (conn (dom adj) (tier_edges adj t) `` {a})) else None)"
proof -
  let ?u0 = "newUnionFind as" and ?es = "edge_list adj t po as"
  have d0: "dom (parent ?u0) = dom adj" by (simp add: newUnionFind_ok as)
  have "fst ` set ?es \<subseteq> dom adj" by (auto simp: set_edge_list [OF as po] tier_edges_def)
  then obtain u where u: "foldM (\<lambda>(a, b) u. uf_union u a b) ?es ?u0 = Some u" "uf_inv u"
      "dom (parent u) = dom adj" "uf_rel u = conn (dom adj) (tier_edges adj t)"
    using uf.unions_conn [OF newUnionFind_ok(1), of as "{}" ?es] d0
    by (auto simp: newUnionFind_ok conn_empty as set_edge_list [OF as po])
  have "uf_groups gks u = Some (\<lambda>a. if a \<in> dom adj then Some (Min (uf_rel u `` {a})) else None)"
    using uf_groups_ok [OF u(2), of gks] u(3) g by simp
  then show ?thesis
    unfolding u(4) by (simp add: connectedComponents_def unite_peers_edges u(1))
qed

lemma finite_conn_class: "finite A \<Longrightarrow> finite (conn A E `` {a})"
  using conn_equiv [of A E] by (auto simp: equiv_def elim!: finite_subset [rotated])

lemma tier_conn_equiv: "equiv (dom (buildAdjacency topo)) (tier_conn topo t)"
  by (simp add: tier_conn_def conn_equiv)

lemma tier_group_in_class:
  assumes "finite (dom (buildAdjacency topo))" "a \<in> dom (buildAdjacency topo)"
  shows "(a, Min (tier_conn topo t `` {a})) \<in> tier_conn topo t"
proof -
  have "finite (tier_conn topo t `` {a})" using assms(1) by (simp add: tier_conn_def finite_conn_class)
  moreover have "a \<in> tier_conn topo t `` {a}" using assms(2) by (simp add: tier_conn_def conn_def)
  ultimately have "Min (tier_conn topo t `` {a}) \<in> tier_conn topo t `` {a}" by (intro Min_in) auto
  then show ?thesis by simp
qed

lemma tier_group_eq_iff:
  assumes fin: "finite (dom (buildAdjacency topo))"
    and ab: "a \<in> dom (buildAdjacency topo)" "b \<in> dom (buildAdjacency topo)"
  shows "tier_group topo t a = tier_group topo t b \<longleftrightarrow> (a, b) \<in> tier_conn topo t"
proof
  assume "(a, b) \<in> tier_conn topo t"
  then show "tier_group topo t a = tier_group topo t b"
    using ab equiv_class_eq [OF tier_conn_equiv] by (simp add: tier_group_def)
next
  assume "tier_group topo t a = tier_group topo t b"
  then have "Min (tier_conn topo t `` {a}) = Min (tier_conn topo t `` {b})"
    using ab by (simp add: tier_group_def)
  with tier_group_in_class [OF fin ab(1)] tier_group_in_class [OF fin ab(2)]
  show "(a, b) \<in> tier_conn topo t"
    using tier_conn_equiv [of topo t] by (metis equivE symE transE)
qed

lemma tier_conn_mono: "s \<le> t \<Longrightarrow> tier_conn topo s \<subseteq> tier_conn topo t"
  unfolding tier_conn_def
  by (intro conn_mono) (auto simp: tier_edges_def peersUpToTier_def split: if_splits)

section \<open>Properties\<close>

definition tier_of :: "TierGroups \<Rightarrow> int \<Rightarrow> (string \<rightharpoonup> string)" where
  "tier_of g t = (if t = 0 then Tier0 g else if t = 1 then Tier1 g else Tier2 g)"

lemma tier_groups_value:
  assumes "tier_orders_ok topo ord"
  shows "GenerateTierGroupsFromTopo ord topo =
    Some \<lparr>Tier0 = tier_group topo 0, Tier1 = tier_group topo 1, Tier2 = tier_group topo 2\<rparr>"
proof -
  have "connectedComponents (addr_order ord) (buildAdjacency topo) t (peer_order ord t) (group_order ord t) =
      Some (tier_group topo t)" for t
    using connectedComponents_min [of "addr_order ord" "buildAdjacency topo" t "peer_order ord t" "group_order ord t"]
      assms by (auto simp: tier_orders_ok_def range_order_def tier_group_def tier_conn_def fun_eq_iff)
  then show ?thesis by (simp add: GenerateTierGroupsFromTopo_def)
qed

lemma tier_of_value:
  assumes "tier_orders_ok topo ord" "GenerateTierGroupsFromTopo ord topo = Some g" "t \<in> {0, 1, 2}"
  shows "tier_of g t = tier_group topo t"
  using assms by (auto simp: tier_groups_value tier_of_def)

lemma tier_orders_finite: "tier_orders_ok topo ord \<Longrightarrow> finite (dom (buildAdjacency topo))"
  by (auto simp: tier_orders_ok_def intro: range_order_finite)

lemma tier_group_dom: "dom (tier_group topo t) = dom (buildAdjacency topo)"
  by (auto simp: tier_group_def split: if_splits)

lemma dom_buildAdjacency: "dom (buildAdjacency topo) = dom (pf_devices topo) \<union> dom (vf_devices topo)"
  by (auto simp: buildAdjacency_def map_add_def dom_def split: option.splits)

text \<open>A topology of three devices: \<open>a\<close>, \<open>b\<close> on one switch, \<open>c\<close> one hop away.\<close>

definition sample_device :: "string \<Rightarrow> Peers \<Rightarrow> TopoDevice" where
  "sample_device n ps = \<lparr>td_Name = n, td_NumaNode = 0, td_Linkspeed = [], td_Peers = ps,
     td_SpyreVfPeers = noPeers, td_DeviceId = [], td_IsPf = True, td_Metadata = None\<rparr>"

definition sample_topo :: Pcitopo where
  "sample_topo = emptyTopo\<lparr>Devices := Some
     [''a'' \<mapsto> sample_device ''a'' (noPeers\<lparr>Peer0 := [''b'' \<mapsto> 1]\<rparr>),
      ''b'' \<mapsto> sample_device ''b'' (noPeers\<lparr>Peer0 := [''a'' \<mapsto> 1]\<rparr>),
      ''c'' \<mapsto> sample_device ''c'' (noPeers\<lparr>Peer1 := [''a'' \<mapsto> 2]\<rparr>)]\<rparr>"

definition sample_orders :: "string list \<Rightarrow> tier_orders" where
  "sample_orders ks = \<lparr>addr_order = ks,
     peer_order = (\<lambda>t a j. if a = ''a'' \<and> j = 0 then [''b''] else if a = ''b'' \<and> j = 0 then [''a'']
                           else if a = ''c'' \<and> j = 1 then [''a''] else []),
     group_order = (\<lambda>t. ks)\<rparr>"

lemma buildAdjacency_sample:
  "buildAdjacency sample_topo =
     [''a'' \<mapsto> \<lparr>p0 = [''b'' \<mapsto> 1], p1 = Map.empty, p2 = Map.empty\<rparr>,
      ''b'' \<mapsto> \<lparr>p0 = [''a'' \<mapsto> 1], p1 = Map.empty, p2 = Map.empty\<rparr>,
      ''c'' \<mapsto> \<lparr>p0 = Map.empty, p1 = [''a'' \<mapsto> 2], p2 = Map.empty\<rparr>]"
  by (rule ext) (simp add: buildAdjacency_def sample_topo_def nil_map_def emptyTopo_def sample_device_def
      peersOf_def noPeers_def map_add_def)

lemma sample_orders_ok:
  assumes "distinct ks" "set ks = {''a'', ''b'', ''c''}"
  shows "tier_orders_ok sample_topo (sample_orders ks)"
proof -
  have "j < Suc (Suc (Suc 0)) \<Longrightarrow> j = 0 \<or> j = 1 \<or> j = 2" for j :: nat by arith
  then have "peer_orders_ok (buildAdjacency sample_topo) t (peer_order (sample_orders ks) t)" for t
    by (auto simp: peer_orders_ok_def buildAdjacency_sample sample_orders_def range_order_def
        peersUpToTier_def less_Suc_eq nth_append split: if_splits)
  with assms show ?thesis
    by (auto simp: tier_orders_ok_def range_order_def buildAdjacency_sample sample_orders_def)
qed

text \<open>
  C9. Whatever order Go ranges over the maps in, \<open>GenerateTierGroupsFromTopo\<close> returns, with
  the same result for every order; at each tier exactly the devices of the topology (PF and
  VF) have a group, and two of them have the same group iff they are connected by peer edges
  of that tier.
\<close>

theorem tier_groups_connected:
  assumes "tier_orders_ok topo ord"
  shows "\<exists>g. GenerateTierGroupsFromTopo ord topo = Some g \<and>
    (\<forall>ord'. tier_orders_ok topo ord' \<longrightarrow> GenerateTierGroupsFromTopo ord' topo = Some g) \<and>
    (\<forall>t \<in> {0, 1, 2}. dom (tier_of g t) = dom (pf_devices topo) \<union> dom (vf_devices topo) \<and>
      (\<forall>a \<in> dom (tier_of g t). \<forall>b \<in> dom (tier_of g t).
         tier_of g t a = tier_of g t b \<longleftrightarrow> (a, b) \<in> tier_conn topo t))"
proof -
  obtain g where g: "GenerateTierGroupsFromTopo ord topo = Some g"
    using tier_groups_value [OF assms] by blast
  have tg: "tier_of g t = tier_group topo t" if "t \<in> {0, 1, 2}" for t
    using tier_of_value [OF assms g that] .
  have "dom (tier_of g t) = dom (pf_devices topo) \<union> dom (vf_devices topo) \<and>
      (\<forall>a \<in> dom (tier_of g t). \<forall>b \<in> dom (tier_of g t).
         tier_of g t a = tier_of g t b \<longleftrightarrow> (a, b) \<in> tier_conn topo t)" if "t \<in> {0, 1, 2}" for t
    unfolding tg [OF that] tier_group_dom
    by (intro conjI ballI dom_buildAdjacency tier_group_eq_iff [OF tier_orders_finite [OF assms]])
  moreover have "GenerateTierGroupsFromTopo ord' topo = Some g" if "tier_orders_ok topo ord'" for ord'
    using g tier_groups_value [OF assms] tier_groups_value [OF that] by simp
  ultimately show ?thesis
    by (intro exI [of _ g] conjI allI impI ballI g) simp_all
qed

theorem tier_groups_connected_witness:
  "\<exists>g. GenerateTierGroupsFromTopo (sample_orders [''c'', ''a'', ''b'']) sample_topo = Some g \<and>
     GenerateTierGroupsFromTopo (sample_orders [''a'', ''b'', ''c'']) sample_topo = Some g"
  using tier_groups_connected [OF sample_orders_ok, of "[''c'', ''a'', ''b'']"]
    sample_orders_ok [of "[''a'', ''b'', ''c'']"] by fastforce

text \<open>
  C25. A group is named by a device of the group, the smallest one: the name is an address of
  the topology, is its own name, is not above the device it names, and every device
  connected to that device is at least the name.
\<close>

theorem tier_groups_smallest:
  assumes "tier_orders_ok topo ord" "GenerateTierGroupsFromTopo ord topo = Some g"
    and "t \<in> {0, 1, 2}" "tier_of g t a = Some r"
  shows "tier_of g t r = Some r \<and> (a, r) \<in> tier_conn topo t \<and> (\<forall>b. (a, b) \<in> tier_conn topo t \<longrightarrow> r \<le> b)"
proof -
  note fin = tier_orders_finite [OF assms(1)]
  have tg: "tier_of g t = tier_group topo t" by (rule tier_of_value [OF assms(1-3)])
  then have a: "a \<in> dom (buildAdjacency topo)" "r = Min (tier_conn topo t `` {a})"
    using assms(4) by (auto simp: tier_group_def split: if_splits)
  have ar: "(a, r) \<in> tier_conn topo t" using tier_group_in_class [OF fin a(1)] a(2) by simp
  then have r: "r \<in> dom (buildAdjacency topo)" using tier_conn_equiv [of topo t] by (auto simp: equiv_def)
  have "tier_group topo t r = tier_group topo t a" using tier_group_eq_iff [OF fin a(1) r, of t] ar by simp
  moreover have "r \<le> b" if "(a, b) \<in> tier_conn topo t" for b
    using that fin by (simp add: a(2) tier_conn_def finite_conn_class)
  ultimately show ?thesis using ar tg assms(4) by simp
qed

theorem tier_groups_smallest_witness:
  "\<exists>g r. GenerateTierGroupsFromTopo (sample_orders [''a'', ''b'', ''c'']) sample_topo = Some g \<and>
     tier_of g 0 ''b'' = Some r \<and> tier_of g 0 r = Some r \<and> r = ''a''"
proof -
  let ?o = "sample_orders [''a'', ''b'', ''c'']"
  have ok: "tier_orders_ok sample_topo ?o" by (rule sample_orders_ok) auto
  obtain g where g: "GenerateTierGroupsFromTopo ?o sample_topo = Some g"
    using tier_groups_value [OF ok] by blast
  have ab: "(''b'', ''a'') \<in> tier_conn sample_topo 0"
    unfolding tier_conn_def
    by (rule conn_edge) (auto simp: buildAdjacency_sample tier_edges_def peersUpToTier_def)
  have tg: "tier_of g 0 = tier_group sample_topo 0" by (rule tier_of_value [OF ok g]) simp
  have "''b'' \<in> dom (buildAdjacency sample_topo)" by (simp add: buildAdjacency_sample)
  then obtain r where r: "tier_of g 0 ''b'' = Some r" unfolding tg tier_group_def by auto
  note s = tier_groups_smallest [OF ok g _ r]
  have "r \<in> {''a'', ''b'', ''c''}"
    using s tier_conn_equiv [of sample_topo 0] by (auto simp: equiv_def buildAdjacency_sample)
  moreover have "r \<le> ''a''" using s ab by simp
  ultimately have "r = ''a''" by auto
  with s g r show ?thesis by auto
qed

text \<open>
  C26. Tiers are nested: devices that share a group at a tier share one at every higher tier,
  so the number of groups does not grow with the tier.
\<close>

theorem tier_groups_nested:
  assumes "tier_orders_ok topo ord" "GenerateTierGroupsFromTopo ord topo = Some g"
    and "s \<in> {0, 1, 2}" "t \<in> {0, 1, 2}" "s \<le> t"
  shows "(\<forall>a b. a \<in> dom (tier_of g s) \<and> tier_of g s a = tier_of g s b \<longrightarrow> tier_of g t a = tier_of g t b) \<and>
    card (ran (tier_of g t)) \<le> card (ran (tier_of g s))"
proof
  note fin = tier_orders_finite [OF assms(1)]
  let ?s = "tier_group topo s" and ?t = "tier_group topo t" and ?D = "dom (buildAdjacency topo)"
  have tg: "tier_of g s = ?s" "tier_of g t = ?t"
    using tier_of_value [OF assms(1,2)] assms(3,4) by blast+
  have nest: "?t a = ?t b" if "a \<in> ?D" "?s a = ?s b" for a b
  proof -
    have b: "b \<in> ?D" using that tier_group_dom [of topo s] by (metis domIff)
    with that have "(a, b) \<in> tier_conn topo s" using tier_group_eq_iff [OF fin] by simp
    then show ?thesis
      using tier_conn_mono [OF assms(5)] tier_group_eq_iff [OF fin that(1) b] by blast
  qed
  then show "\<forall>a b. a \<in> dom (tier_of g s) \<and> tier_of g s a = tier_of g s b \<longrightarrow> tier_of g t a = tier_of g t b"
    unfolding tg tier_group_dom by blast
  have "ran ?t \<subseteq> (\<lambda>r. the (?t r)) ` ran ?s"
  proof
    fix v assume "v \<in> ran ?t"
    then obtain a where a: "?t a = Some v" by (auto simp: ran_def)
    then have aD: "a \<in> ?D" by (auto simp: tier_group_def split: if_splits)
    let ?r = "Min (tier_conn topo s `` {a})"
    have r: "?s a = Some ?r" using aD by (simp add: tier_group_def)
    have "(a, ?r) \<in> tier_conn topo s" by (rule tier_group_in_class [OF fin aD])
    moreover from this have "?r \<in> ?D" using tier_conn_equiv [of topo s] by (auto simp: equiv_def)
    ultimately have "?s a = ?s ?r" using tier_group_eq_iff [OF fin aD] by simp
    from nest [OF aD this] a have "the (?t ?r) = v" by (metis option.sel)
    with r show "v \<in> (\<lambda>r. the (?t r)) ` ran ?s" by (auto intro!: image_eqI ranI)
  qed
  moreover have "finite (ran ?s)" using fin by (simp add: finite_ran tier_group_dom)
  ultimately show "card (ran (tier_of g t)) \<le> card (ran (tier_of g s))"
    unfolding tg using card_mono [of "(\<lambda>r. the (?t r)) ` ran ?s" "ran ?t"] card_image_le [of "ran ?s" "\<lambda>r. the (?t r)"]
    by (meson finite_imageI le_trans)
qed

theorem tier_groups_nested_witness:
  "\<exists>g. GenerateTierGroupsFromTopo (sample_orders [''a'', ''b'', ''c'']) sample_topo = Some g \<and>
     card (ran (Tier2 g)) \<le> card (ran (Tier0 g))"
proof -
  have ok: "tier_orders_ok sample_topo (sample_orders [''a'', ''b'', ''c''])"
    by (rule sample_orders_ok) auto
  obtain g where g: "GenerateTierGroupsFromTopo (sample_orders [''a'', ''b'', ''c'']) sample_topo = Some g"
    using tier_groups_value [OF ok] by blast
  with tier_groups_nested [OF ok g, of 0 2] show ?thesis by (auto simp: tier_of_def)
qed

end
