(* ===== verification/CdiTypes.thy ===== *)
theory CdiTypes
  imports GoAny
begin

text \<open>
  The part of the CDI specification (\<^verbatim>\<open>specs-go\<close>, an external package) that the
  driver fills in: device nodes, mounts, container edits, devices and specs.  Fields the driver
  never touches are left out.
\<close>

record DeviceNode =
  dn_Path :: string
  dn_HostPath :: string
  dn_Permissions :: string

record Mount =
  mnt_HostPath :: string
  mnt_ContainerPath :: string
  mnt_Options :: "string list"

record ContainerEdits =
  ce_Env :: "string list"
  ce_DeviceNodes :: "DeviceNode list"
  ce_Mounts :: "Mount list"

record CdiDevice =
  cd_Name :: string
  cd_ContainerEdits :: ContainerEdits

record CdiSpec =
  spec_Version :: string
  spec_Kind :: string
  spec_Devices :: "CdiDevice list"
  spec_ContainerEdits :: ContainerEdits

definition noEdits :: ContainerEdits where
  "noEdits = \<lparr>ce_Env = [], ce_DeviceNodes = [], ce_Mounts = []\<rparr>"

end
