(* ===== verification/FS.thy ===== *)
theory FS
  imports CdiTypes "HOL-Library.Sublist"
begin

text \<open>
  The operating system as the handlers use it: a file system without symbolic links, the
  environment, the source of fresh UUIDs, and how numbers are printed.  The package functions modelled are
  \<open>os.Stat\<close>, \<open>os.MkdirAll\<close>, \<open>os.Create\<close> followed by a write,
  \<open>os.ReadFile\<close>, \<open>os.ReadDir\<close>, \<open>os.RemoveAll\<close>, \<open>filepath.Walk\<close>
  and \<open>os.Getenv\<close>.  A path is its list of components (\<^verbatim>\<open>comps\<close>).  Every
  call can fail: \<open>faults w op p\<close> is the error the kernel answers to \<open>op\<close> at
  \<open>p\<close>.  A file holds raw text, a JSON document, or a CDI spec (the file the CDI library
  writes).
  The lemmas collected in \<^verbatim>\<open>fs_simps\<close> say what each call leaves at a path.
\<close>

section \<open>State\<close>

datatype content = Raw string | Doc any | SpecDoc CdiSpec

datatype node = Dir | File content

type_synonym path = "string list"

datatype op = OpStat | OpMkdir | OpCreate | OpWrite | OpRead | OpRemove | OpReadDir

record world =
  files :: "(path \<times> node) list"
  faults :: "op \<Rightarrow> path \<Rightarrow> string option"
  environ :: "string \<rightharpoonup> string"
  hostname :: "err + string"             \<comment> \<open>the answer of \<open>os.Hostname\<close>\<close>
  uuid_src :: "nat \<Rightarrow> string"     \<comment> \<open>the results of \<open>uuid.NewString\<close>, in order\<close>
  uuid_next :: nat
  floats :: go_floats

definition lookup :: "world \<Rightarrow> path \<Rightarrow> node option" where
  "lookup w p = (if p = [] \<or> p = [''/''] then Some Dir else obj_get (files w) p)"

definition put :: "path \<Rightarrow> node \<Rightarrow> world \<Rightarrow> world" where
  "put p n w = w\<lparr>files := obj_set (files w) p n\<rparr>"

fun is_file :: "node option \<Rightarrow> bool" where
  "is_file (Some (File c)) = True"
| "is_file _ = False"

definition file_above :: "world \<Rightarrow> path \<Rightarrow> bool" where
  "file_above w p = list_ex (\<lambda>i. is_file (lookup w (take i p))) [1 ..< length p]"

section \<open>System calls\<close>

definition stat_path :: "world \<Rightarrow> path \<Rightarrow> err + node" where
  "stat_path w p =
     (case faults w OpStat p of
        Some e \<Rightarrow> Inl (IOErr e)
      | None \<Rightarrow>
          if file_above w p then Inl (IOErr ''not a directory'')
          else case lookup w p of None \<Rightarrow> Inl NotExist | Some n \<Rightarrow> Inr n)"

definition Stat :: "world \<Rightarrow> string \<Rightarrow> err + node" where
  "Stat w s = (if s = [] then Inl NotExist else stat_path w (comps s))"

definition mkdir :: "world \<Rightarrow> path \<Rightarrow> err option \<times> world" where
  "mkdir w p =
     (case faults w OpMkdir p of
        Some e \<Rightarrow> (Some (IOErr e), w)
      | None \<Rightarrow>
          if lookup w p \<noteq> None then (Some (IOErr ''file exists''), w)
          else if lookup w (butlast p) \<noteq> Some Dir then (Some NotExist, w)
          else (None, put p Dir w))"

text \<open>\<open>os.MkdirAll\<close> on the reversed path: stat, then the parents, then the directory itself.\<close>

fun mkdir_rev :: "string list \<Rightarrow> world \<Rightarrow> err option \<times> world" where
  "mkdir_rev [] w = (None, w)"
| "mkdir_rev (x # xs) w =
     (case stat_path w (rev (x # xs)) of
        Inr Dir \<Rightarrow> (None, w)
      | Inr (File c) \<Rightarrow> (Some (IOErr ''not a directory''), w)
      | Inl _ \<Rightarrow>
          (case mkdir_rev xs w of
             (Some e, w1) \<Rightarrow> (Some e, w1)
           | (None, w1) \<Rightarrow>
               (case mkdir w1 (rev (x # xs)) of
                  (None, w2) \<Rightarrow> (None, w2)
                | (Some e, w2) \<Rightarrow>
                    (case stat_path w2 (rev (x # xs)) of
                       Inr Dir \<Rightarrow> (None, w2)
                     | _ \<Rightarrow> (Some e, w2)))))"

definition MkdirAll :: "world \<Rightarrow> string \<Rightarrow> err option \<times> world" where
  "MkdirAll w s = (if s = [] then (Some NotExist, w) else mkdir_rev (rev (comps s)) w)"

definition Create :: "world \<Rightarrow> string \<Rightarrow> err option \<times> world" where
  "Create w s =
     (let p = comps s in
      case faults w OpCreate p of
        Some e \<Rightarrow> (Some (IOErr e), w)
      | None \<Rightarrow>
          if s = [] then (Some NotExist, w)
          else if lookup w p = Some Dir then (Some (IOErr ''is a directory''), w)
          else if file_above w p then (Some (IOErr ''not a directory''), w)
          else if lookup w (butlast p) \<noteq> Some Dir then (Some NotExist, w)
          else (None, put p (File (Raw [])) w))"

text \<open>\<open>os.Create\<close>, then one write of the content to the open file.\<close>

definition WriteTo :: "world \<Rightarrow> string \<Rightarrow> content \<Rightarrow> err option \<times> world" where
  "WriteTo w s c =
     (case Create w s of
        (Some e, w1) \<Rightarrow> (Some e, w1)
      | (None, w1) \<Rightarrow>
          (case faults w1 OpWrite (comps s) of
             Some e \<Rightarrow> (Some (IOErr e), w1)
           | None \<Rightarrow> (None, put (comps s) (File c) w1)))"

definition ReadFile :: "world \<Rightarrow> string \<Rightarrow> err + content" where
  "ReadFile w s =
     (case faults w OpRead (comps s) of
        Some e \<Rightarrow> Inl (IOErr e)
      | None \<Rightarrow>
          (case Stat w s of
             Inl e \<Rightarrow> Inl e
           | Inr Dir \<Rightarrow> Inl (IOErr ''is a directory'')
           | Inr (File c) \<Rightarrow> Inr c))"

text \<open>
  \<open>os.RemoveAll\<close> unlinks what it can: an entry stays iff it, or an entry below it, cannot
  be unlinked.  It fails iff something stays.
\<close>

definition stuck :: "world \<Rightarrow> path \<Rightarrow> path \<Rightarrow> bool" where
  "stuck w p q = list_ex (\<lambda>(r, n). prefix p r \<and> prefix q r \<and> faults w OpRemove r \<noteq> None) (files w)"

definition RemoveAll :: "world \<Rightarrow> string \<Rightarrow> err option \<times> world" where
  "RemoveAll w s =
     (if s = [] then (None, w)
      else if comps s = [] then (Some (IOErr ''invalid argument''), w)
      else
        (let p = comps s;
             keep = (\<lambda>q. prefix p q \<longrightarrow> stuck w p q)
         in (if list_ex (\<lambda>(q, n). prefix p q \<and> stuck w p q) (files w)
             then Some (IOErr ''cannot remove'') else None,
             w\<lparr>files := filter (\<lambda>(q, n). keep q) (files w)\<rparr>)))"

text \<open>The kernel lists file names only, never \<open>.\<close>, \<open>..\<close> or a name with a slash.\<close>

definition child_names :: "world \<Rightarrow> path \<Rightarrow> string list" where
  "child_names w p = sort (map last (filter (\<lambda>q. q \<noteq> [] \<and> q \<noteq> [''/''] \<and> butlast q = p \<and> plain_name (last q)) (map fst (files w))))"

definition ReadDir :: "world \<Rightarrow> string \<Rightarrow> err + string list" where
  "ReadDir w s =
     (case faults w OpReadDir (comps s) of
        Some e \<Rightarrow> Inl (IOErr e)
      | None \<Rightarrow>
          (case Stat w s of
             Inl e \<Rightarrow> Inl e
           | Inr Dir \<Rightarrow> Inr (child_names w (comps s))
           | Inr (File c) \<Rightarrow> Inl (IOErr ''not a directory'')))"

text \<open>
  \<open>filepath.Walk\<close> with a callback that returns the errors it is given: the paths below the
  root, or the first error.
\<close>

definition path_string :: "path \<Rightarrow> string" where
  "path_string p = (if p = [] then ''.'' else if hd p = ''/'' then CHR ''/'' # JoinStr (tl p) ''/'' else JoinStr p ''/'')"

definition Walk :: "world \<Rightarrow> string \<Rightarrow> err + string list" where
  "Walk w s =
     (case Stat w s of
        Inl e \<Rightarrow> Inl e
      | Inr _ \<Rightarrow>
          (let below = filter (\<lambda>(q, n). prefix (comps s) q) (files w)
           in if list_ex (\<lambda>(q, n). faults w OpStat q \<noteq> None \<or> (n = Dir \<and> faults w OpReadDir q \<noteq> None)) below
                 \<or> faults w OpReadDir (comps s) \<noteq> None
              then Inl (IOErr ''walk'')
              else Inr (map (\<lambda>(q, n). path_string q) (filter (\<lambda>(q, n). q \<noteq> comps s) below))))"

definition LookupEnv :: "world \<Rightarrow> string \<Rightarrow> string option" where
  "LookupEnv w k = environ w k"

definition Getenv :: "world \<Rightarrow> string \<Rightarrow> string" where
  "Getenv w k = (case environ w k of None \<Rightarrow> [] | Some v \<Rightarrow> v)"

definition NewUuid :: "world \<Rightarrow> string \<times> world" where
  "NewUuid w = (uuid_src w (uuid_next w), w\<lparr>uuid_next := Suc (uuid_next w)\<rparr>)"

section \<open>What the calls leave behind\<close>

lemma child_names_plain: "n \<in> set (child_names w p) \<Longrightarrow> plain_name n"
  by (auto simp: child_names_def)

text \<open>\<open>same_os\<close>: the calls change nothing but files and the position in the UUID stream.\<close>

definition same_os :: "world \<Rightarrow> world \<Rightarrow> bool" where
  "same_os w w' \<longleftrightarrow> faults w' = faults w \<and> environ w' = environ w \<and> hostname w' = hostname w \<and> uuid_src w' = uuid_src w \<and>
     floats w' = floats w"

lemma same_os_refl [simp]: "same_os w w"
  by (simp add: same_os_def)

lemma same_os_trans: "same_os a b \<Longrightarrow> same_os b c \<Longrightarrow> same_os a c"
  by (simp add: same_os_def)

lemma same_os_put [simp]: "same_os w (put p n v) = same_os w v"
  by (simp add: same_os_def put_def)

lemma same_osD: "same_os w w' \<Longrightarrow> faults w' = faults w" "same_os w w' \<Longrightarrow> environ w' = environ w"
  "same_os w w' \<Longrightarrow> uuid_src w' = uuid_src w" "same_os w w' \<Longrightarrow> hostname w' = hostname w"
  "same_os w w' \<Longrightarrow> floats w' = floats w"
  by (simp_all add: same_os_def)

lemma lookup_root [simp]: "lookup w [] = Some Dir" "lookup w [''/''] = Some Dir"
  by (simp_all add: lookup_def)

lemma lookup_put [fs_simps]:
  "lookup (put p n w) q = (if p = q \<and> q \<noteq> [] \<and> q \<noteq> [''/''] then Some n else lookup w q)"
  by (simp add: lookup_def put_def)

lemma put_sel [simp]: "faults (put p n w) = faults w" "environ (put p n w) = environ w"
  "hostname (put p n w) = hostname w" "uuid_src (put p n w) = uuid_src w" "uuid_next (put p n w) = uuid_next w"
  "floats (put p n w) = floats w"
  by (simp_all add: put_def)

lemma obj_get_filter: "obj_get (filter (\<lambda>(q, n). P q) m) k = (if P k then obj_get m k else None)"
  by (induction m) (auto simp: obj_get_def)

lemma comps_Nil [simp]: "comps [] = []"
  by (simp add: comps_def is_rooted_def clean_comps_def clean_push_def)

lemma lookup_RemoveAll [fs_simps]:
  "lookup (snd (RemoveAll w s)) q =
     (if comps s \<noteq> [] \<and> prefix (comps s) q \<and> \<not> stuck w (comps s) q \<and> q \<noteq> [] \<and> q \<noteq> [''/''] then None else lookup w q)"
  by (cases "s = []") (auto simp: RemoveAll_def lookup_def Let_def obj_get_filter comps_Nil)

lemma RemoveAll_sel [simp]: "faults (snd (RemoveAll w s)) = faults w"
  "environ (snd (RemoveAll w s)) = environ w" "hostname (snd (RemoveAll w s)) = hostname w" "uuid_src (snd (RemoveAll w s)) = uuid_src w"
  "uuid_next (snd (RemoveAll w s)) = uuid_next w" "floats (snd (RemoveAll w s)) = floats w" "same_os v (snd (RemoveAll w s)) = same_os v w"
  by (simp_all add: RemoveAll_def Let_def same_os_def)

lemma RemoveAll_gone:
  assumes "fst (RemoveAll w s) = None" "s \<noteq> []" "prefix (comps s) q" "q \<noteq> []" "q \<noteq> [''/'']"
  shows "lookup (snd (RemoveAll w s)) q = None"
proof (cases "stuck w (comps s) q")
  case True
  then obtain r n where r: "(r, n) \<in> set (files w)" "prefix (comps s) r" "prefix q r" "faults w OpRemove r \<noteq> None"
    by (auto simp: stuck_def list_ex_iff)
  then have "stuck w (comps s) r" by (force simp: stuck_def list_ex_iff)
  with r(1,2) have "list_ex (\<lambda>(q, n). prefix (comps s) q \<and> stuck w (comps s) q) (files w)"
    by (auto simp: list_ex_iff)
  with assms(1,2) show ?thesis by (auto simp: RemoveAll_def Let_def split: if_splits)
next
  case False
  moreover have "comps s \<noteq> []" using assms(1,2) by (auto simp: RemoveAll_def)
  ultimately show ?thesis using assms(3-5) by (simp add: lookup_RemoveAll)
qed

lemma mkdir_same_os [simp]: "same_os v (snd (mkdir w p)) = same_os v w"
  by (simp add: mkdir_def split: option.split)

lemma mkdir_lookup: "lookup (snd (mkdir w p)) q = (if fst (mkdir w p) = None \<and> q = p then Some Dir else lookup w q)"
  by (auto simp: mkdir_def fs_simps split: option.split)

lemma mkdir_fresh: "fst (mkdir w p) = None \<Longrightarrow> lookup w p = None"
  by (auto simp: mkdir_def split: option.splits if_splits)

lemma mkdir_rev_frame:
  "same_os w (snd (mkdir_rev xs w)) \<and> uuid_next (snd (mkdir_rev xs w)) = uuid_next w \<and>
   (lookup (snd (mkdir_rev xs w)) q = lookup w q \<or>
    (lookup w q = None \<and> lookup (snd (mkdir_rev xs w)) q = Some Dir \<and> prefix q (rev xs)))"
proof (induction xs arbitrary: w)
  case Nil
  then show ?case by simp
next
  case (Cons x xs)
  obtain r1 w1 where w1: "mkdir_rev xs w = (r1, w1)" by fastforce
  obtain r2 w2 where w2: "mkdir w1 (rev xs @ [x]) = (r2, w2)" by fastforce
  have a: "same_os w w1 \<and> uuid_next w1 = uuid_next w \<and>
     (lookup w1 q = lookup w q \<or> (lookup w q = None \<and> lookup w1 q = Some Dir \<and> prefix q (rev xs)))"
    using Cons.IH [of w] w1 by simp
  have b: "same_os w1 w2 \<and> uuid_next w2 = uuid_next w1 \<and>
     (lookup w2 q = lookup w1 q \<or> (lookup w1 q = None \<and> lookup w2 q = Some Dir \<and> q = rev xs @ [x]))"
    using mkdir_same_os [of w1 w1 "rev xs @ [x]"] mkdir_lookup [of w1 "rev xs @ [x]" q]
      mkdir_fresh [of w1 "rev xs @ [x]"] w2
    by (auto simp: mkdir_def split: option.splits if_splits)
  have "snd (mkdir_rev (x # xs) w) \<in> {w, w1, w2}"
    using w1 w2 by (auto split: sum.split node.split option.split)
  then show ?case
    using a b same_os_trans [of w w1 w2] by (auto simp del: mkdir_rev.simps)
qed

lemma MkdirAll_frame:
  "same_os w (snd (MkdirAll w s)) \<and> uuid_next (snd (MkdirAll w s)) = uuid_next w \<and>
   (lookup (snd (MkdirAll w s)) q = lookup w q \<or>
    (lookup w q = None \<and> lookup (snd (MkdirAll w s)) q = Some Dir \<and> prefix q (comps s)))"
  using mkdir_rev_frame [of w "rev (comps s)" q] by (simp add: MkdirAll_def)

lemma stat_path_Inr: "stat_path w p = Inr n \<Longrightarrow> lookup w p = Some n"
  by (auto simp: stat_path_def split: option.splits if_splits)

lemma Stat_Inr: "Stat w s = Inr n \<Longrightarrow> lookup w (comps s) = Some n"
  by (auto simp: Stat_def dest: stat_path_Inr split: if_splits)

lemma Stat_NotExist: "Stat w s = Inl NotExist \<Longrightarrow> s \<noteq> [] \<Longrightarrow> lookup w (comps s) = None"
  by (auto simp: Stat_def stat_path_def split: option.splits if_splits)

lemma mkdir_rev_ok: "fst (mkdir_rev xs w) = None \<Longrightarrow> lookup (snd (mkdir_rev xs w)) (rev xs) = Some Dir"
proof (cases xs)
  case (Cons x ys)
  assume ok: "fst (mkdir_rev xs w) = None"
  obtain r1 w1 where w1: "mkdir_rev ys w = (r1, w1)" by fastforce
  obtain r2 w2 where w2: "mkdir w1 (rev ys @ [x]) = (r2, w2)" by fastforce
  have "r2 = None \<Longrightarrow> lookup w2 (rev ys @ [x]) = Some Dir"
    using mkdir_lookup [of w1 "rev ys @ [x]"] w2 by simp
  with ok Cons w1 w2 show ?thesis
    by (auto dest: stat_path_Inr split: sum.splits node.splits option.splits)
qed simp

lemma MkdirAll_ok: "fst (MkdirAll w s) = None \<Longrightarrow> lookup (snd (MkdirAll w s)) (comps s) = Some Dir"
  using mkdir_rev_ok [of "rev (comps s)" w] by (simp add: MkdirAll_def split: if_splits)

lemma WriteTo_frame:
  "same_os w (snd (WriteTo w s c)) \<and> uuid_next (snd (WriteTo w s c)) = uuid_next w \<and>
   (q \<noteq> comps s \<longrightarrow> lookup (snd (WriteTo w s c)) q = lookup w q)"
  by (auto simp: WriteTo_def Create_def Let_def fs_simps split: option.split prod.split if_splits)

lemma WriteTo_ok:
  "fst (WriteTo w s c) = None \<Longrightarrow> lookup (snd (WriteTo w s c)) (comps s) = Some (File c)"
  by (auto simp: WriteTo_def Create_def Let_def fs_simps split: option.splits prod.splits if_splits)

lemma WriteTo_Dir: "lookup w q = Some Dir \<Longrightarrow> lookup (snd (WriteTo w s c)) q = Some Dir"
  by (cases "q = comps s")
    (auto simp: WriteTo_def Create_def Let_def fs_simps split: option.split prod.split)

text \<open>\<open>grows w w'\<close>: nothing but new directories.\<close>

definition grows :: "world \<Rightarrow> world \<Rightarrow> bool" where
  "grows w w' \<longleftrightarrow> same_os w w' \<and>
     (\<forall>q. lookup w' q = lookup w q \<or> (lookup w q = None \<and> lookup w' q = Some Dir))"

lemma growsD: "grows w w' \<Longrightarrow> lookup w q = Some n \<Longrightarrow> lookup w' q = Some n"
  unfolding grows_def by (metis option.distinct(1))

lemma grows_refl [simp]: "grows w w"
  by (simp add: grows_def)

lemma grows_trans: "grows a b \<Longrightarrow> grows b c \<Longrightarrow> grows a c"
  unfolding grows_def same_os_def by (metis option.distinct(1))

lemma MkdirAll_grows: "grows w (snd (MkdirAll w s))"
  unfolding grows_def using MkdirAll_frame [of w s] by blast

lemma WriteTo_same_os: "same_os w (snd (WriteTo w s c))"
  using WriteTo_frame by blast

text \<open>No call fails for a reason other than what is on disk.\<close>

definition no_faults :: "world \<Rightarrow> bool" where
  "no_faults w \<longleftrightarrow> (\<forall>op p. faults w op p = None)"

lemma no_faultsD: "no_faults w \<Longrightarrow> faults w op p = None"
  by (simp add: no_faults_def)

lemma no_faults_same: "same_os w w' \<Longrightarrow> no_faults w' = no_faults w"
  by (simp add: no_faults_def same_osD)

lemma file_above_cong:
  "(\<And>q. strict_prefix q p \<Longrightarrow> lookup w' q = lookup w q) \<Longrightarrow> file_above w' p = file_above w p"
  by (auto simp: file_above_def list_ex_iff take_is_prefix strict_prefix_def)

lemma Stat_cong:
  assumes "same_os w w'" "\<And>q. prefix q (comps s) \<Longrightarrow> lookup w' q = lookup w q"
  shows "Stat w' s = Stat w s"
proof -
  have "file_above w' (comps s) = file_above w (comps s)"
    using assms(2) by (intro file_above_cong) (simp add: strict_prefix_def)
  moreover have "lookup w' (comps s) = lookup w (comps s)" using assms(2) by simp
  ultimately show ?thesis
    by (simp add: Stat_def stat_path_def same_osD [OF assms(1)] split: option.split)
qed

lemma ReadFile_cong:
  assumes "same_os w w'" "\<And>q. prefix q (comps s) \<Longrightarrow> lookup w' q = lookup w q"
  shows "ReadFile w' s = ReadFile w s"
  by (simp add: ReadFile_def same_osD [OF assms(1)] Stat_cong [OF assms] split: option.split)

lemma WriteTo_readable:
  assumes "fst (WriteTo w s c) = None" "no_faults w" "s \<noteq> []"
  shows "ReadFile (snd (WriteTo w s c)) s = Inr c \<and> Stat (snd (WriteTo w s c)) s = Inr (File c)"
proof -
  let ?w = "snd (WriteTo w s c)"
  have nf: "no_faults ?w" using assms(2) no_faults_same [OF WriteTo_same_os] by blast
  have "\<not> file_above w (comps s)"
    using assms(1) by (auto simp: WriteTo_def Create_def Let_def split: option.splits prod.splits if_splits)
  moreover have "file_above ?w (comps s) = file_above w (comps s)"
    using WriteTo_frame [of w s c] by (intro file_above_cong) (auto simp: strict_prefix_def)
  ultimately show ?thesis
    using WriteTo_ok [OF assms(1)] assms(3)
    by (simp add: ReadFile_def Stat_def stat_path_def no_faultsD [OF nf])
qed

end
