(* ===== verification/Utils.thy ===== *)
theory Utils
  imports FS
begin

text \<open>
  \<^verbatim>\<open>pkg/const/const.go\<close> and \<^verbatim>\<open>pkg/utils\<close>: constants, the environment
  getters of \<^verbatim>\<open>config_utils.go\<close>, the folder and file helpers of
  \<^verbatim>\<open>utils.go\<close>, and the sysfs queries of \<^verbatim>\<open>device_utils.go\<close>.  sysfs is
  read through a record of system calls (\<^verbatim>\<open>sysfs\<close>): symbolic links are followed
  there, so the plain file system of FS does not apply.
\<close>

section \<open>Constants\<close>

abbreviation DriverVersion :: string where "DriverVersion \<equiv> ''0.0.1''"
abbreviation PseudoDeviceModeKey :: string where "PseudoDeviceModeKey \<equiv> ''PSEUDO_DEVICE_MODE''"
abbreviation CardManagementEnabledKey :: string where "CardManagementEnabledKey \<equiv> ''CARD_MANAGEMENT_ENABLED''"
abbreviation ModeEnabledValue :: string where "ModeEnabledValue \<equiv> ''1''"
abbreviation NodeNameEnvKey :: string where "NodeNameEnvKey \<equiv> ''NODE_NAME''"
abbreviation ConfigHostPathKey :: string where "ConfigHostPathKey \<equiv> ''CONFIG_HOSTPATH''"
abbreviation OutputPathKey :: string where "OutputPathKey \<equiv> ''CONFIG_FILEPATH''"
abbreviation ConfigFileNameKey :: string where "ConfigFileNameKey \<equiv> ''CONFIG_FILENAME''"
abbreviation MetricsHostPathKey :: string where "MetricsHostPathKey \<equiv> ''SENTIENT_MAP_HOSTPATH''"
abbreviation MetricsOutputPathKey :: string where "MetricsOutputPathKey \<equiv> ''SENTIENT_MAP_FILEPATH''"
abbreviation TemplatePathKey :: string where "TemplatePathKey \<equiv> ''SENLIB_CONFIG_TEMPLATE_FILEPATH''"

abbreviation defaultOutputPath :: string where "defaultOutputPath \<equiv> ''/etc/aiu''"
abbreviation defaultConfigFileName :: string where "defaultConfigFileName \<equiv> ''senlib_config.json''"
abbreviation defaultMetricsOutputPath :: string where "defaultMetricsOutputPath \<equiv> ''/data''"
abbreviation VfioMount :: string where "VfioMount \<equiv> ''/dev/vfio/vfio''"
abbreviation DeviceNodePermission :: string where "DeviceNodePermission \<equiv> ''mrw''"

definition DriverName :: string where "DriverName = ''spyre.ibm.com''"
definition DriverPluginPath :: string where "DriverPluginPath = ''/var/lib/kubelet/plugins/'' @ DriverName"
definition DriverPluginCheckpointFile :: string where "DriverPluginCheckpointFile = ''checkpoint.json''"
definition SpyreConfigBaseFolderName :: string where "SpyreConfigBaseFolderName = ''container-config''"
definition SpyreMetricBaseFolderName :: string where "SpyreMetricBaseFolderName = ''container-metrics''"
definition DeviceEnvKey :: string where "DeviceEnvKey = ''PCIDEVICE_IBM_COM_AIU_PF''"
definition DeviceEnvKeyVf :: string where "DeviceEnvKeyVf = ''PCIDEVICE_IBM_COM_AIU_VF''"

section \<open>Environment\<close>

definition GetEnvOrDefault :: "world \<Rightarrow> string \<Rightarrow> string \<Rightarrow> string" where
  "GetEnvOrDefault w key d = (let v = Getenv w key in if v = [] then d else v)"

definition deviceDriverPath :: string where "deviceDriverPath = ''/usr/local/etc/dra-driver-spyre''"
definition defaultHostPath :: string where "defaultHostPath = Join [deviceDriverPath, SpyreConfigBaseFolderName]"
definition defaultMetricsHostPath :: string where
  "defaultMetricsHostPath = Join [deviceDriverPath, SpyreMetricBaseFolderName]"

definition GetConfigContainerPath :: "world \<Rightarrow> string" where
  "GetConfigContainerPath w = GetEnvOrDefault w OutputPathKey defaultOutputPath"
definition GetConfigHostPath :: "world \<Rightarrow> string" where
  "GetConfigHostPath w = GetEnvOrDefault w ConfigHostPathKey defaultHostPath"
definition GetConfigFileName :: "world \<Rightarrow> string" where
  "GetConfigFileName w = GetEnvOrDefault w ConfigFileNameKey defaultConfigFileName"
definition GetMetricsHostPath :: "world \<Rightarrow> string" where
  "GetMetricsHostPath w = GetEnvOrDefault w MetricsHostPathKey defaultMetricsHostPath"
definition GetMetricsContainerPath :: "world \<Rightarrow> string" where
  "GetMetricsContainerPath w = GetEnvOrDefault w MetricsOutputPathKey defaultMetricsOutputPath"

definition IsPseudoDeviceMode :: "world \<Rightarrow> bool" where
  "IsPseudoDeviceMode w \<longleftrightarrow> Getenv w PseudoDeviceModeKey = ModeEnabledValue"
definition IsCardManagementEnabled :: "world \<Rightarrow> bool" where
  "IsCardManagementEnabled w \<longleftrightarrow> Getenv w CardManagementEnabledKey = ModeEnabledValue"

text \<open>When \<open>os.Hostname\<close> fails the name stays empty.\<close>

definition GetNodeName :: "world \<Rightarrow> string" where
  "GetNodeName w =
     (case LookupEnv w NodeNameEnvKey of
        Some n \<Rightarrow> n
      | None \<Rightarrow> (case hostname w of Inl e \<Rightarrow> [] | Inr h \<Rightarrow> h))"

section \<open>Folders and files\<close>

definition CreateFolderIfNotExists :: "world \<Rightarrow> string \<Rightarrow> err option \<times> world" where
  "CreateFolderIfNotExists w p = (case Stat w p of Inl NotExist \<Rightarrow> MkdirAll w p | _ \<Rightarrow> (None, w))"

definition CreateWritableFolderIfNotExists :: "world \<Rightarrow> string \<Rightarrow> err option \<times> world" where
  "CreateWritableFolderIfNotExists w p = (case Stat w p of Inl NotExist \<Rightarrow> MkdirAll w p | _ \<Rightarrow> (None, w))"

definition uuidGenerateMaxRetry :: nat where "uuidGenerateMaxRetry = 10"

text \<open>The retry loop, with the attempts left and the last error.\<close>

fun new_folder_loop :: "nat \<Rightarrow> err option \<Rightarrow> world \<Rightarrow> string \<Rightarrow> (err + string) \<times> world" where
  "new_folder_loop 0 e w base = (Inl (Wrapped ''cannot create new config folder'' (case e of None \<Rightarrow> Msg [] | Some e' \<Rightarrow> e')), w)"
| "new_folder_loop (Suc n) e w base =
     (case NewUuid w of (u, w1) \<Rightarrow>
        let d = Join [base, u] in
        case CreateFolderIfNotExists w1 d of
          (None, w2) \<Rightarrow> (Inr d, w2)
        | (Some e', w2) \<Rightarrow> new_folder_loop n (Some e') w2 base)"

definition CreateNewConfigFolder :: "world \<Rightarrow> string \<Rightarrow> (err + string) \<times> world" where
  "CreateNewConfigFolder w base = new_folder_loop uuidGenerateMaxRetry None w base"

definition PathExists :: "world \<Rightarrow> string \<Rightarrow> bool" where
  "PathExists w p = (case Stat w p of Inl e \<Rightarrow> False | Inr n \<Rightarrow> True)"

text \<open>The destination is created even when reading the source fails, and truncated before the
  source is read when they are the same file.\<close>

definition CopyFile :: "world \<Rightarrow> string \<Rightarrow> string \<Rightarrow> err option \<times> world" where
  "CopyFile w src dest =
     (case Stat w src of
        Inl e \<Rightarrow> (Some e, w)
      | Inr n \<Rightarrow>
          (case ReadFile w src of
             Inl e \<Rightarrow> (case Create w dest of (Some e', w1) \<Rightarrow> (Some e', w1) | (None, w1) \<Rightarrow> (Some e, w1))
           | Inr c \<Rightarrow> WriteTo w dest (if comps src = comps dest then Raw [] else c)))"

section \<open>PCI addresses\<close>

definition GetPCIFunctionIndex :: "string \<Rightarrow> int" where
  "GetPCIFunctionIndex addr =
     (let dot = LastIndex addr CHR ''.'' in
      if dot < 0 \<or> dot = int (length addr) - 1 then -1
      else case Atoi (drop (nat (dot + 1)) addr) of None \<Rightarrow> -1 | Some n \<Rightarrow> n)"

definition PciAddressToDeviceName :: "string \<Rightarrow> string" where
  "PciAddressToDeviceName = map (\<lambda>c. if c = CHR '':'' \<or> c = CHR ''.'' then CHR ''-'' else c)"

section \<open>sysfs\<close>

record sysfs =
  Readlink :: "string \<Rightarrow> err + string"
  SysStat :: "string \<Rightarrow> err option"
  Lstat :: "string \<Rightarrow> err + bool"            \<comment> \<open>whether the entry is a symbolic link\<close>
  EvalSymlinks :: "string \<Rightarrow> err + string"
  SysReadFile :: "string \<Rightarrow> err + string"
  Glob :: "string \<Rightarrow> err + string list"

abbreviation devDir :: string where "devDir \<equiv> ''/dev''"
abbreviation totalVfFile :: string where "totalVfFile \<equiv> ''sriov_totalvfs''"
definition sysBusPci :: string where "sysBusPci = ''/sys/bus/pci/devices''"

definition is_space :: "char \<Rightarrow> bool" where
  "is_space c = (let n = of_char c :: nat in (9 \<le> n \<and> n \<le> 13) \<or> n = 32)"

definition TrimSpace :: "string \<Rightarrow> string" where
  "TrimSpace s = rev (dropWhile is_space (rev (dropWhile is_space s)))"

definition GetPfAddr :: "sysfs \<Rightarrow> string \<Rightarrow> err + string" where
  "GetPfAddr S addr =
     (case Readlink S (Join [sysBusPci, addr, ''physfn'']) of
        Inl NotExist \<Rightarrow> Inr []
      | Inl e \<Rightarrow> Inl (Msg ''error getting PF'')
      | Inr l \<Rightarrow> Inr (Base l))"

definition IsSriovPF :: "sysfs \<Rightarrow> string \<Rightarrow> bool" where
  "IsSriovPF S addr = (SysStat S (Join [sysBusPci, addr, totalVfFile]) = None)"

definition GetDevNode :: "sysfs \<Rightarrow> string \<Rightarrow> int" where
  "GetDevNode S addr =
     (case SysReadFile S (Join [sysBusPci, addr, ''numa_node'']) of
        Inl e \<Rightarrow> -1
      | Inr s \<Rightarrow> (case Atoi (TrimSpace s) of None \<Rightarrow> -1 | Some n \<Rightarrow> n))"

text \<open>Both results are kept: the code fills the device file before the last check.\<close>

definition GetVFIODeviceFile :: "sysfs \<Rightarrow> string \<Rightarrow> string \<times> string \<times> err option" where
  "GetVFIODeviceFile S dev =
     (let devPath = Join [sysBusPci, dev]; iommuDir = Join [devPath, ''iommu_group''] in
      case Lstat S devPath of
        Inl e \<Rightarrow> ([], [], Some (Msg ''Could not get directory information for device''))
      | Inr _ \<Rightarrow>
      case Lstat S iommuDir of
        Inl e \<Rightarrow> ([], [], Some (Msg ''unable to find iommu_group''))
      | Inr link \<Rightarrow>
      if \<not> link then ([], [], Some (Msg ''invalid symlink to iommu_group''))
      else case EvalSymlinks S iommuDir of
        Inl e \<Rightarrow> ([], [], Some (Msg ''error reading symlink to iommu_group''))
      | Inr linkName \<Rightarrow>
          let f = Join [devDir, ''vfio'', Base linkName] in
          (case SysReadFile S (Join [linkName, ''name'']) of
             Inl e \<Rightarrow> (f, f, None)
           | Inr s \<Rightarrow>
               if TrimSpace s = ''vfio-noiommu'' then (f, f, Some (Msg ''vfio-noiommu''))
               else (f, f, None)))"

definition GetDriverName :: "sysfs \<Rightarrow> string \<Rightarrow> err + string" where
  "GetDriverName S addr =
     (case Readlink S (Join [sysBusPci, addr, ''driver'']) of
        Inl e \<Rightarrow> Inl (Msg ''error getting driver info'')
      | Inr l \<Rightarrow> Inr (Base l))"

text \<open>The loop over the indices of \<open>vfDirs\<close>.\<close>

definition vf_matches :: "sysfs \<Rightarrow> string \<Rightarrow> string \<Rightarrow> nat \<Rightarrow> bool" where
  "vf_matches S pfDir addr i =
     (let dirN = pfDir @ ''/virtfn'' @ Itoa (int i) in
      case Lstat S dirN of
        Inr True \<Rightarrow> (case EvalSymlinks S dirN of Inr l \<Rightarrow> Contains l addr | Inl e \<Rightarrow> False)
      | _ \<Rightarrow> False)"

definition GetVFID :: "sysfs \<Rightarrow> string \<Rightarrow> int \<times> err option" where
  "GetVFID S addr =
     (let pfDir = Join [sysBusPci, addr, ''physfn''] in
      case Lstat S pfDir of
        Inl NotExist \<Rightarrow> (-1, None)
      | Inl e \<Rightarrow> (-1, Some (Msg ''could not get PF directory information''))
      | Inr _ \<Rightarrow>
          (case Glob S (Join [pfDir, ''virtfn*'']) of
             Inl e \<Rightarrow> (-1, Some (Msg ''error reading VF directories''))
           | Inr vfDirs \<Rightarrow>
               (case find (vf_matches S pfDir addr) [0 ..< length vfDirs] of
                  Some i \<Rightarrow> (int i, None)
                | None \<Rightarrow> (-1, None))))"

section \<open>Lemmas\<close>

lemma CreateFolder_grows: "grows w (snd (CreateFolderIfNotExists w p))"
  by (simp add: CreateFolderIfNotExists_def MkdirAll_grows split: sum.split err.split)

lemma CreateFolder_uuid [simp]: "uuid_next (snd (CreateFolderIfNotExists w p)) = uuid_next w"
  using MkdirAll_frame [of w p] by (simp add: CreateFolderIfNotExists_def split: sum.split err.split)

lemma CreateFolder_fresh:
  "fst (CreateFolderIfNotExists w p) = None \<Longrightarrow> Stat w p = Inl NotExist \<Longrightarrow>
     lookup (snd (CreateFolderIfNotExists w p)) (comps p) = Some Dir"
  by (simp add: CreateFolderIfNotExists_def MkdirAll_ok)

lemma CreateWritableFolder_eq: "CreateWritableFolderIfNotExists = CreateFolderIfNotExists"
  by (simp add: fun_eq_iff CreateFolderIfNotExists_def CreateWritableFolderIfNotExists_def)

lemma NewUuid_grows: "NewUuid w = (u, w1) \<Longrightarrow> grows w w1 \<and> u = uuid_src w (uuid_next w) \<and> uuid_next w1 = Suc (uuid_next w)"
  by (auto simp: NewUuid_def grows_def same_os_def lookup_def)

lemma new_folder_loop_ok:
  assumes "new_folder_loop n e w base = (r, w')"
  shows "grows w w' \<and>
    (case r of
       Inl _ \<Rightarrow> uuid_next w' = uuid_next w + n
     | Inr d \<Rightarrow> \<exists>k < n. d = Join [base, uuid_src w (uuid_next w + k)] \<and> uuid_next w' = uuid_next w + k + 1)"
  using assms
proof (induction n arbitrary: e w)
  case 0
  then show ?case by auto
next
  case (Suc n)
  obtain u w1 where u: "NewUuid w = (u, w1)" by fastforce
  obtain r2 w2 where w2: "CreateFolderIfNotExists w1 (Join [base, u]) = (r2, w2)" by fastforce
  note n = NewUuid_grows [OF u]
  have g12: "grows w1 w2" "uuid_next w2 = uuid_next w1"
    using CreateFolder_grows [of w1 "Join [base, u]"] CreateFolder_uuid [of w1 "Join [base, u]"]
    unfolding w2 by simp_all
  with n have g: "grows w w2" "uuid_next w2 = Suc (uuid_next w)"
    using grows_trans [of w w1 w2] by simp_all
  then have src: "uuid_src w2 = uuid_src w" by (simp add: grows_def same_os_def)
  show ?case
  proof (cases r2)
    case None
    with Suc.prems u w2 have "r = Inr (Join [base, u])" "w' = w2" by auto
    with g n show ?thesis by fastforce
  next
    case (Some e')
    with Suc.prems u w2 have "new_folder_loop n (Some e') w2 base = (r, w')" by simp
    from Suc.IH [OF this] g src show ?thesis
      by (force intro: grows_trans [OF g(1)] split: sum.splits)
  qed
qed

section \<open>Properties\<close>

text \<open>
  \<open>CreateNewConfigFolder\<close> draws at most ten UUIDs; it returns the folder named by the last
  one drawn, or an error after the tenth; files and folders that were there are untouched.
\<close>

lemma new_config_folder_bounded:
  assumes "CreateNewConfigFolder w base = (r, w')"
  shows "grows w w' \<and> uuid_next w' \<le> uuid_next w + 10 \<and>
    (r = Inr (Join [base, uuid_src w (uuid_next w' - 1)]) \<or> (is_err r \<and> uuid_next w' = uuid_next w + 10))"
  using new_folder_loop_ok [of uuidGenerateMaxRetry None w base r w'] assms
  by (auto simp: CreateNewConfigFolder_def uuidGenerateMaxRetry_def split: sum.splits)

definition sample_world :: world where
  "sample_world = \<lparr>files = [([''/'', ''c''], Dir)],
     faults = (\<lambda>op p. if op = OpMkdir \<and> p = [''/'', ''c'', ''u0''] then Some ''no space'' else None),
     environ = Map.empty, hostname = Inr ''node'', uuid_src = (\<lambda>n. if n = 0 then ''u0'' else ''u1''), uuid_next = 0,
     floats = sample_floats\<rparr>"

text \<open>The hexadecimal address of a PCI function: domain, bus, device, function.\<close>

definition hex_digit :: "char \<Rightarrow> bool" where
  "hex_digit c = (c \<in> set ''0123456789abcdef'')"

definition bdf_address :: "string \<Rightarrow> bool" where
  "bdf_address s = (length s = 12 \<and>
     (\<forall>i \<in> {0 ..< 12}. if i \<in> {4, 7} then s ! i = CHR '':'' else if i = 10 then s ! i = CHR ''.'' else hex_digit (s ! i)))"

lemma bdf_device_names:
  assumes "bdf_address a" "bdf_address b"
  shows "(PciAddressToDeviceName a = PciAddressToDeviceName b \<longleftrightarrow> a = b) \<and>
    set (PciAddressToDeviceName a) \<subseteq> set ''0123456789abcdef-''"
proof -
  let ?f = "\<lambda>c. if c = CHR '':'' \<or> c = CHR ''.'' then CHR ''-'' else c"
  have hx: "?f x = x" if "hex_digit x" for x using that by (auto simp: hex_digit_def)
  have inj: "x = y" if "hex_digit x" "hex_digit y" "?f x = ?f y" for x y
    using that(3) unfolding hx [OF that(1)] hx [OF that(2)] .
  have len: "length a = 12" "length b = 12" using assms by (simp_all add: bdf_address_def)
  have eq: "a ! i = b ! i" if i: "i < 12" "?f (a ! i) = ?f (b ! i)" for i
  proof (cases "i \<in> {4, 7, 10}")
    case True
    with assms show ?thesis by (auto simp: bdf_address_def)
  next
    case False
    with assms i(1) have "hex_digit (a ! i)" "hex_digit (b ! i)" by (simp_all add: bdf_address_def)
    from inj [OF this i(2)] show ?thesis .
  qed
  have "a = b" if "PciAddressToDeviceName a = PciAddressToDeviceName b"
  proof (rule nth_equalityI)
    show "length a = length b" using len by simp
    fix i assume i: "i < length a"
    have "PciAddressToDeviceName a ! i = PciAddressToDeviceName b ! i" using that by simp
    with i show "a ! i = b ! i" using len eq [of i] by (simp add: PciAddressToDeviceName_def)
  qed
  have "hex_digit x \<or> x = CHR '':'' \<or> x = CHR ''.''" if x: "x \<in> set a" for x
  proof -
    obtain i where "i < 12" "x = a ! i" using x len(1) by (metis in_set_conv_nth)
    with assms(1) show ?thesis unfolding bdf_address_def by (cases "i \<in> {4, 7}"; cases "i = 10") auto
  qed
  moreover have "?f x \<in> set ''0123456789abcdef-''" if "hex_digit x" for x
    using that unfolding hx [OF that] by (simp add: hex_digit_def) argo
  moreover have "?f x \<in> set ''0123456789abcdef-''" if "x = CHR '':'' \<or> x = CHR ''.''" for x
    using that by simp
  ultimately have "set (PciAddressToDeviceName a) \<subseteq> set ''0123456789abcdef-''"
    unfolding PciAddressToDeviceName_def set_map by blast
  with \<open>PciAddressToDeviceName a = PciAddressToDeviceName b \<Longrightarrow> a = b\<close> show ?thesis by blast
qed

text \<open>
  \<open>GetPCIFunctionIndex\<close> reads back the function number that ends a PCI address, for every
  number an \<open>int\<close> holds, and answers -1 when there is no dot.
\<close>

lemma function_index_roundtrip:
  assumes "n < 2 ^ 63"
  shows "GetPCIFunctionIndex (p @ ''.'' @ Itoa (int n)) = int n \<and>
    (CHR ''.'' \<notin> set p \<longrightarrow> GetPCIFunctionIndex p = -1)"
proof -
  have d: "CHR ''.'' \<notin> set (Itoa (int n))"
    using set_digits_of [of "CHR ''.''" n] digit_char_not_sign by (fastforce simp: Itoa_def)
  have a: "Atoi (Itoa (int n)) = Some (int n)" using Atoi_Itoa [of "int n"] assms by simp
  have "nat (int (length p) + 1) = Suc (length p)" by simp
  then show ?thesis
    using d a LastIndex_append [OF d, of p] by (simp add: GetPCIFunctionIndex_def Let_def Itoa_def)
qed

text \<open>
  C38. A device file handed out without an error is the container file of the IOMMU group the
  device's link resolves to; it is never a group named \<^verbatim>\<open>vfio-noiommu\<close>.
\<close>

theorem vfio_file_isolated:
  assumes "GetVFIODeviceFile S dev = (h, c, None)"
  shows "h = c \<and> (\<exists>l. Lstat S (Join [Join [sysBusPci, dev], ''iommu_group'']) = Inr True \<and>
    EvalSymlinks S (Join [Join [sysBusPci, dev], ''iommu_group'']) = Inr l \<and>
    h = Join [''/dev'', ''vfio'', Base l] \<and>
    (\<forall>s. SysReadFile S (Join [l, ''name'']) = Inr s \<longrightarrow> TrimSpace s \<noteq> ''vfio-noiommu''))"
  using assms by (auto simp: GetVFIODeviceFile_def Let_def split: sum.splits if_splits)

definition sample_sysfs :: "string \<Rightarrow> sysfs" where
  "sample_sysfs grp = \<lparr>Readlink = (\<lambda>p. Inl NotExist), SysStat = (\<lambda>p. None), Lstat = (\<lambda>p. Inr True),
     EvalSymlinks = (\<lambda>p. Inr (''/sys/kernel/iommu_groups/'' @ grp)), SysReadFile = (\<lambda>p. Inl NotExist),
     Glob = (\<lambda>p. Inr [])\<rparr>"

theorem vfio_file_isolated_witness:
  "GetVFIODeviceFile (sample_sysfs ''7'') ''0000:1a:00.0'' = (''/dev/vfio/7'', ''/dev/vfio/7'', None) \<and>
   (\<exists>l. ''/dev/vfio/7'' = Join [''/dev'', ''vfio'', Base l])"
proof -
  have "GetVFIODeviceFile (sample_sysfs ''7'') ''0000:1a:00.0'' = (''/dev/vfio/7'', ''/dev/vfio/7'', None)"
    by code_simp
  with vfio_file_isolated [OF this] show ?thesis by blast
qed

end
