(* ===== verification/Devices.thy ===== *)
theory Devices
  imports TierGroups Utils
begin

text \<open>
  \<^verbatim>\<open>pkg/types\<close>: product ids, the two implementations of the \<open>PciDevice\<close>
  interface (hardware and pseudo), the resource attributes, and the table of allocatable
  devices.  \<open>ghw.PCIDevice\<close> and the resource API types are records with the fields the
  driver reads and writes.  The environment is read from a \<^verbatim>\<open>world\<close>, sysfs through
  \<^verbatim>\<open>sysfs\<close>.
\<close>

section \<open>Names of attributes, as in \<^verbatim>\<open>allocatable_device.go\<close>\<close>

abbreviation DeviceIndexAttribute :: string where "DeviceIndexAttribute \<equiv> ''index''"
abbreviation DriverVersionAttribute :: string where "DriverVersionAttribute \<equiv> ''driverVersion''"
abbreviation DeviceStateAttribute :: string where "DeviceStateAttribute \<equiv> ''deviceState''"
abbreviation DeviceStateOnline :: string where "DeviceStateOnline \<equiv> ''ONLINE''"
abbreviation VendorAttribute :: string where "VendorAttribute \<equiv> ''vendor''"
abbreviation DriverAttribute :: string where "DriverAttribute \<equiv> ''driver''"
abbreviation ProductIdAttribute :: string where "ProductIdAttribute \<equiv> ''productId''"
abbreviation PciAddressesAttribute :: string where "PciAddressesAttribute \<equiv> ''pciAddress''"
abbreviation PfPciAddressAttribute :: string where "PfPciAddressAttribute \<equiv> ''pfPciAddress''"
abbreviation IsPfAttribute :: string where "IsPfAttribute \<equiv> ''isPf''"
abbreviation SubClassAttribute :: string where "SubClassAttribute \<equiv> ''subClass''"
abbreviation VfIdAttribute :: string where "VfIdAttribute \<equiv> ''vfId''"
abbreviation PciFunctionIndexAttribute :: string where "PciFunctionIndexAttribute \<equiv> ''pciFunctionIndex''"
abbreviation VfEnabledAttribute :: string where "VfEnabledAttribute \<equiv> ''vfEnabled''"
abbreviation NumaInfoAttribute :: string where "NumaInfoAttribute \<equiv> ''numaInfo''"
abbreviation LinkSpeedAttribute :: string where "LinkSpeedAttribute \<equiv> ''linkSpeed''"
abbreviation ClockRPDAttribute :: string where "ClockRPDAttribute \<equiv> ''clockRPD''"
abbreviation ClockSOCAttribute :: string where "ClockSOCAttribute \<equiv> ''clockSOC''"
abbreviation MemoryBoostableAttribute :: string where "MemoryBoostableAttribute \<equiv> ''memoryBoostable''"
abbreviation MemoryFrequencyAttribute :: string where "MemoryFrequencyAttribute \<equiv> ''memoryFrequency''"
abbreviation MemoryVendorAttribute :: string where "MemoryVendorAttribute \<equiv> ''memoryVendor''"
abbreviation MemorySpeedAttribute :: string where "MemorySpeedAttribute \<equiv> ''memorySpeed''"
abbreviation ManagedAttribute :: string where "ManagedAttribute \<equiv> ''managed''"
abbreviation Tier0GroupAttribute :: string where "Tier0GroupAttribute \<equiv> ''tier0Group''"
abbreviation Tier1GroupAttribute :: string where "Tier1GroupAttribute \<equiv> ''tier1Group''"
abbreviation Tier2GroupAttribute :: string where "Tier2GroupAttribute \<equiv> ''tier2Group''"

section \<open>Types\<close>

type_synonym ProductID = string

definition ProductIDPf :: ProductID where "ProductIDPf = ''06a7''"
definition ProductIDVf :: ProductID where "ProductIDVf = ''06a8''"

record ghw_device =
  ghw_Address :: string
  ghw_VendorID :: string
  ghw_VendorName :: string
  ghw_ProductID :: string
  ghw_ProductName :: string
  ghw_ClassID :: string
  ghw_SubclassID :: string
  ghw_Driver :: string
  ghw_Node :: "int option"

record DeviceAttribute =
  IntValue :: "int option"
  BoolValue :: "bool option"
  StringValue :: "string option"

type_synonym attrs = "string \<rightharpoonup> DeviceAttribute"

definition GetStringDeviceAttribute :: "string \<Rightarrow> DeviceAttribute" where
  "GetStringDeviceAttribute v = \<lparr>IntValue = None, BoolValue = None, StringValue = Some v\<rparr>"
definition GetBoolDeviceAttribute :: "bool \<Rightarrow> DeviceAttribute" where
  "GetBoolDeviceAttribute v = \<lparr>IntValue = None, BoolValue = Some v, StringValue = None\<rparr>"
definition GetIntDeviceAttribute :: "int \<Rightarrow> DeviceAttribute" where
  "GetIntDeviceAttribute v = \<lparr>IntValue = Some v, BoolValue = None, StringValue = None\<rparr>"

record pciDevice =
  basePciDevice :: ghw_device
  pfAddr :: string
  driver :: string
  vfID :: int
  numa :: string
  apiHealth :: string              \<comment> \<open>of the plugin API device; its ID is the address\<close>
  apiTopology :: "int option"

record PseudoPciDevice =
  ppd_PciAddress :: string
  ppd_ProductID :: string
  ppd_Numa :: string

datatype PciDevice = Hardware pciDevice | Pseudo PseudoPciDevice

section \<open>Hardware devices\<close>

definition nodeToStr :: "int \<Rightarrow> string" where
  "nodeToStr n = (if n \<ge> 0 then Itoa n else [])"

definition NewPciSpyreDevice :: "sysfs \<Rightarrow> ghw_device \<Rightarrow> err + pciDevice" where
  "NewPciSpyreDevice S dev =
     (case GetPfAddr S (ghw_Address dev) of Inl e \<Rightarrow> Inl e | Inr pf \<Rightarrow>
      case GetDriverName S (ghw_Address dev) of Inl e \<Rightarrow> Inl e | Inr drv \<Rightarrow>
      case GetVFID S (ghw_Address dev) of
        (v, Some e) \<Rightarrow> Inl e
      | (v, None) \<Rightarrow>
          let n = GetDevNode S (ghw_Address dev) in
          Inr \<lparr>basePciDevice = dev, pfAddr = pf, driver = drv, vfID = v, numa = nodeToStr n,
               apiHealth = ''Healthy'', apiTopology = (if n \<ge> 0 then Some n else None)\<rparr>)"

definition vfioNode :: "string \<Rightarrow> DeviceNode" where
  "vfioNode f = \<lparr>dn_Path = f, dn_HostPath = f, dn_Permissions = DeviceNodePermission\<rparr>"

definition hw_GetCDIDeviceSpec :: "sysfs \<Rightarrow> pciDevice \<Rightarrow> DeviceNode list" where
  "hw_GetCDIDeviceSpec S pd =
     (case GetVFIODeviceFile S (ghw_Address (basePciDevice pd)) of
        (h, c, Some e) \<Rightarrow> [vfioNode VfioMount]
      | (h, c, None) \<Rightarrow> [vfioNode VfioMount, \<lparr>dn_Path = c, dn_HostPath = h, dn_Permissions = DeviceNodePermission\<rparr>])"

section \<open>Pseudo devices\<close>

definition NewPseudoPciDevice :: "ghw_device \<Rightarrow> PseudoPciDevice" where
  "NewPseudoPciDevice dev = \<lparr>ppd_PciAddress = ghw_Address dev, ppd_ProductID = ghw_ProductID dev,
     ppd_Numa = (case ghw_Node dev of None \<Rightarrow> ''0'' | Some n \<Rightarrow> Itoa n)\<rparr>"

definition GeneratePseudoDevice :: "string \<Rightarrow> ProductID \<Rightarrow> int \<Rightarrow> ghw_device" where
  "GeneratePseudoDevice address productId numaNode = \<lparr>ghw_Address = address, ghw_VendorID = ''1014'',
     ghw_VendorName = ''IBM'', ghw_ProductID = (if productId = [] then ProductIDPf else productId),
     ghw_ProductName = ''unknown'', ghw_ClassID = ''00'', ghw_SubclassID = [], ghw_Driver = ''pseudoDriver'',
     ghw_Node = (if numaNode \<ge> 0 then Some numaNode else None)\<rparr>"

definition pseudo_GetVendor :: "PseudoPciDevice \<Rightarrow> string" where
  [simp]: "pseudo_GetVendor d = ''1014''"
definition pseudo_GetDriver :: "PseudoPciDevice \<Rightarrow> string" where
  [simp]: "pseudo_GetDriver d = ''vfio-pci''"
definition pseudo_GetProductID :: "PseudoPciDevice \<Rightarrow> string" where
  [simp]: "pseudo_GetProductID d = ppd_ProductID d"
definition pseudo_GetPciAddr :: "PseudoPciDevice \<Rightarrow> string" where
  [simp]: "pseudo_GetPciAddr d = (if ppd_PciAddress d = [] then ''0000:0000:00:00'' else ppd_PciAddress d)"
definition pseudo_GetPfPciAddr :: "PseudoPciDevice \<Rightarrow> string" where
  [simp]: "pseudo_GetPfPciAddr d = ''0''"
definition pseudo_IsSriovPF :: "PseudoPciDevice \<Rightarrow> bool" where
  [simp]: "pseudo_IsSriovPF d = (ppd_ProductID d = ProductIDPf)"
definition pseudo_GetSubClass :: "PseudoPciDevice \<Rightarrow> string" where
  [simp]: "pseudo_GetSubClass d = ''0''"
definition pseudo_GetEnvVal :: "PseudoPciDevice \<Rightarrow> string" where
  [simp]: "pseudo_GetEnvVal d = ppd_PciAddress d"
definition pseudo_GetCDIDeviceSpec :: "PseudoPciDevice \<Rightarrow> DeviceNode list" where
  [simp]: "pseudo_GetCDIDeviceSpec d = [vfioNode VfioMount]"
definition pseudo_GetVFID :: "PseudoPciDevice \<Rightarrow> int" where
  [simp]: "pseudo_GetVFID d = 0"
definition pseudo_GetNumaInfo :: "PseudoPciDevice \<Rightarrow> string" where
  [simp]: "pseudo_GetNumaInfo d = (if ppd_Numa d \<noteq> [] then ppd_Numa d else ''0'')"

text \<open>The views of a device that only a device plugin would need.\<close>

record pluginapi_Device =
  pd_ID :: string
  pd_Health :: string
  pd_Topology :: "int option"

definition hw_GetAPIDevice :: "pciDevice \<Rightarrow> pluginapi_Device" where
  "hw_GetAPIDevice d = \<lparr>pd_ID = ghw_Address (basePciDevice d), pd_Health = apiHealth d, pd_Topology = apiTopology d\<rparr>"
definition hw_GetMounts :: "pciDevice \<Rightarrow> string list" where "hw_GetMounts d = []"
definition pseudo_GetAPIDevice :: "PseudoPciDevice \<Rightarrow> pluginapi_Device" where
  "pseudo_GetAPIDevice d = \<lparr>pd_ID = ppd_PciAddress d, pd_Health = ''Healthy'', pd_Topology = None\<rparr>"
definition pseudo_GetPFName :: "PseudoPciDevice \<Rightarrow> string" where "pseudo_GetPFName d = ''GetPFNameResult''"
definition pseudo_GetMounts :: "PseudoPciDevice \<Rightarrow> string list" where "pseudo_GetMounts d = []"

section \<open>The PciDevice interface\<close>

fun GetVendor :: "PciDevice \<Rightarrow> string" where
  "GetVendor (Hardware d) = ghw_VendorID (basePciDevice d)"
| "GetVendor (Pseudo d) = pseudo_GetVendor d"

fun GetDriver :: "PciDevice \<Rightarrow> string" where
  "GetDriver (Hardware d) = driver d"
| "GetDriver (Pseudo d) = pseudo_GetDriver d"

fun GetProductID :: "PciDevice \<Rightarrow> string" where
  "GetProductID (Hardware d) = ghw_ProductID (basePciDevice d)"
| "GetProductID (Pseudo d) = pseudo_GetProductID d"

fun GetPciAddr :: "PciDevice \<Rightarrow> string" where
  "GetPciAddr (Hardware d) = ghw_Address (basePciDevice d)"
| "GetPciAddr (Pseudo d) = pseudo_GetPciAddr d"

fun GetPfPciAddr :: "PciDevice \<Rightarrow> string" where
  "GetPfPciAddr (Hardware d) = pfAddr d"
| "GetPfPciAddr (Pseudo d) = pseudo_GetPfPciAddr d"

fun dev_IsSriovPF :: "sysfs \<Rightarrow> PciDevice \<Rightarrow> bool" where
  "dev_IsSriovPF S (Hardware d) = IsSriovPF S (ghw_Address (basePciDevice d))"
| "dev_IsSriovPF S (Pseudo d) = pseudo_IsSriovPF d"

fun GetSubClass :: "PciDevice \<Rightarrow> string" where
  "GetSubClass (Hardware d) = ghw_SubclassID (basePciDevice d)"
| "GetSubClass (Pseudo d) = pseudo_GetSubClass d"

fun GetEnvVal :: "PciDevice \<Rightarrow> string" where
  "GetEnvVal (Hardware d) = ghw_Address (basePciDevice d)"
| "GetEnvVal (Pseudo d) = pseudo_GetEnvVal d"

fun GetCDIDeviceSpec :: "sysfs \<Rightarrow> PciDevice \<Rightarrow> DeviceNode list" where
  "GetCDIDeviceSpec S (Hardware d) = hw_GetCDIDeviceSpec S d"
| "GetCDIDeviceSpec S (Pseudo d) = pseudo_GetCDIDeviceSpec d"

fun dev_GetVFID :: "PciDevice \<Rightarrow> int" where
  "dev_GetVFID (Hardware d) = vfID d"
| "dev_GetVFID (Pseudo d) = pseudo_GetVFID d"

fun GetNumaInfo :: "PciDevice \<Rightarrow> string" where
  "GetNumaInfo (Hardware d) = numa d"
| "GetNumaInfo (Pseudo d) = pseudo_GetNumaInfo d"

section \<open>Attributes\<close>

definition setIfPresent :: "attrs \<Rightarrow> string \<Rightarrow> string \<Rightarrow> attrs" where
  "setIfPresent a k v = (if v \<noteq> [] then a(k \<mapsto> GetStringDeviceAttribute v) else a)"

definition addSpyreBasicAttributes :: "world \<Rightarrow> sysfs \<Rightarrow> attrs \<Rightarrow> PciDevice \<Rightarrow> bool \<Rightarrow> attrs" where
  "addSpyreBasicAttributes w S a d vfEnabled =
     (let fi = GetPCIFunctionIndex (GetPciAddr d);
          a' = a(VendorAttribute \<mapsto> GetStringDeviceAttribute (GetVendor d),
                 DriverAttribute \<mapsto> GetStringDeviceAttribute (GetDriver d),
                 ProductIdAttribute \<mapsto> GetStringDeviceAttribute (GetProductID d),
                 PciAddressesAttribute \<mapsto> GetStringDeviceAttribute (GetPciAddr d),
                 PfPciAddressAttribute \<mapsto> GetStringDeviceAttribute (GetPfPciAddr d),
                 IsPfAttribute \<mapsto> GetBoolDeviceAttribute (dev_IsSriovPF S d),
                 SubClassAttribute \<mapsto> GetStringDeviceAttribute (GetSubClass d),
                 VfIdAttribute \<mapsto> GetIntDeviceAttribute (dev_GetVFID d),
                 NumaInfoAttribute \<mapsto> GetStringDeviceAttribute (GetNumaInfo d),
                 PciFunctionIndexAttribute \<mapsto> GetIntDeviceAttribute fi,
                 VfEnabledAttribute \<mapsto> GetBoolDeviceAttribute vfEnabled)
      in if IsCardManagementEnabled w \<and>
            (GetProductID d = ProductIDPf \<or> (GetProductID d = ProductIDVf \<and> fi = 1))
         then a'(ManagedAttribute \<mapsto> GetBoolDeviceAttribute True) else a')"

definition addTopologyMetadataClock :: "attrs \<Rightarrow> (string \<times> string) list \<Rightarrow> attrs" where
  "addTopologyMetadataClock a clockMap =
     (let a1 = (case obj_get clockMap ClockRPDKey of Some v \<Rightarrow> a(ClockRPDAttribute \<mapsto> GetStringDeviceAttribute v) | None \<Rightarrow> a)
      in case obj_get clockMap ClockSOCKey of Some v \<Rightarrow> a1(ClockSOCAttribute \<mapsto> GetStringDeviceAttribute v) | None \<Rightarrow> a1)"

definition addTopologyMetadataMemoryStr :: "attrs \<Rightarrow> obj \<Rightarrow> string \<Rightarrow> string \<Rightarrow> attrs" where
  "addTopologyMetadataMemoryStr a memoryMap mapKey attrKey =
     (case obj_get memoryMap mapKey of
        Some v \<Rightarrow> (case as_str v of Some s \<Rightarrow> a(attrKey \<mapsto> GetStringDeviceAttribute s) | None \<Rightarrow> a)
      | None \<Rightarrow> a)"

definition addTopologyMetadataMemory :: "attrs \<Rightarrow> obj \<Rightarrow> attrs" where
  "addTopologyMetadataMemory a memoryMap =
     (let a1 = (case obj_get memoryMap MemoryBoostableKey of
                  Some v \<Rightarrow> (case as_bool v of Some b \<Rightarrow> a(MemoryBoostableAttribute \<mapsto> GetBoolDeviceAttribute b) | None \<Rightarrow> a)
                | None \<Rightarrow> a);
          a2 = addTopologyMetadataMemoryStr a1 memoryMap MemoryFrequencyKey MemoryFrequencyAttribute;
          a3 = addTopologyMetadataMemoryStr a2 memoryMap MemoryVendorKey MemoryVendorAttribute
      in addTopologyMetadataMemoryStr a3 memoryMap MemorySpeedKey MemorySpeedAttribute)"

definition addTopologyMetadataFromMap :: "attrs \<Rightarrow> obj option \<Rightarrow> attrs" where
  "addTopologyMetadataFromMap a metadata =
     (case metadata of
        None \<Rightarrow> a
      | Some m \<Rightarrow>
          (let a1 = (case Option.bind (obj_get m ClockKey) as_strmap of
                       Some cm \<Rightarrow> addTopologyMetadataClock a cm | None \<Rightarrow> a)
           in case Option.bind (obj_get m MemoryKey) as_map of
                Some mm \<Rightarrow> addTopologyMetadataMemory a1 mm | None \<Rightarrow> a1))"

definition addTierGroupAttributes :: "attrs \<Rightarrow> TierGroups option \<Rightarrow> string \<Rightarrow> attrs" where
  "addTierGroupAttributes a tg key =
     (case tg of
        None \<Rightarrow> a
      | Some g \<Rightarrow>
          setIfPresent (setIfPresent (setIfPresent a Tier0GroupAttribute (go_get (Tier0 g) [] key))
            Tier1GroupAttribute (go_get (Tier1 g) [] key)) Tier2GroupAttribute (go_get (Tier2 g) [] key))"

definition lookupTopoDevice :: "Pcitopo \<Rightarrow> string \<Rightarrow> TopoDevice option" where
  "lookupTopoDevice topo key =
     (case pf_devices topo key of Some d \<Rightarrow> Some d | None \<Rightarrow> vf_devices topo key)"

definition addDeviceTopoAttributes :: "world \<Rightarrow> attrs \<Rightarrow> TopoDevice \<Rightarrow> attrs" where
  "addDeviceTopoAttributes w a d =
     (let a1 = a(LinkSpeedAttribute \<mapsto> GetStringDeviceAttribute (td_Linkspeed d));
          a2 = (if \<not> IsPseudoDeviceMode w
                then a1(NumaInfoAttribute \<mapsto> GetStringDeviceAttribute (Itoa (td_NumaNode d))) else a1);
          a3 = addTopologyMetadataFromMap a2 (td_Metadata d)
      in a3(IsPfAttribute \<mapsto> GetBoolDeviceAttribute (td_IsPf d)))"

definition addTopologyMetadata :: "world \<Rightarrow> attrs \<Rightarrow> string \<Rightarrow> Pcitopo \<Rightarrow> TierGroups option \<Rightarrow> attrs" where
  "addTopologyMetadata w a key topo tg =
     addTierGroupAttributes
       (case lookupTopoDevice topo key of Some d \<Rightarrow> addDeviceTopoAttributes w a d | None \<Rightarrow> a) tg key"

definition getAttributes ::
    "world \<Rightarrow> sysfs \<Rightarrow> int \<Rightarrow> PciDevice \<Rightarrow> Pcitopo option \<Rightarrow> TierGroups option \<Rightarrow> bool \<Rightarrow> attrs" where
  "getAttributes w S index d topo tg vfEnabled =
     (let a = Map.empty(DeviceIndexAttribute \<mapsto> GetIntDeviceAttribute index,
                        DriverVersionAttribute \<mapsto> GetStringDeviceAttribute DriverVersion,
                        DeviceStateAttribute \<mapsto> GetStringDeviceAttribute DeviceStateOnline);
          a1 = addSpyreBasicAttributes w S a d vfEnabled
      in case topo of
           None \<Rightarrow> a1
         | Some t \<Rightarrow>
             if Devices t \<noteq> None \<or> SpyreVfDevices t \<noteq> None
             then addTopologyMetadata w a1 (GetPciAddr d) t tg else a1)"

section \<open>Allocatable devices\<close>

record SpyreDevice =
  sd_ProductID :: ProductID
  sd_Name :: string
  sd_Attributes :: attrs
  sd_PciDevice :: PciDevice

type_synonym AllocatableDevices = "string \<rightharpoonup> SpyreDevice"

definition hasVfDevice :: "PciDevice list \<Rightarrow> bool" where
  "hasVfDevice ds = list_ex (\<lambda>d. GetProductID d = ProductIDVf) ds"

fun convertToSpyrePCIDevices :: "world \<Rightarrow> sysfs \<Rightarrow> ghw_device list \<Rightarrow> PciDevice list" where
  "convertToSpyrePCIDevices w S [] = []"
| "convertToSpyrePCIDevices w S (d # ds) =
     (if IsPseudoDeviceMode w then [Pseudo (NewPseudoPciDevice d)]
      else case NewPciSpyreDevice S d of Inl e \<Rightarrow> [] | Inr h \<Rightarrow> [Hardware h])
     @ convertToSpyrePCIDevices w S ds"

definition new_spyre_device ::
    "world \<Rightarrow> sysfs \<Rightarrow> Pcitopo option \<Rightarrow> TierGroups option \<Rightarrow> bool \<Rightarrow> int \<Rightarrow> PciDevice \<Rightarrow> SpyreDevice" where
  "new_spyre_device w S topo tg vfEnabled index d =
     \<lparr>sd_ProductID = GetProductID d, sd_Name = PciAddressToDeviceName (GetPciAddr d),
      sd_Attributes = getAttributes w S index d topo tg vfEnabled, sd_PciDevice = d\<rparr>"

fun add_devices ::
    "world \<Rightarrow> sysfs \<Rightarrow> Pcitopo option \<Rightarrow> TierGroups option \<Rightarrow> bool \<Rightarrow> int \<Rightarrow> PciDevice list \<Rightarrow>
       AllocatableDevices \<Rightarrow> AllocatableDevices" where
  "add_devices w S topo tg vfEnabled index [] acc = acc"
| "add_devices w S topo tg vfEnabled index (d # ds) acc =
     add_devices w S topo tg vfEnabled (index + 1) ds
       (acc(PciAddressToDeviceName (GetPciAddr d) \<mapsto> new_spyre_device w S topo tg vfEnabled index d))"

text \<open>\<open>None\<close> would be a topology sweep that does not return; TierGroups excludes it.\<close>

definition NewAllocatableDevices ::
    "world \<Rightarrow> sysfs \<Rightarrow> tier_orders \<Rightarrow> ghw_device list \<Rightarrow> Pcitopo option \<Rightarrow> bool \<Rightarrow> AllocatableDevices option" where
  "NewAllocatableDevices w S ord hw topo disableVf =
     (if hw = [] then Some Map.empty
      else
        (let ds = convertToSpyrePCIDevices w S hw;
             vfEnabled = hasVfDevice ds \<and> \<not> disableVf
         in case topo of
              None \<Rightarrow> Some (add_devices w S None None vfEnabled 0 ds Map.empty)
            | Some t \<Rightarrow>
                (case GenerateTierGroupsFromTopo ord t of
                   None \<Rightarrow> None
                 | Some g \<Rightarrow> Some (add_devices w S topo (Some g) vfEnabled 0 ds Map.empty))))"

section \<open>Lemmas\<close>

lemma attribute_values [simp]:
  "StringValue (GetStringDeviceAttribute s) = Some s" "BoolValue (GetBoolDeviceAttribute b) = Some b"
  "IntValue (GetIntDeviceAttribute i) = Some i"
  "GetStringDeviceAttribute s = GetStringDeviceAttribute t \<longleftrightarrow> s = t"
  by (auto simp: GetStringDeviceAttribute_def GetBoolDeviceAttribute_def GetIntDeviceAttribute_def)

lemma setIfPresent_get [attr_simps]:
  "setIfPresent a k v k' = (if k' = k \<and> v \<noteq> [] then Some (GetStringDeviceAttribute v) else a k')"
  by (simp add: setIfPresent_def)

lemma memoryStr_get [attr_simps]:
  "k \<noteq> attrKey \<Longrightarrow> addTopologyMetadataMemoryStr a m mapKey attrKey k = a k"
  by (simp add: addTopologyMetadataMemoryStr_def split: option.split)

lemma memory_get [attr_simps]:
  "k \<notin> {''memoryBoostable'', ''memoryFrequency'', ''memoryVendor'', ''memorySpeed''} \<Longrightarrow>
     addTopologyMetadataMemory a m k = a k"
  by (simp add: addTopologyMetadataMemory_def attr_simps Let_def split: option.split)

lemma clock_get [attr_simps]:
  "k \<notin> {''clockRPD'', ''clockSOC''} \<Longrightarrow> addTopologyMetadataClock a m k = a k"
  by (simp add: addTopologyMetadataClock_def Let_def split: option.split)

lemma metadata_get [attr_simps]:
  "k \<notin> {''clockRPD'', ''clockSOC'', ''memoryBoostable'', ''memoryFrequency'', ''memoryVendor'', ''memorySpeed''} \<Longrightarrow>
     addTopologyMetadataFromMap a m k = a k"
  by (simp add: addTopologyMetadataFromMap_def attr_simps Let_def split: option.split)

lemma tier_attributes_get [attr_simps]:
  "k \<notin> {''tier0Group'', ''tier1Group'', ''tier2Group''} \<Longrightarrow> addTierGroupAttributes a tg key k = a k"
  by (simp add: addTierGroupAttributes_def attr_simps split: option.split)

definition topo_attribute_keys :: "string set" where
  "topo_attribute_keys = {''linkSpeed'', ''numaInfo'', ''isPf'', ''clockRPD'', ''clockSOC'', ''memoryBoostable'',
     ''memoryFrequency'', ''memoryVendor'', ''memorySpeed''}"

lemma deviceTopo_get [attr_simps]:
  "k \<notin> topo_attribute_keys \<Longrightarrow> addDeviceTopoAttributes w a d k = a k"
  by (simp add: addDeviceTopoAttributes_def attr_simps Let_def topo_attribute_keys_def)

lemma topologyMetadata_get:
  "k \<notin> topo_attribute_keys \<Longrightarrow>
     addTopologyMetadata w a key topo tg k = addTierGroupAttributes a tg key k"
  by (simp add: addTopologyMetadata_def addTierGroupAttributes_def attr_simps split: option.split)

lemma add_devices_lookup:
  assumes "distinct (map (\<lambda>d. PciAddressToDeviceName (GetPciAddr d)) ds)"
  shows "(\<forall>k < length ds. add_devices w S topo tg vf i ds acc (PciAddressToDeviceName (GetPciAddr (ds ! k))) =
            Some (new_spyre_device w S topo tg vf (i + int k) (ds ! k))) \<and>
    (\<forall>n. n \<notin> (\<lambda>d. PciAddressToDeviceName (GetPciAddr d)) ` set ds \<longrightarrow>
       add_devices w S topo tg vf i ds acc n = acc n)"
  using assms
proof (induction ds arbitrary: i acc)
  case Nil
  then show ?case by simp
next
  case (Cons d ds)
  let ?n = "PciAddressToDeviceName (GetPciAddr d)"
  define acc' where "acc' = acc(?n \<mapsto> new_spyre_device w S topo tg vf i d)"
  have acc': "acc' ?n = Some (new_spyre_device w S topo tg vf i d)" "\<And>n. n \<noteq> ?n \<Longrightarrow> acc' n = acc n"
    by (simp_all add: acc'_def)
  have step: "add_devices w S topo tg vf i (d # ds) acc = add_devices w S topo tg vf (i + 1) ds acc'"
    by (simp add: acc'_def)
  have n: "?n \<notin> (\<lambda>d. PciAddressToDeviceName (GetPciAddr d)) ` set ds" using Cons.prems by simp
  have "distinct (map (\<lambda>d. PciAddressToDeviceName (GetPciAddr d)) ds)" using Cons.prems by simp
  note IH = Cons.IH [OF this, of "i + 1" acc']
  have "add_devices w S topo tg vf (i + 1) ds acc' (PciAddressToDeviceName (GetPciAddr ((d # ds) ! k))) =
            Some (new_spyre_device w S topo tg vf (i + int k) ((d # ds) ! k))" if "k < length (d # ds)" for k
  proof (cases k)
    case 0
    with IH n acc'(1) show ?thesis by simp
  next
    case (Suc j)
    with IH that show ?thesis by (simp add: add.assoc add.commute [of 1])
  qed
  with IH acc'(2) show ?case unfolding step by simp
qed

lemma getAttributes_basic:
  assumes "k \<notin> topo_attribute_keys" "k \<notin> {''tier0Group'', ''tier1Group'', ''tier2Group''}"
  shows "getAttributes w S i d topo tg vf k = addSpyreBasicAttributes w S
    [''index'' \<mapsto> GetIntDeviceAttribute i, ''driverVersion'' \<mapsto> GetStringDeviceAttribute ''0.0.1'',
     ''deviceState'' \<mapsto> GetStringDeviceAttribute ''ONLINE''] d vf k"
  using assms by (simp add: getAttributes_def Let_def topologyMetadata_get attr_simps split: option.split)

lemma basic_get [attr_simps]:
  "addSpyreBasicAttributes w S a d vf ''index'' = a ''index''"
  "addSpyreBasicAttributes w S a d vf ''deviceState'' = a ''deviceState''"
  "addSpyreBasicAttributes w S a d vf ''pciAddress'' = Some (GetStringDeviceAttribute (GetPciAddr d))"
  "addSpyreBasicAttributes w S a d vf ''productId'' = Some (GetStringDeviceAttribute (GetProductID d))"
  "addSpyreBasicAttributes w S a d vf ''vfEnabled'' = Some (GetBoolDeviceAttribute vf)"
  "addSpyreBasicAttributes w S a d vf ''clockRPD'' = a ''clockRPD''"
  "addSpyreBasicAttributes w S a d vf ''clockSOC'' = a ''clockSOC''"
  by (simp_all add: addSpyreBasicAttributes_def Let_def)

text \<open>The tier groups a topology yields, by the specification of TierGroups.\<close>

definition expected_tiers :: "Pcitopo option \<Rightarrow> TierGroups option" where
  "expected_tiers topo =
     map_option (\<lambda>t. \<lparr>Tier0 = tier_group t 0, Tier1 = tier_group t 1, Tier2 = tier_group t 2\<rparr>) topo"

definition topo_orders_ok :: "Pcitopo option \<Rightarrow> tier_orders \<Rightarrow> bool" where
  "topo_orders_ok topo ord = (case topo of None \<Rightarrow> True | Some t \<Rightarrow> tier_orders_ok t ord)"

lemma NewAllocatableDevices_value:
  assumes "topo_orders_ok topo ord"
  shows "NewAllocatableDevices w S ord hw topo dv = Some (add_devices w S topo (expected_tiers topo)
      (hasVfDevice (convertToSpyrePCIDevices w S hw) \<and> \<not> dv) 0 (convertToSpyrePCIDevices w S hw) Map.empty)"
proof (cases topo)
  case None
  then show ?thesis by (cases hw) (simp_all add: NewAllocatableDevices_def Let_def expected_tiers_def)
next
  case (Some t)
  with assms show ?thesis
    by (cases hw) (simp_all add: NewAllocatableDevices_def Let_def tier_groups_value expected_tiers_def topo_orders_ok_def)
qed

text \<open>Devices whose PCI addresses are well formed and distinct.\<close>

definition proper_addresses :: "PciDevice list \<Rightarrow> bool" where
  "proper_addresses ds \<longleftrightarrow> distinct (map GetPciAddr ds) \<and> list_all (\<lambda>d. bdf_address (GetPciAddr d)) ds"

lemma proper_addresses_names:
  assumes "proper_addresses ds"
  shows "distinct (map (\<lambda>d. PciAddressToDeviceName (GetPciAddr d)) ds)"
proof -
  have "inj_on PciAddressToDeviceName (set (map GetPciAddr ds))"
    using assms bdf_device_names by (auto simp: inj_on_def proper_addresses_def list_all_iff)
  then have "distinct (map PciAddressToDeviceName (map GetPciAddr ds))"
    using assms by (simp add: distinct_map proper_addresses_def del: map_map)
  then show ?thesis by (simp add: comp_def)
qed

lemma NewAllocatableDevices_lookup:
  assumes ok: "topo_orders_ok topo ord"
    and ds: "ds = convertToSpyrePCIDevices w S hw" "proper_addresses ds"
  shows "\<exists>m. NewAllocatableDevices w S ord hw topo dv = Some m \<and>
    dom m = (\<lambda>d. PciAddressToDeviceName (GetPciAddr d)) ` set ds \<and>
    (\<forall>k < length ds. m (PciAddressToDeviceName (GetPciAddr (ds ! k))) =
       Some (new_spyre_device w S topo (expected_tiers topo) (hasVfDevice ds \<and> \<not> dv) (int k) (ds ! k)))"
proof -
  let ?n = "\<lambda>d. PciAddressToDeviceName (GetPciAddr d)"
  let ?m = "add_devices w S topo (expected_tiers topo) (hasVfDevice ds \<and> \<not> dv) 0 ds Map.empty"
  note look = add_devices_lookup [OF proper_addresses_names [OF ds(2)],
      of w S topo "expected_tiers topo" "hasVfDevice ds \<and> \<not> dv" 0 Map.empty]
  have "?n d \<in> dom ?m" if d: "d \<in> set ds" for d
  proof -
    obtain k where "k < length ds" "d = ds ! k" using d by (metis in_set_conv_nth)
    with conjunct1 [OF look, rule_format, of k] show ?thesis by (simp only: domIff option.distinct not_False_eq_True)
  qed
  moreover have "x \<in> ?n ` set ds" if "x \<in> dom ?m" for x
    using conjunct2 [OF look, rule_format, of x] that by (auto simp only: domIff)
  ultimately have "dom ?m = ?n ` set ds" by blast
  moreover have "NewAllocatableDevices w S ord hw topo dv = Some ?m"
    using NewAllocatableDevices_value [OF ok, of w S hw dv] unfolding ds(1) .
  moreover have "\<forall>k < length ds. ?m (?n (ds ! k)) =
      Some (new_spyre_device w S topo (expected_tiers topo) (hasVfDevice ds \<and> \<not> dv) (int k) (ds ! k))"
    using look by simp
  ultimately show ?thesis by blast
qed

lemma getAttributes_tier:
  assumes "k \<in> {''tier0Group'', ''tier1Group'', ''tier2Group''}" "Devices t \<noteq> None \<or> SpyreVfDevices t \<noteq> None"
  shows "getAttributes w S i d (Some t) (Some g) vf k =
    (let v = go_get (if k = ''tier0Group'' then Tier0 g else if k = ''tier1Group'' then Tier1 g else Tier2 g) [] (GetPciAddr d)
     in if v = [] then None else Some (GetStringDeviceAttribute v))"
proof -
  have b: "addSpyreBasicAttributes w S a d vf k = a k" for a
    using assms(1) by (elim insertE emptyE) (simp_all add: addSpyreBasicAttributes_def Let_def)
  have t: "addDeviceTopoAttributes w a dev k = a k" for a dev
    using assms(1) by (intro deviceTopo_get) (auto simp: topo_attribute_keys_def)
  have *: "getAttributes w S i d (Some t) (Some g) vf = addTopologyMetadata w
      (addSpyreBasicAttributes w S [''index'' \<mapsto> GetIntDeviceAttribute i,
         ''driverVersion'' \<mapsto> GetStringDeviceAttribute ''0.0.1'', ''deviceState'' \<mapsto> GetStringDeviceAttribute ''ONLINE''] d vf)
      (GetPciAddr d) t (Some g)"
    using assms(2) by (simp add: getAttributes_def Let_def)
  consider "k = ''tier0Group''" | "k = ''tier1Group''" | "k = ''tier2Group''" using assms(1) by blast
  then show ?thesis
    unfolding * addTopologyMetadata_def addTierGroupAttributes_def
    by cases (use b t in \<open>simp_all add: setIfPresent_get Let_def split: option.split\<close>)
qed

lemma tier_group_nonempty:
  assumes "finite (dom (buildAdjacency topo))" "[] \<notin> dom (buildAdjacency topo)" "tier_group topo t a = Some r"
  shows "r \<noteq> []"
proof -
  have a: "a \<in> dom (buildAdjacency topo)" "r = Min (tier_conn topo t `` {a})"
    using assms(3) by (auto simp: tier_group_def split: if_splits)
  have "(a, r) \<in> tier_conn topo t" using tier_group_in_class [OF assms(1) a(1)] a(2) by simp
  then show ?thesis using tier_conn_equiv [of topo t] assms(2) by (auto simp: equiv_def)
qed

lemma getAttributes_tier_value:
  assumes "t \<in> {0, 1, 2}" "topo_orders_ok (Some topo) ord" "[] \<notin> dom (buildAdjacency topo)"
    and a: "GetPciAddr d \<in> dom (buildAdjacency topo)"
  shows "getAttributes w S i d (Some topo) (expected_tiers (Some topo)) vf
      (if t = 0 then ''tier0Group'' else if t = 1 then ''tier1Group'' else ''tier2Group'') =
    Some (GetStringDeviceAttribute (the (tier_group topo t (GetPciAddr d))))"
proof -
  have fin: "finite (dom (buildAdjacency topo))"
    using assms(2) by (auto simp: topo_orders_ok_def intro: tier_orders_finite)
  obtain r where r: "tier_group topo t (GetPciAddr d) = Some r"
    using a by (simp add: tier_group_def)
  note ne = tier_group_nonempty [OF fin assms(3) r]
  have "Devices topo \<noteq> None \<or> SpyreVfDevices topo \<noteq> None"
    using a unfolding dom_buildAdjacency by (auto simp: nil_map_def split: option.splits)
  with assms(1) r ne show ?thesis
    by (auto simp: getAttributes_tier expected_tiers_def go_get_def)
qed

section \<open>Types of the attributes\<close>

text \<open>
  An attribute is a union: Kubernetes wants exactly one of its values set, and a claim's selector
  expects each name at one type, in at most 32 names.
\<close>

datatype attribute_kind = IntAttr | BoolAttr | StringAttr

fun has_kind :: "attribute_kind \<Rightarrow> DeviceAttribute \<Rightarrow> bool" where
  "has_kind IntAttr a \<longleftrightarrow> IntValue a \<noteq> None \<and> BoolValue a = None \<and> StringValue a = None"
| "has_kind BoolAttr a \<longleftrightarrow> IntValue a = None \<and> BoolValue a \<noteq> None \<and> StringValue a = None"
| "has_kind StringAttr a \<longleftrightarrow> IntValue a = None \<and> BoolValue a = None \<and> StringValue a \<noteq> None"

definition attribute_kinds :: "(string \<times> attribute_kind) list" where
  "attribute_kinds = map (\<lambda>k. (k, IntAttr)) [''index'', ''vfId'', ''pciFunctionIndex''] @
     map (\<lambda>k. (k, BoolAttr)) [''isPf'', ''vfEnabled'', ''managed'', ''memoryBoostable''] @
     map (\<lambda>k. (k, StringAttr)) [''driverVersion'', ''deviceState'', ''vendor'', ''driver'', ''productId'', ''pciAddress'',
       ''pfPciAddress'', ''subClass'', ''numaInfo'', ''linkSpeed'', ''clockRPD'', ''clockSOC'', ''memoryFrequency'',
       ''memoryVendor'', ''memorySpeed'', ''tier0Group'', ''tier1Group'', ''tier2Group'']"

definition well_typed :: "attrs \<Rightarrow> bool" where
  "well_typed a \<longleftrightarrow> (\<forall>k v. a k = Some v \<longrightarrow> (\<exists>t. map_of attribute_kinds k = Some t \<and> has_kind t v))"

definition devices_well_typed :: "AllocatableDevices \<Rightarrow> bool" where
  "devices_well_typed A \<longleftrightarrow> (\<forall>n d. A n = Some d \<longrightarrow> well_typed (sd_Attributes d))"

lemma well_typed_empty [intro!]: "well_typed Map.empty"
  by (simp add: well_typed_def)

lemma well_typed_upd:
  "well_typed a \<Longrightarrow> map_of attribute_kinds k = Some t \<Longrightarrow> has_kind t v \<Longrightarrow> well_typed (a(k \<mapsto> v))"
  by (auto simp: well_typed_def)

lemma well_typed_string: "well_typed a \<Longrightarrow> map_of attribute_kinds k = Some StringAttr \<Longrightarrow> well_typed (a(k \<mapsto> GetStringDeviceAttribute s))"
  by (rule well_typed_upd [where t = StringAttr]) (simp_all add: GetStringDeviceAttribute_def)

lemma well_typed_int: "well_typed a \<Longrightarrow> map_of attribute_kinds k = Some IntAttr \<Longrightarrow> well_typed (a(k \<mapsto> GetIntDeviceAttribute i))"
  by (rule well_typed_upd [where t = IntAttr]) (simp_all add: GetIntDeviceAttribute_def)

lemma well_typed_bool: "well_typed a \<Longrightarrow> map_of attribute_kinds k = Some BoolAttr \<Longrightarrow> well_typed (a(k \<mapsto> GetBoolDeviceAttribute b))"
  by (rule well_typed_upd [where t = BoolAttr]) (simp_all add: GetBoolDeviceAttribute_def)

lemmas well_typed_intros = well_typed_string well_typed_int well_typed_bool

lemma well_typed_basic: "well_typed a \<Longrightarrow> well_typed (addSpyreBasicAttributes w S a d vf)"
  by (simp add: addSpyreBasicAttributes_def Let_def attribute_kinds_def well_typed_intros)

lemma well_typed_setIfPresent:
  "well_typed a \<Longrightarrow> map_of attribute_kinds k = Some StringAttr \<Longrightarrow> well_typed (setIfPresent a k v)"
  by (simp add: setIfPresent_def well_typed_string)

lemma well_typed_memoryStr:
  "well_typed a \<Longrightarrow> map_of attribute_kinds k = Some StringAttr \<Longrightarrow> well_typed (addTopologyMetadataMemoryStr a m mk k)"
  by (simp add: addTopologyMetadataMemoryStr_def well_typed_string split: option.split)

lemma well_typed_clock: "well_typed a \<Longrightarrow> well_typed (addTopologyMetadataClock a m)"
  by (simp add: addTopologyMetadataClock_def Let_def well_typed_string attribute_kinds_def split: option.split)

lemma well_typed_memory: "well_typed a \<Longrightarrow> well_typed (addTopologyMetadataMemory a m)"
  unfolding addTopologyMetadataMemory_def Let_def
  by (intro well_typed_memoryStr) (simp_all add: well_typed_bool attribute_kinds_def split: option.split)

lemma well_typed_metadata: "well_typed a \<Longrightarrow> well_typed (addTopologyMetadataFromMap a m)"
  by (simp add: addTopologyMetadataFromMap_def Let_def well_typed_clock well_typed_memory split: option.split)

lemma well_typed_topo: "well_typed a \<Longrightarrow> well_typed (addDeviceTopoAttributes w a d)"
  by (simp add: addDeviceTopoAttributes_def Let_def well_typed_intros well_typed_metadata attribute_kinds_def)

lemma well_typed_tiers: "well_typed a \<Longrightarrow> well_typed (addTierGroupAttributes a tg key)"
  by (simp add: addTierGroupAttributes_def well_typed_setIfPresent attribute_kinds_def split: option.split)

lemma well_typed_getAttributes: "well_typed (getAttributes w S i d topo tg vf)"
proof -
  have "well_typed [''index'' \<mapsto> GetIntDeviceAttribute i, ''driverVersion'' \<mapsto> GetStringDeviceAttribute ''0.0.1'',
      ''deviceState'' \<mapsto> GetStringDeviceAttribute ''ONLINE'']"
    by (intro well_typed_intros well_typed_empty) (simp_all add: attribute_kinds_def)
  note basic = well_typed_basic [OF this]
  show ?thesis
    by (simp add: getAttributes_def addTopologyMetadata_def Let_def basic well_typed_tiers well_typed_topo split: option.split)
qed

lemma add_devices_well_typed:
  "devices_well_typed acc \<Longrightarrow> devices_well_typed (add_devices w S topo tg vf i ds acc)"
proof (induction ds arbitrary: i acc)
  case (Cons d ds)
  have "devices_well_typed (acc(PciAddressToDeviceName (GetPciAddr d) \<mapsto> new_spyre_device w S topo tg vf i d))"
    using Cons.prems by (simp add: devices_well_typed_def new_spyre_device_def well_typed_getAttributes)
  then have "devices_well_typed (add_devices w S topo tg vf (i + 1) ds
      (acc(PciAddressToDeviceName (GetPciAddr d) \<mapsto> new_spyre_device w S topo tg vf i d)))"
    by (rule Cons.IH)
  then show ?case by simp
qed simp

lemma NewAllocatableDevices_well_typed:
  assumes "NewAllocatableDevices w S ord hw topo dv = Some A"
  shows "devices_well_typed A"
proof -
  have "devices_well_typed Map.empty" by (simp add: devices_well_typed_def)
  note typed = add_devices_well_typed [OF this]
  show ?thesis
    using assms typed by (auto simp: NewAllocatableDevices_def Let_def devices_well_typed_def split: if_splits option.splits)
qed

section \<open>Properties\<close>

text \<open>
  C20. The allocatable devices are exactly the convertible devices, one entry per PCI address:
  under its name each device is found with its own product id, its position as index, its PCI
  address and product id as attributes, state ONLINE, and \<open>vfEnabled\<close> set iff some device
  is a VF and virtual functions are not disabled.
\<close>

theorem allocatable_devices_exact:
  assumes "topo_orders_ok topo ord"
    and "ds = convertToSpyrePCIDevices w S hw" "proper_addresses ds"
  shows "\<exists>m. NewAllocatableDevices w S ord hw topo dv = Some m \<and>
    dom m = (\<lambda>d. PciAddressToDeviceName (GetPciAddr d)) ` set ds \<and>
    (\<forall>k < length ds. \<exists>sd. m (PciAddressToDeviceName (GetPciAddr (ds ! k))) = Some sd \<and>
       sd_PciDevice sd = ds ! k \<and> sd_ProductID sd = GetProductID (ds ! k) \<and>
       sd_Attributes sd ''index'' = Some (GetIntDeviceAttribute (int k)) \<and>
       sd_Attributes sd ''pciAddress'' = Some (GetStringDeviceAttribute (GetPciAddr (ds ! k))) \<and>
       sd_Attributes sd ''productId'' = Some (GetStringDeviceAttribute (GetProductID (ds ! k))) \<and>
       sd_Attributes sd ''deviceState'' = Some (GetStringDeviceAttribute ''ONLINE'') \<and>
       sd_Attributes sd ''vfEnabled'' =
         Some (GetBoolDeviceAttribute ((\<exists>d \<in> set ds. GetProductID d = ProductIDVf) \<and> \<not> dv)))"
proof -
  obtain m where m: "NewAllocatableDevices w S ord hw topo dv = Some m"
    "dom m = (\<lambda>d. PciAddressToDeviceName (GetPciAddr d)) ` set ds"
    "\<forall>k < length ds. m (PciAddressToDeviceName (GetPciAddr (ds ! k))) =
       Some (new_spyre_device w S topo (expected_tiers topo) (hasVfDevice ds \<and> \<not> dv) (int k) (ds ! k))"
    using NewAllocatableDevices_lookup [OF assms, of dv] by blast
  have "hasVfDevice ds \<longleftrightarrow> (\<exists>d \<in> set ds. GetProductID d = ProductIDVf)"
    by (simp add: hasVfDevice_def list_ex_iff)
  with m show ?thesis
    by (simp add: new_spyre_device_def getAttributes_basic topo_attribute_keys_def attr_simps)
qed

definition sample_hw :: "string \<Rightarrow> ghw_device" where
  "sample_hw a = GeneratePseudoDevice a ProductIDPf 0"

definition pseudo_world :: world where
  "pseudo_world = sample_world\<lparr>environ := [''PSEUDO_DEVICE_MODE'' \<mapsto> ''1'']\<rparr>"

lemma pseudo_world_mode [simp]: "IsPseudoDeviceMode pseudo_world"
  by (simp add: IsPseudoDeviceMode_def Getenv_def pseudo_world_def)

definition sample_ghw :: "ghw_device list" where
  "sample_ghw = [sample_hw ''0000:1a:00.0'', sample_hw ''0000:1c:00.0'']"

lemma sample_convert:
  "convertToSpyrePCIDevices pseudo_world S sample_ghw =
     [Pseudo (NewPseudoPciDevice (sample_hw ''0000:1a:00.0'')), Pseudo (NewPseudoPciDevice (sample_hw ''0000:1c:00.0''))]"
  by (simp add: sample_ghw_def)

lemma sample_proper: "proper_addresses (convertToSpyrePCIDevices pseudo_world S sample_ghw)"
proof -
  have "bdf_address ''0000:1a:00.0''" "bdf_address ''0000:1c:00.0''" by code_simp+
  then show ?thesis
    by (simp add: sample_convert proper_addresses_def NewPseudoPciDevice_def sample_hw_def GeneratePseudoDevice_def)
qed

theorem allocatable_devices_exact_witness:
  "\<exists>m. NewAllocatableDevices pseudo_world (sample_sysfs ''7'') (sample_orders []) sample_ghw None False = Some m \<and>
     dom m = {''0000-1a-00-0'', ''0000-1c-00-0''}"
  using allocatable_devices_exact [OF _ refl sample_proper, of None "sample_orders []" "sample_sysfs ''7''" False]
  by (auto simp: topo_orders_ok_def sample_convert PciAddressToDeviceName_def NewPseudoPciDevice_def sample_hw_def
      GeneratePseudoDevice_def)

text \<open>
  C19. Topology reaches the scheduler: two allocatable devices of the topology file are
  published with the same \<open>tierNGroup\<close> value iff they are connected by the peer edges of
  that tier, whatever order Go ranges over the maps in.
\<close>

theorem published_tiers_connected:
  assumes "topo_orders_ok (Some topo) ord" "[] \<notin> dom (buildAdjacency topo)"
    and "ds = convertToSpyrePCIDevices w S hw" "proper_addresses ds"
    and "i < length ds" "j < length ds" "t \<in> {0, 1, 2}"
    and "GetPciAddr (ds ! i) \<in> dom (buildAdjacency topo)" "GetPciAddr (ds ! j) \<in> dom (buildAdjacency topo)"
    and "k = (if t = 0 then ''tier0Group'' else if t = 1 then ''tier1Group'' else ''tier2Group'')"
  shows "\<exists>m d e. NewAllocatableDevices w S ord hw (Some topo) dv = Some m \<and>
    m (PciAddressToDeviceName (GetPciAddr (ds ! i))) = Some d \<and>
    m (PciAddressToDeviceName (GetPciAddr (ds ! j))) = Some e \<and>
    (sd_Attributes d k = sd_Attributes e k \<longleftrightarrow> (GetPciAddr (ds ! i), GetPciAddr (ds ! j)) \<in> tier_conn topo t)"
proof -
  have fin: "finite (dom (buildAdjacency topo))"
    using assms(1) by (auto simp: topo_orders_ok_def intro: tier_orders_finite)
  obtain m where m: "NewAllocatableDevices w S ord hw (Some topo) dv = Some m"
    "\<forall>k < length ds. m (PciAddressToDeviceName (GetPciAddr (ds ! k))) =
       Some (new_spyre_device w S (Some topo) (expected_tiers (Some topo)) (hasVfDevice ds \<and> \<not> dv) (int k) (ds ! k))"
    using NewAllocatableDevices_lookup [OF assms(1,3,4), of dv] by blast
  note v = getAttributes_tier_value [OF assms(7,1,2), folded assms(10)]
  have "tier_group topo t (GetPciAddr (ds ! i)) = tier_group topo t (GetPciAddr (ds ! j)) \<longleftrightarrow>
      the (tier_group topo t (GetPciAddr (ds ! i))) = the (tier_group topo t (GetPciAddr (ds ! j)))"
    using assms(8,9) by (simp add: tier_group_def)
  with m assms(5,6) v [OF assms(8)] v [OF assms(9)] tier_group_eq_iff [OF fin assms(8,9), of t] show ?thesis
    by (simp add: new_spyre_device_def)
qed

definition sample_pci_topo :: Pcitopo where
  "sample_pci_topo = emptyTopo\<lparr>Devices := Some
     [''0000:1a:00.0'' \<mapsto> numa_device ''a'' [''0000:1c:00.0'' \<mapsto> 4],
      ''0000:1c:00.0'' \<mapsto> numa_device ''c'' [''0000:1a:00.0'' \<mapsto> 4]]\<rparr>"

definition sample_pci_orders :: tier_orders where
  "sample_pci_orders = \<lparr>addr_order = [''0000:1a:00.0'', ''0000:1c:00.0''],
     peer_order = (\<lambda>t a j. if j = 0 then (if a = ''0000:1a:00.0'' then [''0000:1c:00.0''] else [''0000:1a:00.0'']) else []),
     group_order = (\<lambda>t. [''0000:1a:00.0'', ''0000:1c:00.0''])\<rparr>"

lemma buildAdjacency_sample_pci:
  "buildAdjacency sample_pci_topo =
     [''0000:1a:00.0'' \<mapsto> \<lparr>p0 = [''0000:1c:00.0'' \<mapsto> 4], p1 = Map.empty, p2 = Map.empty\<rparr>,
      ''0000:1c:00.0'' \<mapsto> \<lparr>p0 = [''0000:1a:00.0'' \<mapsto> 4], p1 = Map.empty, p2 = Map.empty\<rparr>]"
  by (rule ext) (simp add: buildAdjacency_def sample_pci_topo_def nil_map_def emptyTopo_def numa_device_def
      peersOf_def noPeers_def map_add_def)

lemma sample_pci_orders_ok: "topo_orders_ok (Some sample_pci_topo) sample_pci_orders"
proof -
  have "peer_orders_ok (buildAdjacency sample_pci_topo) t (peer_order sample_pci_orders t)" for t
    by (auto simp: peer_orders_ok_def buildAdjacency_sample_pci sample_pci_orders_def range_order_def
        peersUpToTier_def less_Suc_eq nth_append split: if_splits)
  then show ?thesis
    by (auto simp: topo_orders_ok_def tier_orders_ok_def range_order_def buildAdjacency_sample_pci sample_pci_orders_def)
qed

theorem published_tiers_connected_witness:
  "\<exists>m d e. NewAllocatableDevices pseudo_world (sample_sysfs ''7'') sample_pci_orders sample_ghw (Some sample_pci_topo) False = Some m \<and>
     m ''0000-1a-00-0'' = Some d \<and> m ''0000-1c-00-0'' = Some e \<and>
     (sd_Attributes d ''tier0Group'' = sd_Attributes e ''tier0Group'' \<longleftrightarrow>
      (''0000:1a:00.0'', ''0000:1c:00.0'') \<in> tier_conn sample_pci_topo 0)"
  using published_tiers_connected [OF sample_pci_orders_ok _ refl sample_proper,
      where i = 0 and j = 1 and t = 0 and k = "''tier0Group''" and dv = False]
  by (simp add: sample_convert buildAdjacency_sample_pci PciAddressToDeviceName_def NewPseudoPciDevice_def sample_hw_def
      GeneratePseudoDevice_def)

text \<open>
  A device carries the \<open>managed\<close> attribute, set to true, iff card management is
  enabled and it is a PF, or a VF at function index 1; no topology data can set or clear it.
\<close>

lemma managed_attribute:
  "getAttributes w S i d topo tg vf ''managed'' =
     (if IsCardManagementEnabled w \<and> (GetProductID d = ProductIDPf \<or>
          (GetProductID d = ProductIDVf \<and> GetPCIFunctionIndex (GetPciAddr d) = 1))
      then Some (GetBoolDeviceAttribute True) else None)"
  by (subst getAttributes_basic) (simp_all add: topo_attribute_keys_def addSpyreBasicAttributes_def Let_def)

text \<open>
  No clock attribute comes from metadata that holds JSON values only: \<open>Clocks\<close> is wanted
  as a \<^verbatim>\<open>map[string]string\<close>.
\<close>

lemma clock_never_published:
  assumes "\<And>a dev m. lookupTopoDevice t a = Some dev \<Longrightarrow> td_Metadata dev = Some m \<Longrightarrow> list_all (\<lambda>(k, v). from_json v) m"
  shows "getAttributes w S i d (Some t) tg vf ''clockRPD'' = None \<and> getAttributes w S i d (Some t) tg vf ''clockSOC'' = None"
proof -
  have "Option.bind (obj_get m ''Clocks'') as_strmap = None"
    if "lookupTopoDevice t a = Some dev" "td_Metadata dev = Some m" for a dev m
    using assms [OF that] by (cases "obj_get m ''Clocks''") (auto intro: from_json_not_strmap from_json_get)
  then show ?thesis
    by (auto simp: getAttributes_def addTopologyMetadata_def addDeviceTopoAttributes_def addTopologyMetadataFromMap_def
        attr_simps Let_def split: option.split)
qed

end
