(* ===== verification/GoJson.thy ===== *)
theory GoJson
  imports GoAny
begin

text \<open>
  \<open>encoding/json\<close> as the driver uses it for typed values.  A document is an
  \<^verbatim>\<open>any\<close> (the driver's strings are valid UTF-8); \<open>plain\<close> is the document that a value
  held in memory is written as.  A decoder takes the document and the old value of the variable and
  returns the new value and whether a type error was met: like Go, it does not stop at a type
  error but goes on with the rest.  A \<open>null\<close> clears maps and lists and leaves everything else
  alone; a member goes to the field whose tag it equals up to letter case, in the order of the
  document; other members are ignored.

  The lemmas say, per decoder, which values it can leave (\<^verbatim>\<open>decoder_keeps\<close>) and that it reads
  what was written.
\<close>

type_synonym 'a decoder = "any \<Rightarrow> 'a \<Rightarrow> 'a \<times> bool"

section \<open>Documents of values\<close>

fun plain :: "any \<Rightarrow> any" where
  "plain (AList vs) = AList (map plain vs)"
| "plain (AMap m) = AMap (map (\<lambda>(k, v). (k, plain v)) m)"
| "plain (AStrMap m) = AMap (map (\<lambda>(k, s). (k, AStr s)) m)"
| "plain (AStrs ss) = AList (map AStr ss)"
| "plain v = v"

lemma plain_from_json: "from_json v \<Longrightarrow> plain v = v"
  by (induction v rule: plain.induct) (auto simp: list_all_iff intro!: map_idI)

lemma from_json_plain: "from_json (plain v)"
  by (induction v rule: plain.induct) (auto simp: list_all_iff)

section \<open>Matching of names\<close>

text \<open>
  \<open>foldName\<close>: letters to upper case, and the two other characters whose folding is an ASCII
  letter, the long s and the Kelvin sign, given by their UTF-8 bytes.  Any other character
  folds to something no tag of the driver contains, so it may stay.
\<close>

definition upper :: "char \<Rightarrow> char" where
  "upper c = (if CHR ''a'' \<le> c \<and> c \<le> CHR ''z'' then char_of (of_char c - 32 :: nat) else c)"

fun foldName :: "string \<Rightarrow> string" where
  "foldName [] = []"
| "foldName (c # s) =
     (if c = CHR 0xC5 \<and> take 1 s = [CHR 0xBF] then CHR ''S'' # foldName (drop 1 s)
      else if c = CHR 0xE2 \<and> take 2 s = [CHR 0x84, CHR 0xAA] then CHR ''K'' # foldName (drop 2 s)
      else upper c # foldName s)"

declare foldName.simps [simp del]

section \<open>Decoders\<close>

fun decString :: "string decoder" where
  "decString (AStr s) x = (s, False)"
| "decString ANil x = (x, False)"
| "decString _ x = (x, True)"

fun decBool :: "bool decoder" where
  "decBool (ABool b) x = (b, False)"
| "decBool ANil x = (x, False)"
| "decBool _ x = (x, True)"

fun decInt :: "int decoder" where
  "decInt (ANum s) x = (case Atoi s of Some n \<Rightarrow> (n, False) | None \<Rightarrow> (x, True))"
| "decInt ANil x = (x, False)"
| "decInt _ x = (x, True)"

fun decFloat32 :: "go_floats \<Rightarrow> string decoder" where
  "decFloat32 F (ANum s) x = (case float32_text F s of Some t \<Rightarrow> (t, False) | None \<Rightarrow> (x, True))"
| "decFloat32 F ANil x = (x, False)"
| "decFloat32 F _ x = (x, True)"

text \<open>Decoding into an empty interface, and the members of an untyped map.\<close>

fun decAny :: "go_floats \<Rightarrow> any \<Rightarrow> any \<times> bool"
  and decAnys :: "go_floats \<Rightarrow> any list \<Rightarrow> any list \<times> bool"
  and decMembers :: "go_floats \<Rightarrow> obj \<Rightarrow> obj \<Rightarrow> obj \<times> bool" where
  "decAny F (ANum s) = (case float64_text F s of Some t \<Rightarrow> (ANum t, False) | None \<Rightarrow> (ANil, True))"
| "decAny F (AList vs) = (case decAnys F vs of (ws, e) \<Rightarrow> (AList ws, e))"
| "decAny F (AMap m) = (case decMembers F m [] of (m', e) \<Rightarrow> (AMap m', e))"
| "decAny F (ABool b) = (ABool b, False)"
| "decAny F (AStr s) = (AStr s, False)"
| "decAny F ANil = (ANil, False)"
| "decAny F (AStrMap m) = (AMap (fold (\<lambda>(k, s) acc. obj_set acc k (AStr s)) m []), False)"
| "decAny F (AStrs ss) = (AList (map AStr ss), False)"
| "decAnys F [] = ([], False)"
| "decAnys F (v # vs) = (case decAny F v of (w, e) \<Rightarrow> case decAnys F vs of (ws, e') \<Rightarrow> (w # ws, e \<or> e'))"
| "decMembers F [] acc = (acc, False)"
| "decMembers F ((k, v) # m) acc =
     (case decAny F v of (w, e) \<Rightarrow> case decMembers F m (obj_set acc k w) of (m', e') \<Rightarrow> (m', e \<or> e'))"

fun decObj :: "go_floats \<Rightarrow> obj option decoder" where
  "decObj F (AMap m) x = (case decMembers F m (case x of None \<Rightarrow> [] | Some old \<Rightarrow> old) of (m', e) \<Rightarrow> (Some m', e))"
| "decObj F ANil x = (None, False)"
| "decObj F _ x = (x, True)"

text \<open>
  A slice: an element is decoded into the one the slice has at its place, or into a zero value
  \<open>z\<close>.  (What an earlier, longer slice left behind the end is not kept.)
\<close>

fun decElems :: "'v \<Rightarrow> 'v decoder \<Rightarrow> any list \<Rightarrow> 'v list \<Rightarrow> 'v list \<times> bool" where
  "decElems z d [] old = ([], False)"
| "decElems z d (v # vs) old =
     (case d v (case old of [] \<Rightarrow> z | y # _ \<Rightarrow> y) of (y, e) \<Rightarrow>
      case decElems z d vs (drop 1 old) of (ys, e') \<Rightarrow> (y # ys, e \<or> e'))"

fun decSlice :: "'v \<Rightarrow> 'v decoder \<Rightarrow> 'v list decoder" where
  "decSlice z d (AList vs) x = decElems z d vs x"
| "decSlice z d ANil x = ([], False)"
| "decSlice z d _ x = (x, True)"

text \<open>A \<open>map[string]V\<close>: each member is decoded into a zero value \<open>z\<close> of \<open>V\<close>.\<close>

fun decEntries :: "'v \<Rightarrow> 'v decoder \<Rightarrow> obj \<Rightarrow> (string \<rightharpoonup> 'v) \<times> bool \<Rightarrow> (string \<rightharpoonup> 'v) \<times> bool" where
  "decEntries z d [] s = s"
| "decEntries z d ((k, v) # m) (f, e) = (case d v z of (y, e') \<Rightarrow> decEntries z d m (f(k \<mapsto> y), e \<or> e'))"

fun decMap :: "'v \<Rightarrow> 'v decoder \<Rightarrow> (string \<rightharpoonup> 'v) option decoder" where
  "decMap z d (AMap m) x =
     (case decEntries z d m (case x of None \<Rightarrow> Map.empty | Some f \<Rightarrow> f, False) of (f, e) \<Rightarrow> (Some f, e))"
| "decMap z d ANil x = (None, False)"
| "decMap z d _ x = (x, True)"

text \<open>A struct: its fields by tag; \<open>decField\<close> decodes into one field.\<close>

fun decFields :: "(string \<times> 'a decoder) list \<Rightarrow> obj \<Rightarrow> 'a \<times> bool \<Rightarrow> 'a \<times> bool" where
  "decFields fs [] s = s"
| "decFields fs ((k, v) # m) (x, e) =
     (case find (\<lambda>(t, d). foldName t = foldName k) fs of
        None \<Rightarrow> decFields fs m (x, e)
      | Some (t, d) \<Rightarrow> (case d v x of (y, e') \<Rightarrow> decFields fs m (y, e \<or> e')))"

fun decStruct :: "(string \<times> 'a decoder) list \<Rightarrow> 'a decoder" where
  "decStruct fs (AMap m) x = decFields fs m (x, False)"
| "decStruct fs ANil x = (x, False)"
| "decStruct fs _ x = (x, True)"

definition decField :: "('a \<Rightarrow> 'f) \<Rightarrow> ('f \<Rightarrow> 'a \<Rightarrow> 'a) \<Rightarrow> 'f decoder \<Rightarrow> 'a decoder" where
  "decField get put d v x = (case d v (get x) of (y, e) \<Rightarrow> (put y x, e))"

section \<open>Values a decoder can leave\<close>

definition decoder_keeps :: "('a \<Rightarrow> bool) \<Rightarrow> 'a decoder \<Rightarrow> bool" where
  "decoder_keeps P d \<longleftrightarrow> (\<forall>v x. P x \<longrightarrow> P (fst (d v x)))"

lemma decoder_keepsD: "decoder_keeps P d \<Longrightarrow> P x \<Longrightarrow> d v x = (y, e) \<Longrightarrow> P y"
  by (metis decoder_keeps_def fst_conv)

definition int64 :: "int \<Rightarrow> bool" where
  "int64 i \<longleftrightarrow> - (2 ^ 63) \<le> i \<and> i < 2 ^ 63"

lemma Atoi_int64: "Atoi s = Some n \<Longrightarrow> int64 n"
  by (auto simp: Atoi_def ParseInt_def int64_def Let_def split: option.splits if_splits)

lemma keeps_int: "decoder_keeps int64 decInt"
  unfolding decoder_keeps_def
proof (intro allI impI)
  fix v x assume "int64 x"
  then show "int64 (fst (decInt v x))" by (cases v) (auto dest: Atoi_int64 split: option.split)
qed

lemma keeps_field:
  assumes "decoder_keeps Q d" "\<And>x. P x \<Longrightarrow> Q (get x)" "\<And>x y. P x \<Longrightarrow> Q y \<Longrightarrow> P (put y x)"
  shows "decoder_keeps P (decField get put d)"
  using assms by (auto simp: decoder_keeps_def decField_def split: prod.split) (metis fst_conv)

lemma decFields_keeps:
  assumes "\<And>t d. (t, d) \<in> set fs \<Longrightarrow> decoder_keeps P d"
  shows "P x \<Longrightarrow> P (fst (decFields fs m (x, e)))"
proof (induction m arbitrary: x e)
  case (Cons kv m)
  obtain k v where kv: "kv = (k, v)" by fastforce
  show ?case
  proof (cases "find (\<lambda>(t, d). foldName t = foldName k) fs")
    case None
    then show ?thesis using Cons by (simp add: kv)
  next
    case (Some td)
    obtain t d where td: "td = (t, d)" by fastforce
    obtain y e1 where y: "d v x = (y, e1)" by fastforce
    have td_in: "(t, d) \<in> set fs" using Some unfolding td find_Some_iff by (metis nth_mem)
    have "P y" by (rule decoder_keepsD [OF assms [OF td_in] Cons.prems y])
    then show ?thesis using Cons.IH [of y "e \<or> e1"] Some by (simp add: kv td y)
  qed
qed simp

lemma keeps_struct:
  assumes "\<And>t d. (t, d) \<in> set fs \<Longrightarrow> decoder_keeps P d"
  shows "decoder_keeps P (decStruct fs)"
  unfolding decoder_keeps_def
proof (intro allI impI)
  fix v x assume "P x"
  then show "P (fst (decStruct fs v x))" using decFields_keeps [OF assms] by (cases v) simp_all
qed

text \<open>A Go map with finitely many keys and values in \<open>P\<close>.\<close>

definition go_map :: "('v \<Rightarrow> bool) \<Rightarrow> (string \<rightharpoonup> 'v) \<Rightarrow> bool" where
  "go_map P f \<longleftrightarrow> finite (dom f) \<and> (\<forall>k v. f k = Some v \<longrightarrow> P v)"

definition go_map_opt :: "('v \<Rightarrow> bool) \<Rightarrow> (string \<rightharpoonup> 'v) option \<Rightarrow> bool" where
  "go_map_opt P x \<longleftrightarrow> (case x of None \<Rightarrow> True | Some f \<Rightarrow> go_map P f)"

lemma go_map_simps [simp]:
  "go_map P Map.empty" "go_map P f \<Longrightarrow> P y \<Longrightarrow> go_map P (f(k \<mapsto> y))"
  "go_map_opt P None" "go_map_opt P (Some f) = go_map P f"
  by (auto simp: go_map_def go_map_opt_def)

lemma decEntries_keeps:
  assumes "decoder_keeps P d" "P z"
  shows "go_map P f \<Longrightarrow> go_map P (fst (decEntries z d m (f, e)))"
proof (induction m arbitrary: f e)
  case (Cons kv m)
  obtain k v where kv: "kv = (k, v)" by fastforce
  obtain y e1 where y: "d v z = (y, e1)" by fastforce
  have "P y" by (rule decoder_keepsD [OF assms y])
  then have "go_map P (f(k \<mapsto> y))" using Cons.prems by (rule go_map_simps(2) [rotated])
  from Cons.IH [OF this, of "e \<or> e1"] show ?case by (simp only: kv y decEntries.simps prod.case)
qed simp

lemma keeps_map:
  assumes "decoder_keeps P d" "P z"
  shows "decoder_keeps (go_map_opt P) (decMap z d)"
  unfolding decoder_keeps_def
proof (intro allI impI)
  fix v x assume x: "go_map_opt P x"
  then have "go_map P (case x of None \<Rightarrow> Map.empty | Some f \<Rightarrow> f)" by (cases x) simp_all
  then have "go_map P (fst (decEntries z d m (case x of None \<Rightarrow> Map.empty | Some f \<Rightarrow> f, False)))" for m
    by (rule decEntries_keeps [OF assms])
  then show "go_map_opt P (fst (decMap z d v x))" using x by (cases v) (simp_all add: case_prod_beta)
qed

text \<open>An untyped value as it is after decoding: numbers as Go prints them, keys distinct.\<close>

fun any_ok :: "go_floats \<Rightarrow> any \<Rightarrow> bool" where
  "any_ok F (ANum s) = (float64_text F s = Some s)"
| "any_ok F (AList vs) = list_all (any_ok F) vs"
| "any_ok F (AMap m) = (distinct (map fst m) \<and> list_all (\<lambda>(k, v). any_ok F v) m)"
| "any_ok F (AStrMap m) = False"
| "any_ok F (AStrs ss) = False"
| "any_ok F _ = True"

definition obj_ok :: "go_floats \<Rightarrow> obj \<Rightarrow> bool" where
  "obj_ok F m \<longleftrightarrow> any_ok F (AMap m)"

lemma any_ok_from_json: "any_ok F v \<Longrightarrow> from_json v"
  by (induction F v rule: any_ok.induct) (auto simp: list_all_iff)

lemma obj_set_fst: "fst ` set (obj_set m k v) = insert k (fst ` set m)"
  by (induction m k v rule: obj_set.induct) auto

lemma obj_ok_set: "obj_ok F m \<Longrightarrow> any_ok F v \<Longrightarrow> obj_ok F (obj_set m k v)"
  unfolding obj_ok_def
  by (induction m k v rule: obj_set.induct) (auto simp: obj_set_fst)

lemma strmap_ok: "obj_ok F acc \<Longrightarrow> obj_ok F (fold (\<lambda>(k, s) acc. obj_set acc k (AStr s)) m acc)"
  by (induction m arbitrary: acc) (auto simp: obj_ok_set)

lemma decAny_ok:
  assumes "floats_ok F"
  shows "any_ok F (fst (decAny F v))" and "list_all (any_ok F) (fst (decAnys F vs))"
    and "obj_ok F acc \<Longrightarrow> obj_ok F (fst (decMembers F m acc))"
  using assms
proof (induction F v and F vs and F m acc rule: decAny_decAnys_decMembers.induct)
  case (1 F s)
  then show ?case by (auto simp: floats_ok_def split: option.split)
next
  case (7 F m)
  then show ?case using strmap_ok [of F "[]" m] by (simp add: obj_ok_def)
next
  case (12 F k v m acc)
  then show ?case by (auto simp: obj_ok_set split: prod.splits)
qed (auto simp: obj_ok_def list_all_iff split: prod.splits)

lemma keeps_obj:
  assumes "floats_ok F"
  shows "decoder_keeps (\<lambda>x. \<forall>m. x = Some m \<longrightarrow> obj_ok F m) (decObj F)"
  unfolding decoder_keeps_def
proof (intro allI impI)
  fix v x m assume x: "\<forall>m. x = Some m \<longrightarrow> obj_ok F m" and r: "fst (decObj F v x) = Some m"
  have "obj_ok F (case x of None \<Rightarrow> [] | Some old \<Rightarrow> old)" using x by (simp add: obj_ok_def split: option.split)
  then have "obj_ok F (fst (decMembers F ms (case x of None \<Rightarrow> [] | Some old \<Rightarrow> old)))" for ms
    by (rule decAny_ok(3) [OF assms])
  then show "obj_ok F m" using x r by (cases v) (auto simp: case_prod_beta)
qed

lemma keeps_True: "decoder_keeps (\<lambda>x. True) d"
  by (simp add: decoder_keeps_def)

section \<open>Reading what was written\<close>

lemma decFields_append: "decFields fs (a @ b) s = decFields fs b (decFields fs a s)"
  by (induction fs a s rule: decFields.induct) (auto split: option.split prod.split)

text \<open>A member with the option \<open>omitempty\<close>.\<close>

definition omit :: "bool \<Rightarrow> string \<Rightarrow> any \<Rightarrow> obj" where
  "omit zero k v = (if zero then [] else [(k, v)])"

lemma decFields_omit:
  "decFields fs (omit zero k v) (x, e) = (if zero then (x, e) else
     case find (\<lambda>(t, d). foldName t = foldName k) fs of
       None \<Rightarrow> (x, e)
     | Some (t, d) \<Rightarrow> (fst (d v x), e \<or> snd (d v x)))"
  by (auto simp: omit_def split: option.split prod.split)

lemma decEntries_written:
  "decEntries z d (map (\<lambda>k. (k, en k)) ks) (f, e) =
     (\<lambda>k. if k \<in> set ks then Some (fst (d (en k) z)) else f k, e \<or> (\<exists>k \<in> set ks. snd (d (en k) z)))"
  by (induction ks arbitrary: f e) (auto simp: fun_eq_iff split: prod.splits)

lemma decEntries_append: "decEntries z d (a @ b) s = decEntries z d b (decEntries z d a s)"
  by (induction z d a s rule: decEntries.induct) (auto split: prod.split)

text \<open>The members of a Go map, in the order of its keys.\<close>

definition sorted_keys :: "(string \<rightharpoonup> 'v) \<Rightarrow> string list" where
  [code del]: "sorted_keys f = sorted_list_of_set (dom f)"

lemma sorted_keys_Nil: "go_map P f \<Longrightarrow> sorted_keys f = [] \<longleftrightarrow> f = Map.empty"
  by (simp add: sorted_keys_def go_map_def)

definition encMap :: "('v \<Rightarrow> any) \<Rightarrow> (string \<rightharpoonup> 'v) \<Rightarrow> any" where
  "encMap en f = AMap (map (\<lambda>k. (k, en (the (f k)))) (sorted_keys f))"

lemma decMap_written:
  assumes "go_map P f" "\<And>v. P v \<Longrightarrow> d (en v) z = (c v, False)"
  shows "decMap z d (encMap en f) None = (Some (map_option c \<circ> f), False)"
    and "decMap z d (encMap en f) (Some Map.empty) = (Some (map_option c \<circ> f), False)"
proof -
  have k: "set (sorted_keys f) = dom f" using assms(1) by (simp add: sorted_keys_def go_map_def)
  have "d (en (the (f k))) z = (c (the (f k)), False)" if "k \<in> dom f" for k
    using assms that by (auto simp: go_map_def)
  then show "decMap z d (encMap en f) None = (Some (map_option c \<circ> f), False)"
    and "decMap z d (encMap en f) (Some Map.empty) = (Some (map_option c \<circ> f), False)"
    by (auto simp: encMap_def decEntries_written k fun_eq_iff)
qed

lemma decAny_written:
  shows "any_ok F v \<Longrightarrow> decAny F v = (v, False)"
    and "list_all (any_ok F) vs \<Longrightarrow> decAnys F vs = (vs, False)"
    and "list_all (\<lambda>(k, v). any_ok F v) m \<Longrightarrow> distinct (map fst (acc @ m)) \<Longrightarrow> decMembers F m acc = (acc @ m, False)"
proof (induction F v and F vs and F m acc rule: decAny_decAnys_decMembers.induct)
  case (10 F v vs)
  then have "decAny F v = (v, False)" "decAnys F vs = (vs, False)" by force+
  then show ?case by simp
next
  case (12 F k v m acc)
  have "k \<notin> fst ` set acc \<Longrightarrow> obj_set acc k w = acc @ [(k, w)]" for acc :: obj and w
    by (induction acc k w rule: obj_set.induct) auto
  with 12 show ?case by auto
qed auto

section \<open>Documents a decoder accepts\<close>

text \<open>Whether there is a type error does not depend on the old value.\<close>

definition steady :: "'a decoder \<Rightarrow> bool" where
  "steady d \<longleftrightarrow> (\<forall>v x y. snd (d v x) = snd (d v y))"

lemma steady_basic: "steady decString" "steady decBool"
proof -
  have "snd (decString v x) = snd (decString v y)" "snd (decBool v b) = snd (decBool v c)" for v x y b c
    by (cases v; simp)+
  then show "steady decString" "steady decBool" by (simp_all add: steady_def)
qed

lemma steady_obj: "steady (decObj F)"
  unfolding steady_def
proof (intro allI)
  have "snd (decMembers F m a) = snd (decMembers F m b)" for m a b
  proof (induction m arbitrary: a b)
    case (Cons kv m)
    obtain k v where kv: "kv = (k, v)" by fastforce
    show ?case using Cons.IH [of "obj_set a k (fst (decAny F v))" "obj_set b k (fst (decAny F v))"]
      by (simp add: kv case_prod_beta)
  qed simp
  then show "snd (decObj F v x) = snd (decObj F v y)" for v x y by (cases v) (simp_all add: case_prod_beta)
qed

lemma steady_slice:
  assumes "steady d"
  shows "steady (decSlice z d)"
  unfolding steady_def
proof (intro allI)
  have "snd (decElems z d vs a) = snd (decElems z d vs b)" for vs a b
  proof (induction vs arbitrary: a b)
    case (Cons v vs)
    then show ?case using assms [unfolded steady_def] by (simp add: case_prod_beta) metis
  qed simp
  then show "snd (decSlice z d v x) = snd (decSlice z d v y)" for v x y by (cases v) simp_all
qed

lemma snd_decField: "snd (decField get put d v x) = snd (d v (get x))"
  by (simp add: decField_def case_prod_beta)

lemma steady_field: "steady d \<Longrightarrow> steady (decField get put d)"
  by (simp add: steady_def snd_decField)

definition steady_fields :: "(string \<times> 'a decoder) list \<Rightarrow> bool" where
  "steady_fields fs \<longleftrightarrow> (\<forall>(t, d) \<in> set fs. steady d)"

text \<open>A member of a struct, and a whole struct, are accepted.\<close>

definition accepts :: "'a decoder \<Rightarrow> any \<Rightarrow> bool" where
  "accepts d v \<longleftrightarrow> (\<forall>x. \<not> snd (d (plain v) x))"

definition member_ok :: "(string \<times> 'a decoder) list \<Rightarrow> string \<Rightarrow> any \<Rightarrow> bool" where
  "member_ok fs k v \<longleftrightarrow> (case find (\<lambda>(t, d). foldName t = foldName k) fs of None \<Rightarrow> True | Some (t, d) \<Rightarrow> accepts d v)"

definition members_ok :: "(string \<times> 'a decoder) list \<Rightarrow> obj \<Rightarrow> bool" where
  "members_ok fs m \<longleftrightarrow> (\<forall>(k, v) \<in> set m. member_ok fs k v)"

abbreviation plain_members :: "obj \<Rightarrow> obj" where
  "plain_members m \<equiv> map (\<lambda>(k, v). (k, plain v)) m"

lemma decFields_error:
  assumes "steady_fields fs"
  shows "snd (decFields fs (plain_members m) (x, e)) \<longleftrightarrow> e \<or> \<not> members_ok fs m"
proof (induction m arbitrary: x e)
  case Nil
  then show ?case by (simp add: members_ok_def)
next
  case (Cons kv m)
  obtain k v where kv: "kv = (k, v)" by fastforce
  show ?case
  proof (cases "find (\<lambda>(t, d). foldName t = foldName k) fs")
    case None
    then show ?thesis using Cons.IH by (simp add: kv members_ok_def member_ok_def)
  next
    case (Some td)
    obtain t d where td: "td = (t, d)" by fastforce
    have "(t, d) \<in> set fs" using Some unfolding td find_Some_iff by (metis nth_mem)
    then have "steady d" using assms by (auto simp: steady_fields_def)
    then have "snd (d (plain v) y) = snd (d (plain v) x)" for y by (simp add: steady_def)
    then have "accepts d v \<longleftrightarrow> \<not> snd (d (plain v) x)" unfolding accepts_def by blast
    then show ?thesis
      using Cons.IH Some by (auto simp: kv td members_ok_def member_ok_def case_prod_beta)
  qed
qed

lemma steady_struct:
  assumes "steady_fields fs"
  shows "steady (decStruct fs)"
  unfolding steady_def
proof (intro allI)
  have "snd (decFields fs m (x, e)) = snd (decFields fs m (y, e))" for m x y e
  proof (induction m arbitrary: x y e)
    case (Cons kv m)
    obtain k v where kv: "kv = (k, v)" by fastforce
    show ?case
    proof (cases "find (\<lambda>(t, d). foldName t = foldName k) fs")
      case (Some td)
      obtain t d where td: "td = (t, d)" by fastforce
      have "(t, d) \<in> set fs" using Some unfolding td find_Some_iff by (metis nth_mem)
      then have "snd (d v x) = snd (d v y)" using assms unfolding steady_fields_def steady_def by blast
      then show ?thesis using Cons.IH Some by (simp add: kv td case_prod_beta)
    qed (simp add: kv Cons.IH)
  qed simp
  then show "snd (decStruct fs v x) = snd (decStruct fs v y)" for v x y by (cases v) simp_all
qed

lemma accepts_struct:
  "steady_fields fs \<Longrightarrow> accepts (decField get put (decStruct fs)) (AMap m) \<longleftrightarrow> members_ok fs m"
  by (simp add: accepts_def snd_decField decFields_error)

lemma members_ok_set: "members_ok fs m \<Longrightarrow> member_ok fs k v \<Longrightarrow> members_ok fs (obj_set m k v)"
  by (induction m k v rule: obj_set.induct) (auto simp: members_ok_def)

lemma members_ok_get: "members_ok fs m \<Longrightarrow> obj_get m k = Some v \<Longrightarrow> member_ok fs k v"
  unfolding members_ok_def obj_get_def by (auto dest: map_of_SomeD)

section \<open>Reading one field\<close>

text \<open>No two members of the object go to the field, and none goes there under another name.\<close>

definition one_spelling :: "string \<Rightarrow> obj \<Rightarrow> bool" where
  "one_spelling t m \<longleftrightarrow> distinct (map fst m) \<and> (\<forall>k \<in> fst ` set m. foldName k = foldName t \<longrightarrow> k = t)"

lemma distinct_obj_set: "distinct (map fst m) \<Longrightarrow> distinct (map fst (obj_set m k v))"
  by (induction m k v rule: obj_set.induct) (auto simp: obj_set_fst)

lemma one_spelling_set: "one_spelling t m \<Longrightarrow> k = t \<or> foldName k \<noteq> foldName t \<Longrightarrow> one_spelling t (obj_set m k v)"
  by (auto simp: one_spelling_def distinct_obj_set obj_set_fst)

definition other_fields_keep :: "(string \<times> 'a decoder) list \<Rightarrow> string \<Rightarrow> ('a \<Rightarrow> 'f) \<Rightarrow> bool" where
  "other_fields_keep fs t get \<longleftrightarrow> (\<forall>(t', d) \<in> set fs. foldName t' \<noteq> foldName t \<longrightarrow> (\<forall>v x. get (fst (d v x)) = get x))"

lemma decFields_other:
  assumes "other_fields_keep fs t get" "\<forall>(k, v) \<in> set m. foldName k \<noteq> foldName t"
  shows "get (fst (decFields fs m (x, e))) = get x"
  using assms(2)
proof (induction m arbitrary: x e)
  case (Cons kv m)
  obtain k v where kv: "kv = (k, v)" by fastforce
  show ?case
  proof (cases "find (\<lambda>(t, d). foldName t = foldName k) fs")
    case None
    then show ?thesis using Cons by (simp add: kv)
  next
    case (Some td)
    obtain t' d where td: "td = (t', d)" by fastforce
    have "(t', d) \<in> set fs" "foldName t' = foldName k"
      using Some unfolding td find_Some_iff by (metis nth_mem, auto)
    then have "get (fst (d v x)) = get x" using assms(1) Cons.prems unfolding other_fields_keep_def kv by fastforce
    moreover have "\<forall>(k, v) \<in> set m. foldName k \<noteq> foldName t" using Cons.prems by simp
    ultimately show ?thesis using Cons.IH Some by (simp add: kv td case_prod_beta)
  qed
qed simp

lemma decFields_get:
  assumes f: "find (\<lambda>(t', d). foldName t' = foldName t) fs = Some (t, d)"
    and k: "other_fields_keep fs t get" and m: "one_spelling t m" "obj_get m t = Some v"
  shows "\<exists>y. get y = get x \<and> get (fst (decFields fs (plain_members m) (x, e))) = get (fst (d (plain v) y))"
proof -
  obtain a b where ab: "m = a @ (t, v) # b" using m(2) by (metis obj_get_def map_of_SomeD split_list)
  then have u: "\<forall>k \<in> fst ` set a \<union> fst ` set b. foldName k \<noteq> foldName t"
    using m(1) unfolding one_spelling_def by auto
  have o: "\<forall>(k, v) \<in> set (plain_members a). foldName k \<noteq> foldName t" "\<forall>(k, v) \<in> set (plain_members b). foldName k \<noteq> foldName t"
    using u by (auto simp: ball_Un)
  obtain y e1 where y: "decFields fs (plain_members a) (x, e) = (y, e1)" by fastforce
  have "get y = get x" using decFields_other [OF k o(1), of x e] y by simp
  moreover have "get (fst (decFields fs (plain_members m) (x, e))) = get (fst (d (plain v) y))"
    using decFields_other [OF k o(2)] by (simp add: ab decFields_append y f case_prod_beta)
  ultimately show ?thesis by blast
qed

end
