(* ===== verification/TopoJson.thy ===== *)
theory TopoJson
  imports GoJson FS Topology
begin

text \<open>
  The JSON side of \<^verbatim>\<open>pkg/topology/types/pcitopo/pcitopo.go\<close>: the tags of the structs
  as decoders and an encoder, \<open>UnmarshalPciTopo\<close> and \<open>String\<close>.
  The lemmas: what \<open>UnmarshalPciTopo\<close> can return, also next to an error
  (\<^verbatim>\<open>topo_ok\<close>), and that such a topology is read back as it was written, up to
  nil and empty maps (\<^verbatim>\<open>written_topo\<close>).
\<close>

section \<open>Decoding\<close>

definition decPeerMap :: "(string \<rightharpoonup> int) option decoder" where
  "decPeerMap = decMap 0 decInt"

definition decPeers :: "Peers decoder" where
  "decPeers = decStruct
     [(''peers_0'', decField (\<lambda>p. Some (Peer0 p)) (\<lambda>m p. p\<lparr>Peer0 := nil_map m\<rparr>) decPeerMap),
      (''peers_1'', decField (\<lambda>p. Some (Peer1 p)) (\<lambda>m p. p\<lparr>Peer1 := nil_map m\<rparr>) decPeerMap),
      (''peers_2'', decField (\<lambda>p. Some (Peer2 p)) (\<lambda>m p. p\<lparr>Peer2 := nil_map m\<rparr>) decPeerMap)]"

definition zeroDevice :: TopoDevice where
  "zeroDevice = \<lparr>td_Name = [], td_NumaNode = 0, td_Linkspeed = [], td_Peers = noPeers, td_SpyreVfPeers = noPeers,
     td_DeviceId = [], td_IsPf = False, td_Metadata = None\<rparr>"

definition decDevice :: "go_floats \<Rightarrow> TopoDevice decoder" where
  "decDevice F = decStruct
     [(''name'', decField td_Name (\<lambda>y d. d\<lparr>td_Name := y\<rparr>) decString),
      (''numanode'', decField td_NumaNode (\<lambda>y d. d\<lparr>td_NumaNode := y\<rparr>) decInt),
      (''linkspeed'', decField td_Linkspeed (\<lambda>y d. d\<lparr>td_Linkspeed := y\<rparr>) decString),
      (''peers'', decField td_Peers (\<lambda>y d. d\<lparr>td_Peers := y\<rparr>) decPeers),
      (''spyre_vf_peers'', decField td_SpyreVfPeers (\<lambda>y d. d\<lparr>td_SpyreVfPeers := y\<rparr>) decPeers),
      (''device_id'', decField td_DeviceId (\<lambda>y d. d\<lparr>td_DeviceId := y\<rparr>) decString),
      (''is_pf'', decField td_IsPf (\<lambda>y d. d\<lparr>td_IsPf := y\<rparr>) decBool),
      (''metadata'', decField td_Metadata (\<lambda>y d. d\<lparr>td_Metadata := y\<rparr>) (decObj F))]"

definition topo_fields :: "go_floats \<Rightarrow> (string \<times> Pcitopo decoder) list" where
  "topo_fields F =
     [(''timestamp'', decField Timestamp (\<lambda>y t. t\<lparr>Timestamp := y\<rparr>) decString),
      (''version'', decField Version (\<lambda>y t. t\<lparr>Version := y\<rparr>) (decFloat32 F)),
      (''server'', decField Server (\<lambda>y t. t\<lparr>Server := y\<rparr>) decString),
      (''num_devices'', decField NumDevices (\<lambda>y t. t\<lparr>NumDevices := y\<rparr>) decInt),
      (''devices'', decField Devices (\<lambda>y t. t\<lparr>Devices := y\<rparr>) (decMap zeroDevice (decDevice F))),
      (''spyre_vf_num_devices'', decField SpyreVfNumDevices (\<lambda>y t. t\<lparr>SpyreVfNumDevices := y\<rparr>) decInt),
      (''spyre_vf_devices'', decField SpyreVfDevices (\<lambda>y t. t\<lparr>SpyreVfDevices := y\<rparr>) (decMap zeroDevice (decDevice F)))]"

definition decPcitopo :: "go_floats \<Rightarrow> Pcitopo decoder" where
  "decPcitopo F = decStruct (topo_fields F)"

text \<open>
  The value decoded so far comes with the error: all of the document but the parts of the wrong
  type, or the zero value when the file is not JSON.
\<close>

definition UnmarshalPciTopo :: "go_floats \<Rightarrow> content \<Rightarrow> Pcitopo \<times> err option" where
  "UnmarshalPciTopo F c =
     (case c of
        Doc v \<Rightarrow> (case decPcitopo F (plain v) emptyTopo of
                     (t, bad) \<Rightarrow> (t, if bad then Some (wrap ''failed to unmarshal pcitopo data'' (Msg ''json type'')) else None))
      | _ \<Rightarrow> (emptyTopo, Some (wrap ''failed to unmarshal pcitopo data'' (Msg ''json syntax''))))"

section \<open>Encoding\<close>

definition encInt :: "int \<Rightarrow> any" where "encInt n = ANum (Itoa n)"

definition encPeers :: "Peers \<Rightarrow> any" where
  "encPeers p = AMap
     (omit (sorted_keys (Peer0 p) = []) ''peers_0'' (encMap encInt (Peer0 p)) @
      omit (sorted_keys (Peer1 p) = []) ''peers_1'' (encMap encInt (Peer1 p)) @
      omit (sorted_keys (Peer2 p) = []) ''peers_2'' (encMap encInt (Peer2 p)))"

text \<open>\<open>omitempty\<close> never leaves out a struct: \<open>peers\<close> and \<open>spyre_vf_peers\<close> are always written.\<close>

definition encDevice :: "TopoDevice \<Rightarrow> any" where
  "encDevice d = AMap
     (omit (td_Name d = []) ''name'' (AStr (td_Name d)) @
      omit (td_NumaNode d = 0) ''numanode'' (encInt (td_NumaNode d)) @
      omit (td_Linkspeed d = []) ''linkspeed'' (AStr (td_Linkspeed d)) @
      [(''peers'', encPeers (td_Peers d)), (''spyre_vf_peers'', encPeers (td_SpyreVfPeers d))] @
      omit (td_DeviceId d = []) ''device_id'' (AStr (td_DeviceId d)) @
      omit (\<not> td_IsPf d) ''is_pf'' (ABool (td_IsPf d)) @
      (case td_Metadata d of None \<Rightarrow> [] | Some m \<Rightarrow> omit (m = []) ''metadata'' (AMap m)))"

definition encDevices :: "string \<Rightarrow> (string \<rightharpoonup> TopoDevice) option \<Rightarrow> obj" where
  "encDevices k ds = (case ds of None \<Rightarrow> [] | Some f \<Rightarrow> omit (sorted_keys f = []) k (encMap encDevice f))"

definition zero_text :: "string \<Rightarrow> bool" where
  "zero_text s \<longleftrightarrow> s = ''0'' \<or> s = ''-0''"

definition encPcitopo :: "Pcitopo \<Rightarrow> any" where
  "encPcitopo t = AMap
     (omit (Timestamp t = []) ''timestamp'' (AStr (Timestamp t)) @
      omit (zero_text (Version t)) ''version'' (ANum (Version t)) @
      omit (Server t = []) ''server'' (AStr (Server t)) @
      omit (NumDevices t = 0) ''num_devices'' (encInt (NumDevices t)) @
      encDevices ''devices'' (Devices t) @
      omit (SpyreVfNumDevices t = 0) ''spyre_vf_num_devices'' (encInt (SpyreVfNumDevices t)) @
      encDevices ''spyre_vf_devices'' (SpyreVfDevices t))"

text \<open>
  \<open>json.Marshal\<close> and \<open>json.MarshalIndent\<close> of a topology: a document with the same
  value, and no error, as no value of these types is one that JSON cannot write.
\<close>

definition Marshal :: "Pcitopo \<Rightarrow> err + content" where
  "Marshal t = Inr (Doc (encPcitopo t))"

definition topo_String :: "Pcitopo \<Rightarrow> content" where
  "topo_String t = (case Marshal t of Inl e \<Rightarrow> Raw [] | Inr c \<Rightarrow> c)"

section \<open>What the decoder can return\<close>

definition peers_ok :: "Peers \<Rightarrow> bool" where
  "peers_ok p \<longleftrightarrow> go_map int64 (Peer0 p) \<and> go_map int64 (Peer1 p) \<and> go_map int64 (Peer2 p)"

definition device_ok :: "go_floats \<Rightarrow> TopoDevice \<Rightarrow> bool" where
  "device_ok F d \<longleftrightarrow> int64 (td_NumaNode d) \<and> peers_ok (td_Peers d) \<and> peers_ok (td_SpyreVfPeers d) \<and>
     (\<forall>m. td_Metadata d = Some m \<longrightarrow> obj_ok F m)"

definition topo_ok :: "go_floats \<Rightarrow> Pcitopo \<Rightarrow> bool" where
  "topo_ok F t \<longleftrightarrow> (Version t = ''0'' \<or> float32_text F (Version t) = Some (Version t)) \<and>
     int64 (NumDevices t) \<and> int64 (SpyreVfNumDevices t) \<and>
     go_map_opt (device_ok F) (Devices t) \<and> go_map_opt (device_ok F) (SpyreVfDevices t)"

lemma go_map_nil [simp]: "go_map P (nil_map m) = go_map_opt P m"
  by (simp add: go_map_opt_def nil_map_def split: option.split)

lemma keeps_peers: "decoder_keeps peers_ok decPeers"
proof -
  have m: "decoder_keeps (go_map_opt int64) decPeerMap"
    unfolding decPeerMap_def by (rule keeps_map [OF keeps_int]) (simp add: int64_def)
  show ?thesis
    unfolding decPeers_def by (rule keeps_struct) (auto simp: peers_ok_def intro!: keeps_field [OF m])
qed

lemma keeps_device:
  assumes "floats_ok F"
  shows "decoder_keeps (device_ok F) (decDevice F)"
  unfolding decDevice_def
  by (rule keeps_struct)
    (auto simp: device_ok_def intro!: keeps_field [OF keeps_True] keeps_field [OF keeps_int] keeps_field [OF keeps_peers]
      keeps_field [OF keeps_obj [OF assms]])

lemma zeroDevice_ok: "device_ok F zeroDevice"
  by (simp add: device_ok_def zeroDevice_def peers_ok_def noPeers_def int64_def)

lemma keeps_topo:
  assumes "floats_ok F"
  shows "decoder_keeps (topo_ok F) (decPcitopo F)"
proof -
  have f: "decoder_keeps (\<lambda>s. s = ''0'' \<or> float32_text F s = Some s) (decFloat32 F)"
    unfolding decoder_keeps_def
  proof (intro allI impI)
    fix v x assume "x = ''0'' \<or> float32_text F x = Some x"
    then show "fst (decFloat32 F v x) = ''0'' \<or> float32_text F (fst (decFloat32 F v x)) = Some (fst (decFloat32 F v x))"
      using assms by (cases v) (auto simp: floats_ok_def split: option.split)
  qed
  note m = keeps_map [OF keeps_device [OF assms] zeroDevice_ok]
  show ?thesis
    unfolding decPcitopo_def topo_fields_def
    by (rule keeps_struct)
      (auto simp: topo_ok_def intro: keeps_field [OF keeps_True] keeps_field [OF keeps_int] keeps_field [OF f] keeps_field [OF m])
qed

lemma emptyTopo_ok: "topo_ok F emptyTopo"
  by (simp add: topo_ok_def emptyTopo_def int64_def)

lemma UnmarshalPciTopo_ok:
  assumes "floats_ok F" "UnmarshalPciTopo F c = (t, e)"
  shows "topo_ok F t"
proof -
  have "topo_ok F (fst (decPcitopo F v emptyTopo))" for v
    using keeps_topo [OF assms(1)] emptyTopo_ok by (auto simp: decoder_keeps_def)
  then show ?thesis using assms(2) emptyTopo_ok by (auto simp: UnmarshalPciTopo_def case_prod_beta split: content.splits)
qed

section \<open>Reading what was written\<close>

lemma fold_tags [simp]:
  "foldName ''peers_0'' = ''PEERS_0''"
  "foldName ''peers_1'' = ''PEERS_1''"
  "foldName ''peers_2'' = ''PEERS_2''"
  "foldName ''name'' = ''NAME''"
  "foldName ''numanode'' = ''NUMANODE''"
  "foldName ''linkspeed'' = ''LINKSPEED''"
  "foldName ''peers'' = ''PEERS''"
  "foldName ''spyre_vf_peers'' = ''SPYRE_VF_PEERS''"
  "foldName ''device_id'' = ''DEVICE_ID''"
  "foldName ''is_pf'' = ''IS_PF''"
  "foldName ''metadata'' = ''METADATA''"
  "foldName ''timestamp'' = ''TIMESTAMP''"
  "foldName ''version'' = ''VERSION''"
  "foldName ''server'' = ''SERVER''"
  "foldName ''num_devices'' = ''NUM_DEVICES''"
  "foldName ''devices'' = ''DEVICES''"
  "foldName ''spyre_vf_num_devices'' = ''SPYRE_VF_NUM_DEVICES''"
  "foldName ''spyre_vf_devices'' = ''SPYRE_VF_DEVICES''"
  by code_simp+

lemma decInt_written [simp]: "int64 n \<Longrightarrow> decInt (encInt n) x = (n, False)"
  using Atoi_Itoa [of n] by (simp add: encInt_def int64_def)

lemma decPeerMap_written:
  "go_map int64 m \<Longrightarrow> decPeerMap (encMap encInt m) (Some Map.empty) = (Some m, False)"
  using decMap_written(2) [of int64 m decInt encInt 0 "\<lambda>n. n"] by (simp add: decPeerMap_def option.map_ident comp_def)

lemma decPeers_written: "peers_ok p \<Longrightarrow> decPeers (encPeers p) noPeers = (p, False)"
  by (cases p) (simp add: decPeers_def encPeers_def decFields_append decFields_omit decField_def peers_ok_def
      decPeerMap_written noPeers_def nil_map_def sorted_keys_Nil [of int64] eq_commute [of Map.empty])

text \<open>What writing loses: a map that is empty but not nil, and the sign of a zero version.\<close>

definition canon_device :: "TopoDevice \<Rightarrow> TopoDevice" where
  "canon_device d = d\<lparr>td_Metadata := (if td_Metadata d = Some [] then None else td_Metadata d)\<rparr>"

definition canon_devices :: "(string \<rightharpoonup> TopoDevice) option \<Rightarrow> (string \<rightharpoonup> TopoDevice) option" where
  "canon_devices x = (case x of None \<Rightarrow> None | Some f \<Rightarrow> if f = Map.empty then None else Some (map_option canon_device \<circ> f))"

definition canon_topo :: "Pcitopo \<Rightarrow> Pcitopo" where
  "canon_topo t = t\<lparr>Version := (if zero_text (Version t) then ''0'' else Version t),
     Devices := canon_devices (Devices t), SpyreVfDevices := canon_devices (SpyreVfDevices t)\<rparr>"

lemma decDevice_written:
  assumes "device_ok F d"
  shows "decDevice F (encDevice d) zeroDevice = (canon_device d, False)"
proof -
  have m: "obj_ok F m \<Longrightarrow> decObj F (AMap m) None = (Some m, False)" for m
    using decAny_written(3) [of F m "[]"] by (simp add: obj_ok_def)
  show ?thesis
    using assms m decPeers_written
    by (cases d; cases "td_Metadata d")
      (auto simp: decDevice_def encDevice_def decFields_append decFields_omit decField_def device_ok_def
        zeroDevice_def canon_device_def)
qed

lemma decDevices_written:
  assumes "go_map (device_ok F) f"
  shows "decMap zeroDevice (decDevice F) (encMap encDevice f) None = (Some (map_option canon_device \<circ> f), False)"
  by (rule decMap_written(1) [of "device_ok F"]) (rule assms, erule decDevice_written)

lemma encDevices_step:
  assumes "go_map_opt (device_ok F) x"
  shows "Devices t = None \<Longrightarrow> decFields (topo_fields F) (encDevices ''devices'' x) (t, False) = (t\<lparr>Devices := canon_devices x\<rparr>, False)"
    and "SpyreVfDevices t = None \<Longrightarrow> decFields (topo_fields F) (encDevices ''spyre_vf_devices'' x) (t, False) =
      (t\<lparr>SpyreVfDevices := canon_devices x\<rparr>, False)"
  using assms
  by (auto simp: encDevices_def canon_devices_def decFields_omit topo_fields_def decField_def decDevices_written sorted_keys_Nil [of "device_ok F"]
      split: option.split)

lemma decPcitopo_written:
  assumes "topo_ok F t"
  shows "decPcitopo F (encPcitopo t) emptyTopo = (canon_topo t, False)"
proof -
  let ?D = "\<lambda>m s. decFields (topo_fields F) m (s, False)"
  define t1 where "t1 = emptyTopo\<lparr>Timestamp := Timestamp t\<rparr>"
  define t2 where "t2 = t1\<lparr>Version := Version (canon_topo t)\<rparr>"
  define t3 where "t3 = t2\<lparr>Server := Server t\<rparr>"
  define t4 where "t4 = t3\<lparr>NumDevices := NumDevices t\<rparr>"
  define t5 where "t5 = t4\<lparr>Devices := canon_devices (Devices t)\<rparr>"
  define t6 where "t6 = t5\<lparr>SpyreVfNumDevices := SpyreVfNumDevices t\<rparr>"
  note ts = t1_def t2_def t3_def t4_def t5_def t6_def emptyTopo_def
  note step = decFields_omit topo_fields_def decField_def
  have "?D (omit (Timestamp t = []) ''timestamp'' (AStr (Timestamp t))) emptyTopo = (t1, False)"
    by (simp add: step ts)
  moreover have "?D (omit (zero_text (Version t)) ''version'' (ANum (Version t))) t1 = (t2, False)"
    using assms by (auto simp: step ts topo_ok_def canon_topo_def zero_text_def)
  moreover have "?D (omit (Server t = []) ''server'' (AStr (Server t))) t2 = (t3, False)"
    by (simp add: step ts)
  moreover have "?D (omit (NumDevices t = 0) ''num_devices'' (encInt (NumDevices t))) t3 = (t4, False)"
    using assms by (simp add: step ts topo_ok_def)
  moreover have "?D (encDevices ''devices'' (Devices t)) t4 = (t5, False)"
    using assms encDevices_step(1) [of F "Devices t" t4] by (simp add: ts topo_ok_def)
  moreover have "?D (omit (SpyreVfNumDevices t = 0) ''spyre_vf_num_devices'' (encInt (SpyreVfNumDevices t))) t5 = (t6, False)"
    using assms by (simp add: step ts topo_ok_def)
  moreover have "?D (encDevices ''spyre_vf_devices'' (SpyreVfDevices t)) t6 = (canon_topo t, False)"
    using assms encDevices_step(2) [of F "SpyreVfDevices t" t6] by (simp add: ts topo_ok_def canon_topo_def)
  ultimately show ?thesis by (simp add: decPcitopo_def encPcitopo_def decFields_append)
qed

lemma plain_encPeers: "plain (encPeers p) = encPeers p"
  by (auto simp: encPeers_def omit_def encMap_def encInt_def)

lemma plain_encDevice: "device_ok F d \<Longrightarrow> plain (encDevice d) = encDevice d"
  using plain_from_json [OF any_ok_from_json, of F "AMap (the (td_Metadata d))"]
  by (auto simp: encDevice_def omit_def encInt_def plain_encPeers device_ok_def obj_ok_def split: option.split)

lemma plain_encPcitopo:
  assumes "topo_ok F t"
  shows "plain (encPcitopo t) = encPcitopo t"
proof -
  have "map (\<lambda>(k, v). (k, plain v)) (encDevices k x) = encDevices k x" if "go_map_opt (device_ok F) x" for k x
  proof (cases x)
    case (Some f)
    have f: "go_map (device_ok F) f" using that Some by simp
    then have "set (sorted_keys f) = dom f" by (simp add: sorted_keys_def go_map_def)
    then have "plain (encMap encDevice f) = encMap encDevice f"
      using f plain_encDevice [of F] by (auto simp: encMap_def go_map_def)
    then show ?thesis by (simp add: encDevices_def Some omit_def)
  qed (simp add: encDevices_def)
  then show ?thesis using assms by (simp add: encPcitopo_def topo_ok_def omit_def encInt_def)
qed

lemma written_topo:
  assumes "topo_ok F t"
  shows "\<exists>d. Marshal t = Inr d \<and> UnmarshalPciTopo F d = (canon_topo t, None)"
  by (simp add: Marshal_def UnmarshalPciTopo_def plain_encPcitopo [OF assms] decPcitopo_written [OF assms])

lemma encDevice_canon [simp]: "encDevice (canon_device d) = encDevice d"
  by (auto simp: encDevice_def canon_device_def omit_def split: option.split)

lemma encDevices_canon:
  assumes "go_map_opt (device_ok F) x"
  shows "encDevices k (canon_devices x) = encDevices k x"
proof (cases x)
  case (Some f)
  then have f: "go_map (device_ok F) f" using assms by simp
  have d: "dom (map_option canon_device \<circ> f) = dom f" by (auto simp: dom_def)
  have "set (sorted_keys f) = dom f" using f by (simp add: sorted_keys_def go_map_def)
  then have "encMap encDevice (map_option canon_device \<circ> f) = encMap encDevice f"
    by (auto simp: encMap_def sorted_keys_def d)
  then show ?thesis
    using sorted_keys_Nil [OF f] by (auto simp: Some encDevices_def canon_devices_def omit_def sorted_keys_def d)
qed (simp add: encDevices_def canon_devices_def)

lemma Marshal_canon: "topo_ok F t \<Longrightarrow> Marshal (canon_topo t) = Marshal t"
  by (simp add: Marshal_def encPcitopo_def topo_ok_def canon_topo_def encDevices_canon [of F] omit_def zero_text_def)

section \<open>Property\<close>

text \<open>
  C23. A topology the driver has read, even one that came with an error, is written to a file
  from which it reads the same topology without an error, but that empty maps are nil again and a
  version -0 is 0; what was lost is not written, so writing that topology gives the same file.
\<close>

theorem topo_roundtrip:
  assumes "floats_ok F" "UnmarshalPciTopo F c = (t, e)"
  shows "\<exists>d. Marshal t = Inr d \<and> UnmarshalPciTopo F d = (canon_topo t, None) \<and> Marshal (canon_topo t) = Inr d"
  using written_topo Marshal_canon UnmarshalPciTopo_ok [OF assms] by metis

text \<open>A file with a member in other letters, one of the wrong type, and an unknown one.\<close>

definition sample_topo_file :: content where
  "sample_topo_file = Doc (AMap [(''Server'', AStr ''s''), (''NUM_DEVICES'', AStr ''two''), (''spyre_vf_devices'', AMap []),
     (''devices'', AMap [(''0000:1a:00.0'', AMap [(''numanode'', ANum ''1''), (''color'', AStr ''red'')])])])"

theorem topo_roundtrip_witness:
  "\<exists>t d. UnmarshalPciTopo sample_floats sample_topo_file = (t, Some (Wrapped ''failed to unmarshal pcitopo data'' (Msg ''json type''))) \<and>
     Server t = ''s'' \<and> SpyreVfDevices t = Some Map.empty \<and>
     Marshal t = Inr d \<and> UnmarshalPciTopo sample_floats d = (canon_topo t, None)"
proof -
  have fold: "foldName ''Server'' = ''SERVER''" "foldName ''NUM_DEVICES'' = ''NUM_DEVICES''" "foldName ''color'' = ''COLOR''"
    by code_simp+
  obtain t where t: "UnmarshalPciTopo sample_floats sample_topo_file =
      (t, Some (Wrapped ''failed to unmarshal pcitopo data'' (Msg ''json type'')))" "Server t = ''s''" "SpyreVfDevices t = Some Map.empty"
    by (simp add: UnmarshalPciTopo_def sample_topo_file_def decPcitopo_def topo_fields_def decField_def fold emptyTopo_def
        case_prod_beta)
  from topo_roundtrip [OF sample_floats_ok t(1)] t show ?thesis by blast
qed

end
