(* ===== verification/PseudoTopo.thy ===== *)
theory PseudoTopo
  imports TopoJson
begin

text \<open>
  \<^verbatim>\<open>pkg/topology/pseudo.go\<close>: the topology compiled into the driver for pseudo mode.  The
  Go constant is one JSON text; here it is that document, with the repeated parts written once.
  It has eight PFs on two switches and thirteen VFs, three, two, four and four of them on a switch,
  the first two switches on one socket and the last two on the other.  Two VFs of one card are at
  distance 2, two devices of a switch otherwise at 4, of a socket at 10, of the machine at 100.
  The lemmas give the value it is decoded to, field by field.
\<close>

section \<open>The document\<close>

definition pf_switches :: "string list list" where
  "pf_switches = [[''0000:1a:00.0'', ''0000:1c:00.0'', ''0000:1d:00.0'', ''0000:1e:00.0''],
     [''0000:3d:00.0'', ''0000:3f:00.0'', ''0000:40:00.0'', ''0000:41:00.0'']]"

definition vf_switches :: "string list list" where
  "vf_switches = [[''0000:2a:00.2'', ''0000:2b:00.1'', ''0000:2b:00.2''], [''0000:3b:00.2'', ''0000:3c:00.2''],
     [''0000:aa:00.1'', ''0000:aa:00.2'', ''0000:ac:00.1'', ''0000:ac:00.2''],
     [''0000:ba:00.1'', ''0000:ba:00.2'', ''0000:bb:00.1'', ''0000:bb:00.2'']]"

text \<open>The devices of a switch but \<open>a\<close> itself; the card of a device is its address up to the function.\<close>

definition others :: "string \<Rightarrow> string list \<Rightarrow> string list" where
  "others a sw = filter (\<lambda>b. b \<noteq> a) sw"

definition card_distance :: "string \<Rightarrow> string \<Rightarrow> string" where
  "card_distance a b = (if take 10 b = take 10 a then ''2'' else ''4'')"

definition peer_doc :: "(string \<Rightarrow> string) \<Rightarrow> string list \<Rightarrow> any" where
  "peer_doc dist as = AMap (map (\<lambda>a. (a, ANum (dist a))) as)"

definition pf_doc :: "string list \<Rightarrow> string list \<Rightarrow> string \<Rightarrow> any" where
  "pf_doc sw far a = AMap
     [(''name'', AStr ''IBM Device 06a7 (rev 01)''), (''numanode'', ANum ''0''), (''is_pf'', ABool True),
      (''linkspeed'', AStr ''20.0 GB/s''),
      (''peers'', AMap [(''peers_0'', peer_doc (\<lambda>b. ''4'') (others a sw)), (''peers_1'', peer_doc (\<lambda>b. ''10'') far),
         (''peers_2'', AMap [])])]"

definition vf_doc :: "string \<Rightarrow> string list \<Rightarrow> string list \<Rightarrow> string list \<Rightarrow> string \<Rightarrow> any" where
  "vf_doc numa sw far away a = AMap
     [(''name'', AStr ''AIU VF Device 06a8 (rev 02)''), (''device_id'', AStr ''06a8''), (''is_pf'', ABool False),
      (''numanode'', ANum numa), (''linkspeed'', AStr '' 0.00 GB/s''),
      (''spyre_vf_peers'', AMap [(''peers_0'', peer_doc (card_distance a) (others a sw)),
         (''peers_1'', peer_doc (\<lambda>b. ''10'') far), (''peers_2'', peer_doc (\<lambda>b. ''100'') away)])]"

text \<open>Every address of a switch with its document.\<close>

definition entries :: "(string \<Rightarrow> any) \<Rightarrow> string list \<Rightarrow> obj" where
  "entries doc as = map (\<lambda>a. (a, doc a)) as"

definition pseudo_pfs :: obj where
  "pseudo_pfs = (let s = pf_switches in entries (pf_doc (s ! 0) (s ! 1)) (s ! 0) @ entries (pf_doc (s ! 1) (s ! 0)) (s ! 1))"

definition pseudo_vfs :: obj where
  "pseudo_vfs = (let s = vf_switches; lo = s ! 0 @ s ! 1; hi = s ! 2 @ s ! 3 in
     entries (vf_doc ''0'' (s ! 0) (s ! 1) hi) (s ! 0) @ entries (vf_doc ''0'' (s ! 1) (s ! 0) hi) (s ! 1) @
     entries (vf_doc ''1'' (s ! 2) (s ! 3) lo) (s ! 2) @ entries (vf_doc ''1'' (s ! 3) (s ! 2) lo) (s ! 3))"

definition PseudoTopology :: content where
  "PseudoTopology = Doc (AMap
     [(''timestamp'', AStr ''Fri Jun 21 08:15:40 2024''), (''num_devices'', ANum ''8''), (''devices'', AMap pseudo_pfs),
      (''spyre_vf_num_devices'', ANum ''13''), (''spyre_vf_devices'', AMap pseudo_vfs)])"

section \<open>The value\<close>

definition distances :: "(string \<Rightarrow> string) \<Rightarrow> string list \<Rightarrow> (string \<rightharpoonup> int)" where
  "distances dist as = (\<lambda>a. if a \<in> set as then Some (the (Atoi (dist a))) else None)"

definition pf_value :: "string list \<Rightarrow> string list \<Rightarrow> string \<Rightarrow> TopoDevice" where
  "pf_value sw far a = zeroDevice\<lparr>td_Name := ''IBM Device 06a7 (rev 01)'', td_IsPf := True, td_Linkspeed := ''20.0 GB/s'',
     td_Peers := \<lparr>Peer0 = distances (\<lambda>b. ''4'') (others a sw), Peer1 = distances (\<lambda>b. ''10'') far,
       Peer2 = Map.empty\<rparr>\<rparr>"

definition vf_value :: "int \<Rightarrow> string list \<Rightarrow> string list \<Rightarrow> string list \<Rightarrow> string \<Rightarrow> TopoDevice" where
  "vf_value numa sw far away a = zeroDevice\<lparr>td_Name := ''AIU VF Device 06a8 (rev 02)'', td_DeviceId := ''06a8'',
     td_NumaNode := numa, td_Linkspeed := '' 0.00 GB/s'',
     td_SpyreVfPeers := \<lparr>Peer0 = distances (card_distance a) (others a sw), Peer1 = distances (\<lambda>b. ''10'') far,
       Peer2 = distances (\<lambda>b. ''100'') away\<rparr>\<rparr>"

text \<open>Later entries of the list win, as in a JSON object; the lists have no address in common.\<close>

fun table :: "((string \<Rightarrow> TopoDevice) \<times> string list) list \<Rightarrow> (string \<rightharpoonup> TopoDevice) \<Rightarrow> (string \<rightharpoonup> TopoDevice)" where
  "table [] f = f"
| "table ((g, as) # ts) f = table ts (\<lambda>a. if a \<in> set as then Some (g a) else f a)"

definition pseudo_topo :: Pcitopo where
  "pseudo_topo =
     (let p = pf_switches; v = vf_switches; lo = v ! 0 @ v ! 1; hi = v ! 2 @ v ! 3 in
      emptyTopo\<lparr>Timestamp := ''Fri Jun 21 08:15:40 2024'', NumDevices := 8,
        Devices := Some (table [(pf_value (p ! 0) (p ! 1), p ! 0), (pf_value (p ! 1) (p ! 0), p ! 1)] Map.empty),
        SpyreVfNumDevices := 13,
        SpyreVfDevices := Some (table [(vf_value 0 (v ! 0) (v ! 1) hi, v ! 0), (vf_value 0 (v ! 1) (v ! 0) hi, v ! 1),
          (vf_value 1 (v ! 2) (v ! 3) lo, v ! 2), (vf_value 1 (v ! 3) (v ! 2) lo, v ! 3)] Map.empty)\<rparr>)"

lemma Atoi_distances [simp]:
  "Atoi ''0'' = Some 0" "Atoi ''1'' = Some 1" "Atoi ''2'' = Some 2" "Atoi ''4'' = Some 4" "Atoi ''8'' = Some 8"
  "Atoi ''10'' = Some 10" "Atoi ''13'' = Some 13" "Atoi ''100'' = Some 100"
  by code_simp+

lemma decPeerMap_doc:
  assumes "\<And>a. Atoi (dist a) \<noteq> None"
  shows "decPeerMap (peer_doc dist as) (Some Map.empty) = (Some (distances dist as), False)"
proof -
  have "decInt (ANum (dist a)) 0 = (the (Atoi (dist a)), False)" for a using assms [of a] by auto
  then show ?thesis by (auto simp: decPeerMap_def peer_doc_def decEntries_written distances_def)
qed

lemma decPeerMap_docs [simp]:
  "decPeerMap (peer_doc (card_distance a) as) (Some Map.empty) = (Some (distances (card_distance a) as), False)"
  "Atoi d \<noteq> None \<Longrightarrow> decPeerMap (peer_doc (\<lambda>b. d) as) (Some Map.empty) = (Some (distances (\<lambda>b. d) as), False)"
  "decPeerMap (AMap []) (Some Map.empty) = (Some Map.empty, False)"
  by (simp_all add: decPeerMap_doc card_distance_def) (simp add: decPeerMap_def)

lemma decDevice_docs:
  "decDevice F (pf_doc sw far a) zeroDevice = (pf_value sw far a, False)"
  "Atoi numa = Some n \<Longrightarrow> decDevice F (vf_doc numa sw far away a) zeroDevice = (vf_value n sw far away a, False)"
  by (simp_all add: pf_doc_def pf_value_def vf_doc_def vf_value_def decDevice_def decPeers_def decField_def zeroDevice_def
      noPeers_def nil_map_def)

lemma decEntries_docs:
  assumes "\<And>a. d (doc a) z = (g a, False)"
  shows "decEntries z d (entries doc as) (f, False) = ((\<lambda>a. if a \<in> set as then Some (g a) else f a), False)"
  using assms by (simp add: entries_def decEntries_written cong: if_cong)

lemma from_json_docs:
  "from_json (AMap pseudo_pfs)" "from_json (AMap pseudo_vfs)"
  by (auto simp: pseudo_pfs_def pseudo_vfs_def entries_def pf_doc_def vf_doc_def peer_doc_def Let_def list_all_iff)

text \<open>The compiled-in topology decodes without an error, whatever floating point does.\<close>

lemma UnmarshalPciTopo_pseudo: "UnmarshalPciTopo F PseudoTopology = (pseudo_topo, None)"
proof -
  have pf: "decEntries zeroDevice (decDevice F) (entries (pf_doc sw far) as) (f, False) =
      ((\<lambda>a. if a \<in> set as then Some (pf_value sw far a) else f a), False)" for sw far as f
    by (rule decEntries_docs) (rule decDevice_docs(1))
  have vf: "Atoi numa = Some n \<Longrightarrow> decEntries zeroDevice (decDevice F) (entries (vf_doc numa sw far away) as) (f, False) =
      ((\<lambda>a. if a \<in> set as then Some (vf_value n sw far away a) else f a), False)" for numa n sw far away as f
    by (rule decEntries_docs) (rule decDevice_docs(2))
  have "decMap zeroDevice (decDevice F) (AMap pseudo_pfs) None = (Devices pseudo_topo, False)"
    by (simp add: pseudo_pfs_def pseudo_topo_def Let_def decEntries_append pf)
  moreover have "decMap zeroDevice (decDevice F) (AMap pseudo_vfs) None = (SpyreVfDevices pseudo_topo, False)"
    by (simp add: pseudo_vfs_def pseudo_topo_def Let_def decEntries_append vf [OF Atoi_distances(1)] vf [OF Atoi_distances(2)])
  moreover have "plain (AMap pseudo_pfs) = AMap pseudo_pfs" "plain (AMap pseudo_vfs) = AMap pseudo_vfs"
    using plain_from_json from_json_docs by blast+
  ultimately show ?thesis
    by (simp add: UnmarshalPciTopo_def PseudoTopology_def decPcitopo_def topo_fields_def decField_def emptyTopo_def
        pseudo_topo_def Let_def)
qed

end
