(* ===== verification/Discovery.thy ===== *)
theory Discovery
  imports Devices PseudoTopo
begin

text \<open>
  \<^verbatim>\<open>internal/discovery/discovery.go\<close> and \<^verbatim>\<open>pkg/topology/topology.go\<close>:
  where the topology file is, how it is read, and which PCI devices are offered, on hardware
  and in pseudo mode.  How Go reads floating-point numbers and the device list of \<open>ghw\<close> are
  parameters (\<^verbatim>\<open>go_floats\<close>, \<open>listed\<close>).
\<close>

section \<open>The topology file\<close>

definition DefaultTopologyFolder :: string where "DefaultTopologyFolder = ''/etc/aiu/topology''"
definition GeneratedTopologyFilepath :: string where "GeneratedTopologyFilepath = ''/tmp/generated-topo.json''"
definition MetadataTopologyFilepath :: string where
  "MetadataTopologyFilepath = ''/usr/local/etc/dra-driver-spyre/metadata/topo.json''"

definition GetTopologyFile :: "world \<Rightarrow> string" where
  "GetTopologyFile w =
     (if Getenv w ''IGNORE_EXTERNAL_METADATA'' \<noteq> ''true'' \<and> PathExists w MetadataTopologyFilepath
      then MetadataTopologyFilepath
      else
        (let p = Join [DefaultTopologyFolder, GetNodeName w]
         in if \<not> PathExists w p \<and> IsPseudoDeviceMode w then GeneratedTopologyFilepath else p))"

definition WriteTopo :: "world \<Rightarrow> string \<Rightarrow> Pcitopo \<Rightarrow> err option \<times> world" where
  "WriteTopo w f t =
     (case Create w f of
        (Some e, w1) \<Rightarrow> (Some (wrap ''failed to create pcitopo file'' e), w1)
      | (None, w1) \<Rightarrow>
          (case Marshal t of
             Inl e \<Rightarrow> (Some (wrap ''failed to marshal pcitopo data'' e), w1)
           | Inr c \<Rightarrow>
               (case faults w1 OpWrite (comps f) of
                  Some e \<Rightarrow> (Some (wrap ''failed to write pcitopo file'' (IOErr e)), w1)
                | None \<Rightarrow> (None, put (comps f) (File c) w1))))"

text \<open>
  \<open>GetPciTopology\<close>: a pointer and an error.  The pointer is nil only when the file cannot be
  read outside pseudo mode; a file that does not decode still yields a topology.
\<close>

definition GetPciTopology ::
    "go_floats \<Rightarrow> world \<Rightarrow> string \<Rightarrow> (Pcitopo option \<times> err option) \<times> world" where
  "GetPciTopology F w f0 =
     (let f = (if f0 = [] then GetTopologyFile w else f0) in
      case ReadFile w f of
        Inl e \<Rightarrow>
          (if IsPseudoDeviceMode w then
             (case UnmarshalPciTopo F PseudoTopology of
                (t, None) \<Rightarrow> ((Some t, None), snd (WriteTopo w f t))
              | (t, Some e) \<Rightarrow> ((Some t, Some e), w))
           else ((None, Some e), w))
      | Inr c \<Rightarrow>
          (case UnmarshalPciTopo F c of (t, e) \<Rightarrow> ((Some t, e), w)))"

section \<open>Discovery\<close>

record DeviceDiscovery =
  topologyFile :: string
  disableVirtualFunction :: bool

definition NewDeviceDiscovery :: "string \<Rightarrow> bool \<Rightarrow> err + DeviceDiscovery" where
  "NewDeviceDiscovery file disableVF = Inr \<lparr>topologyFile = file, disableVirtualFunction = disableVF\<rparr>"

text \<open>The orders of one discovery: the sweep of the NUMA numbering and three ranges.\<close>

record disc_orders =
  numa_keys :: "string list"
  numa_peers :: "string \<Rightarrow> string list"
  pf_keys :: "string list"
  vf_keys :: "string list"
  pf_keys2 :: "string list"

definition lookupNuma :: "(string \<rightharpoonup> string) \<Rightarrow> string \<Rightarrow> int" where
  "lookupNuma m a = (case m a of None \<Rightarrow> 0 | Some s \<Rightarrow> (case Atoi s of None \<Rightarrow> 0 | Some n \<Rightarrow> n))"

definition missing_vfs :: "(string \<rightharpoonup> string) \<Rightarrow> Pcitopo \<Rightarrow> string \<Rightarrow> ghw_device list" where
  "missing_vfs numaMap topo pf =
     (let dot = LastIndex pf CHR ''.'' in
      if dot < 0 then []
      else map (\<lambda>a. GeneratePseudoDevice a ProductIDVf (lookupNuma numaMap pf))
             (filter (\<lambda>a. vf_devices topo a = None)
               (map (\<lambda>fi. take (nat dot) pf @ ''.'' @ fi) [''1'', ''2''])))"

definition generatePseudoDevicesFromTopo :: "disc_orders \<Rightarrow> string \<Rightarrow> Pcitopo \<Rightarrow> ghw_device list" where
  "generatePseudoDevicesFromTopo ord goarch topo =
     (let numaMap = GenerateNumaInfoMapFromTopo (numa_keys ord) (numa_peers ord) topo;
          pfs = map (\<lambda>a. GeneratePseudoDevice a ProductIDPf (lookupNuma numaMap a)) (GetDevices (pf_keys ord) topo);
          vfs = map (\<lambda>a. GeneratePseudoDevice a ProductIDVf (lookupNuma numaMap a)) (vf_keys ord)
      in pfs @ vfs @ (if goarch = ''s390x'' then []
           else concat (map (missing_vfs numaMap topo) (GetDevices (pf_keys2 ord) topo))))"

definition defaultPseudoDevices :: "ghw_device list" where
  "defaultPseudoDevices = map (\<lambda>a. GeneratePseudoDevice a ProductIDPf 0)
     [''0000:1a:00.0'', ''0000:1c:00.0'', ''0000:1d:00.0'', ''0000:1e:00.0'',
      ''0000:3d:00.0'', ''0000:3f:00.0'', ''0000:40:00.0'', ''0000:41:00.0'']"

definition discoverPseudoDevices :: "disc_orders \<Rightarrow> string \<Rightarrow> Pcitopo option \<Rightarrow> ghw_device list" where
  "discoverPseudoDevices ord goarch topo =
     (case topo of Some t \<Rightarrow> generatePseudoDevicesFromTopo ord goarch t | None \<Rightarrow> defaultPseudoDevices)"

definition supportedDeviceCodes :: "int list" where "supportedDeviceCodes = [0x00, 0x12]"
definition supportedDrivers :: "string list" where "supportedDrivers = [''vfio-pci'']"
definition supportedVendors :: "string list" where "supportedVendors = [''1014'']"
definition supportedProductIDs :: "string list" where "supportedProductIDs = [''06a7'', ''06a8'']"

lemmas supported_defs = supportedDeviceCodes_def supportedDrivers_def supportedVendors_def supportedProductIDs_def

definition isSupportedDevice :: "ghw_device \<Rightarrow> bool" where
  "isSupportedDevice d =
     (case ParseInt (ghw_ClassID d) 16 of
        None \<Rightarrow> False
      | Some devClass \<Rightarrow> devClass \<in> set supportedDeviceCodes \<and> ghw_ProductID d \<in> set supportedProductIDs \<and>
                         ghw_Driver d \<in> set supportedDrivers \<and> ghw_VendorID d \<in> set supportedVendors)"

fun target_devices :: "sysfs \<Rightarrow> ghw_device list \<Rightarrow> ghw_device list" where
  "target_devices S [] = []"
| "target_devices S (d # ds) =
     (if \<not> isSupportedDevice d then target_devices S ds
      else case GetVFIODeviceFile S (ghw_Address d) of
             (_, _, Some e) \<Rightarrow> target_devices S ds
           | (_, _, None) \<Rightarrow> d # target_devices S ds)"

text \<open>What \<open>ghw.PCI\<close> answers is an argument.\<close>

definition listDevices :: "err + ghw_device list \<Rightarrow> err + ghw_device list" where
  "listDevices pci =
     (case pci of
        Inl e \<Rightarrow> Inl (Wrapped ''discoverDevices(): error getting PCI info'' e)
      | Inr devices \<Rightarrow> Inr devices)"

definition discoverTargetDevices :: "sysfs \<Rightarrow> err + ghw_device list \<Rightarrow> err + ghw_device list" where
  "discoverTargetDevices S listed =
     (case listDevices listed of
        Inl e \<Rightarrow> Inl (wrap ''failed to list devices'' e)
      | Inr ds \<Rightarrow> Inr (target_devices S ds))"

text \<open>\<open>None\<close> as in \<open>NewAllocatableDevices\<close>: a sweep that does not return.\<close>

definition GetAllocatableDevices ::
    "go_floats \<Rightarrow> world \<Rightarrow> sysfs \<Rightarrow> disc_orders \<Rightarrow> tier_orders \<Rightarrow> string \<Rightarrow> err + ghw_device list \<Rightarrow>
       DeviceDiscovery \<Rightarrow> (err + AllocatableDevices) option \<times> world" where
  "GetAllocatableDevices F w S ord tord goarch listed d =
     (case GetPciTopology F w (topologyFile d) of
        ((topo, e), w1) \<Rightarrow>
          (case (if IsPseudoDeviceMode w1 then Inr (discoverPseudoDevices ord goarch topo)
                 else discoverTargetDevices S listed) of
             Inl e \<Rightarrow> (Some (Inl (wrap ''failed to discover target devices'' e)), w1)
           | Inr devices \<Rightarrow>
               (map_option Inr (NewAllocatableDevices w1 S tord devices topo (disableVirtualFunction d)), w1)))"

section \<open>Lemmas\<close>

lemma GeneratePseudoDevice_sel [simp]:
  "ghw_Address (GeneratePseudoDevice a p n) = a"
  "ghw_ProductID (GeneratePseudoDevice a ProductIDPf n) = ProductIDPf"
  "ghw_ProductID (GeneratePseudoDevice a ProductIDVf n) = ProductIDVf"
  by (simp_all add: GeneratePseudoDevice_def ProductIDPf_def ProductIDVf_def)

lemma missing_vfs_iff:
  assumes "CHR ''.'' \<notin> set f"
  shows "d \<in> set (missing_vfs numaMap topo (base @ ''.'' @ f)) \<longleftrightarrow>
    (\<exists>i \<in> {''1'', ''2''}. vf_devices topo (base @ ''.'' @ i) = None \<and>
       d = GeneratePseudoDevice (base @ ''.'' @ i) ProductIDVf (lookupNuma numaMap (base @ ''.'' @ f)))"
  using LastIndex_append [OF assms, of base] by (auto simp: missing_vfs_def)

lemma target_devices_filter:
  "target_devices S ds = filter (\<lambda>d. isSupportedDevice d \<and> snd (snd (GetVFIODeviceFile S (ghw_Address d))) = None) ds"
proof (induction ds)
  case Nil
  then show ?case by simp
next
  case (Cons d ds)
  obtain h c e where "GetVFIODeviceFile S (ghw_Address d) = (h, c, e)" by (metis prod.collapse)
  with Cons.IH show ?case by (cases e) simp_all
qed

lemma filter_pair: "P a \<Longrightarrow> \<not> P b \<Longrightarrow> {d \<in> set [a, b]. P d} = {a}"
  by auto

lemma GetDevices_set: "set (GetDevices ks t) = {k \<in> set ks. k \<in> dom (pf_devices t)}"
  by (auto simp: GetDevices_def)

section \<open>Properties\<close>

text \<open>
  C35. On hardware only devices that are supported and have an isolated VFIO device file are
  offered, and every such device is: vendor 1014, product 06a7 or 06a8, bound to
  \<^verbatim>\<open>vfio-pci\<close>, and a class id that reads as 0x00 or 0x12 in hexadecimal.
\<close>

theorem target_devices_exact:
  assumes "listed = Inr ds"
  shows "\<exists>ts. discoverTargetDevices S listed = Inr ts \<and>
    set ts = {d \<in> set ds. ghw_VendorID d = ''1014'' \<and> ghw_ProductID d \<in> {''06a7'', ''06a8''} \<and>
      ghw_Driver d = ''vfio-pci'' \<and> ParseInt (ghw_ClassID d) 16 \<in> {Some 0, Some 18} \<and>
      snd (snd (GetVFIODeviceFile S (ghw_Address d))) = None}"
  using assms
  by (auto simp: discoverTargetDevices_def listDevices_def target_devices_filter isSupportedDevice_def supported_defs split: option.splits)

definition hw_device :: ghw_device where
  "hw_device = (sample_hw ''0000:1a:00.0'')\<lparr>ghw_ClassID := ''12'', ghw_Driver := ''vfio-pci''\<rparr>"

theorem target_devices_exact_witness:
  "\<exists>ts. discoverTargetDevices (sample_sysfs ''7'') (Inr [hw_device, sample_hw ''0000:1c:00.0'']) = Inr ts \<and> set ts = {hw_device}"
proof -
  let ?P = "\<lambda>d. ghw_VendorID d = ''1014'' \<and> ghw_ProductID d \<in> {''06a7'', ''06a8''} \<and>
      ghw_Driver d = ''vfio-pci'' \<and> ParseInt (ghw_ClassID d) 16 \<in> {Some 0, Some 18} \<and>
      snd (snd (GetVFIODeviceFile (sample_sysfs ''7'') (ghw_Address d))) = None"
  have "?P hw_device" "\<not> ?P (sample_hw ''0000:1c:00.0'')" by code_simp+
  note pair = filter_pair [of ?P, OF this]
  obtain ts where "discoverTargetDevices (sample_sysfs ''7'') (Inr [hw_device, sample_hw ''0000:1c:00.0'']) = Inr ts"
      "set ts = {d \<in> set [hw_device, sample_hw ''0000:1c:00.0'']. ?P d}"
    using target_devices_exact [OF refl, of "sample_sysfs ''7''" "[hw_device, sample_hw ''0000:1c:00.0'']"] by (elim exE conjE)
  then show ?thesis unfolding pair by (intro exI conjI)
qed

text \<open>
  C36. In pseudo mode every PF of the topology is offered as a PF, every VF as a VF, and off s390x
  every PF \<^verbatim>\<open>base.f\<close> comes with VFs \<^verbatim>\<open>base.1\<close> and
  \<^verbatim>\<open>base.2\<close>; nothing else is offered.
\<close>

theorem pseudo_devices_exact:
  assumes "set (pf_keys ord) = dom (pf_devices t)" "set (pf_keys2 ord) = dom (pf_devices t)"
    and "set (vf_keys ord) = dom (vf_devices t)" "arch \<noteq> ''s390x''"
    and "\<And>a. a \<in> dom (pf_devices t) \<Longrightarrow> \<exists>b f. a = b @ ''.'' @ f \<and> CHR ''.'' \<notin> set f"
  shows "(\<lambda>d. (ghw_Address d, ghw_ProductID d)) ` set (discoverPseudoDevices ord arch (Some t)) =
    dom (pf_devices t) \<times> {ProductIDPf} \<union>
    (dom (vf_devices t) \<union> {b @ ''.'' @ i | b f i. b @ ''.'' @ f \<in> dom (pf_devices t) \<and> CHR ''.'' \<notin> set f \<and> i \<in> {''1'', ''2''}})
      \<times> {ProductIDVf}"
proof -
  let ?nm = "GenerateNumaInfoMapFromTopo (numa_keys ord) (numa_peers ord) t"
  let ?k = "\<lambda>d. (ghw_Address d, ghw_ProductID d)"
  let ?V = "{b @ ''.'' @ i | b f i. b @ ''.'' @ f \<in> dom (pf_devices t) \<and> CHR ''.'' \<notin> set f \<and> i \<in> {''1'', ''2''}}"
  have auto_vfs: "?k ` (\<Union>a \<in> dom (pf_devices t). set (missing_vfs ?nm t a)) =
      (?V - dom (vf_devices t)) \<times> {ProductIDVf}" (is "?L = ?R")
  proof
    show "?L \<subseteq> ?R"
    proof
      fix x assume "x \<in> ?L"
      then obtain a d where a: "a \<in> dom (pf_devices t)" "d \<in> set (missing_vfs ?nm t a)" "x = ?k d" by blast
      then obtain b f where bf: "a = b @ ''.'' @ f" "CHR ''.'' \<notin> set f" using assms(5) by blast
      from a(2) obtain i where "i \<in> {''1'', ''2''}" "vf_devices t (b @ ''.'' @ i) = None"
          "d = GeneratePseudoDevice (b @ ''.'' @ i) ProductIDVf (lookupNuma ?nm a)"
        unfolding bf(1) missing_vfs_iff [OF bf(2)] by blast
      with a bf show "x \<in> ?R" by (simp add: domIff) blast
    qed
    show "?R \<subseteq> ?L"
    proof
      fix x assume "x \<in> ?R"
      then obtain b f i where x: "x = (b @ ''.'' @ i, ProductIDVf)" "b @ ''.'' @ f \<in> dom (pf_devices t)"
          "CHR ''.'' \<notin> set f" "i \<in> {''1'', ''2''}" "vf_devices t (b @ ''.'' @ i) = None" by blast
      let ?d = "GeneratePseudoDevice (b @ ''.'' @ i) ProductIDVf (lookupNuma ?nm (b @ ''.'' @ f))"
      have "?d \<in> set (missing_vfs ?nm t (b @ ''.'' @ f))"
        unfolding missing_vfs_iff [OF x(3)] using x(4,5) by blast
      moreover have "?k ?d = x" by (simp add: x(1))
      ultimately show "x \<in> ?L" using x(2) by blast
    qed
  qed
  have named: "?k ` (\<lambda>a. GeneratePseudoDevice a ProductIDPf (n a)) ` X = X \<times> {ProductIDPf}"
      "?k ` (\<lambda>a. GeneratePseudoDevice a ProductIDVf (n a)) ` X = X \<times> {ProductIDVf}" for X n
    by (auto simp: image_image)
  have "set (discoverPseudoDevices ord arch (Some t)) =
      (\<lambda>a. GeneratePseudoDevice a ProductIDPf (lookupNuma ?nm a)) ` dom (pf_devices t) \<union>
      (\<lambda>a. GeneratePseudoDevice a ProductIDVf (lookupNuma ?nm a)) ` dom (vf_devices t) \<union>
      (\<Union>a \<in> dom (pf_devices t). set (missing_vfs ?nm t a))"
    using assms(1-4) by (auto simp: discoverPseudoDevices_def generatePseudoDevicesFromTopo_def Let_def GetDevices_set)
  then have "?k ` set (discoverPseudoDevices ord arch (Some t)) =
      dom (pf_devices t) \<times> {ProductIDPf} \<union> dom (vf_devices t) \<times> {ProductIDVf} \<union> (?V - dom (vf_devices t)) \<times> {ProductIDVf}"
    by (simp only: image_Un named auto_vfs)
  then show ?thesis by (simp only: Un_assoc Sigma_Un_distrib1 [symmetric] Un_Diff_cancel)
qed

definition sample_disc_orders :: disc_orders where
  "sample_disc_orders = \<lparr>numa_keys = [''0000:1a:00.0'', ''0000:1c:00.0''], numa_peers = (\<lambda>a. []),
     pf_keys = [''0000:1a:00.0'', ''0000:1c:00.0''], vf_keys = [], pf_keys2 = [''0000:1a:00.0'', ''0000:1c:00.0'']\<rparr>"

theorem pseudo_devices_exact_witness:
  "(''0000:1c:00.2'', ProductIDVf) \<in>
     (\<lambda>d. (ghw_Address d, ghw_ProductID d)) ` set (discoverPseudoDevices sample_disc_orders ''amd64'' (Some sample_pci_topo))"
proof -
  have d: "dom (pf_devices sample_pci_topo) = {''0000:1a:00.0'', ''0000:1c:00.0''}" "dom (vf_devices sample_pci_topo) = {}"
    by (auto simp: sample_pci_topo_def nil_map_def emptyTopo_def)
  have "\<exists>b f. ''0000:1a:00.0'' = b @ ''.'' @ f \<and> CHR ''.'' \<notin> set f"
    by (intro exI [of _ "''0000:1a:00''"] exI [of _ "''0''"]) simp
  moreover have "\<exists>b f. ''0000:1c:00.0'' = b @ ''.'' @ f \<and> CHR ''.'' \<notin> set f"
    by (intro exI [of _ "''0000:1c:00''"] exI [of _ "''0''"]) simp
  ultimately have dots: "\<exists>b f. a = b @ ''.'' @ f \<and> CHR ''.'' \<notin> set f" if "a \<in> dom (pf_devices sample_pci_topo)" for a
    using that unfolding d by blast
  have o: "set (pf_keys sample_disc_orders) = dom (pf_devices sample_pci_topo)"
    "set (pf_keys2 sample_disc_orders) = dom (pf_devices sample_pci_topo)"
    "set (vf_keys sample_disc_orders) = dom (vf_devices sample_pci_topo)" "''amd64'' \<noteq> ''s390x''"
    by (simp_all add: d sample_disc_orders_def)
  have "''0000:1c:00.2'' = ''0000:1c:00'' @ ''.'' @ ''2'' \<and> ''0000:1c:00'' @ ''.'' @ ''0'' \<in> dom (pf_devices sample_pci_topo) \<and>
      CHR ''.'' \<notin> set ''0'' \<and> ''2'' \<in> {''1'', ''2''}"
    by (simp add: d)
  then have "''0000:1c:00.2'' \<in> {b @ ''.'' @ i | b f i. b @ ''.'' @ f \<in> dom (pf_devices sample_pci_topo) \<and>
      CHR ''.'' \<notin> set f \<and> i \<in> {''1'', ''2''}}"
    by (intro CollectI exI [of _ "''0000:1c:00''"] exI [of _ "''0''"] exI [of _ "''2''"])
  then show ?thesis
    using pseudo_devices_exact [OF o dots] by (metis (no_types, lifting) SigmaI UnI2 singletonI)
qed

end
