(* ===== verification/SenlibConfig.thy ===== *)
theory SenlibConfig
  imports Devices GoJson
begin

text \<open>
  \<^verbatim>\<open>internal/handler/config/senlib_config_generator.go\<close>: the senlib
  configuration of a container is the template file with the bus ids, the \<open>doom\<close> flag, the
  metrics paths and (for PFs) the RISC-V switch filled in.  The decoded template is an
  \<^verbatim>\<open>obj\<close>; a chain of type assertions and a map write is \<^verbatim>\<open>nested_set\<close>,
  where \<open>None\<close> is the panic of a failing assertion.
\<close>

section \<open>Keys of the configuration\<close>

abbreviation GeneralKey :: string where "GeneralKey \<equiv> ''GENERAL''"
abbreviation MetricsKey :: string where "MetricsKey \<equiv> ''METRICS''"
abbreviation SNTMCIKey :: string where "SNTMCIKey \<equiv> ''SNT_MCI''"
abbreviation MetricGeneralKey :: string where "MetricGeneralKey \<equiv> ''general''"
abbreviation SNTMCIDCRKey :: string where "SNTMCIDCRKey \<equiv> ''DCR''"
abbreviation DCRMCICTRLKey :: string where "DCRMCICTRLKey \<equiv> ''MCI_CTRL''"
abbreviation BusIdKey :: string where "BusIdKey \<equiv> ''sen_bus_id''"
abbreviation EnableKey :: string where "EnableKey \<equiv> ''enable''"
abbreviation PathKey :: string where "PathKey \<equiv> ''path''"
abbreviation MultiSpyreConfigPathKey :: string where "MultiSpyreConfigPathKey \<equiv> ''multi_aiu_config_path''"
abbreviation EnableRISCVKey :: string where "EnableRISCVKey \<equiv> ''ENABLE_RISCV''"

section \<open>Nested maps\<close>

fun nested_map :: "string list \<Rightarrow> obj \<Rightarrow> obj option" where
  "nested_map [] m = Some m"
| "nested_map (k # ks) m = Option.bind (Option.bind (obj_get m k) as_map) (nested_map ks)"

fun nested_set :: "string list \<Rightarrow> string \<Rightarrow> any \<Rightarrow> obj \<Rightarrow> obj option" where
  "nested_set [] k v m = Some (obj_set m k v)"
| "nested_set (k' # ks) k v m =
     (case Option.bind (obj_get m k') as_map of
        None \<Rightarrow> None
      | Some m' \<Rightarrow> map_option (\<lambda>m''. obj_set m k' (AMap m'')) (nested_set ks k v m'))"

definition nested_get :: "string list \<Rightarrow> string \<Rightarrow> obj \<Rightarrow> any option" where
  "nested_get ks k m = Option.bind (nested_map ks m) (\<lambda>m'. obj_get m' k)"

section \<open>The generator\<close>

definition SharedMetricPath :: string where "SharedMetricPath = ''/data/multi-aiu-sentientmap''"
definition SharedMetricPathFormat :: "string \<Rightarrow> string" where "SharedMetricPathFormat b = ''/data/sentientmap_'' @ b"
definition SharedMultiSpyreConfigPath :: string where "SharedMultiSpyreConfigPath = ''/data/multi-aiu-config''"
definition LocalMetricPath :: string where "LocalMetricPath = ''./sentientmap''"
definition LocalMultiSpyreConfigPath :: string where "LocalMultiSpyreConfigPath = ''/tmp/testing''"
definition UnknownDevice :: string where "UnknownDevice = ''unknown''"

record SenlibConfigGenerator =
  templateFilePath :: string

definition NewSenlibConfigGenerator :: "world \<Rightarrow> SenlibConfigGenerator" where
  "NewSenlibConfigGenerator w = \<lparr>templateFilePath =
     GetEnvOrDefault w TemplatePathKey ''/etc/senlib-config-template'' @ ''/'' @ GetConfigFileName w\<rparr>"

definition ErrNoGeneralKey :: err where "ErrNoGeneralKey = Msg ''cannot find GENERAL config''"

text \<open>One \<open>if _, ok := m[..][k]; !ok\<close> of \<open>modifyRISCVContent\<close>.\<close>

definition ensure_map :: "string list \<Rightarrow> string \<Rightarrow> obj \<Rightarrow> obj option" where
  "ensure_map ks k m =
     (case nested_map ks m of
        None \<Rightarrow> None
      | Some inner \<Rightarrow> if obj_get inner k = None then nested_set ks k (AMap []) m else Some m)"

definition modifyRISCVContent :: "ProductID \<Rightarrow> obj \<Rightarrow> obj option" where
  "modifyRISCVContent p m =
     (if p = ProductIDVf then Some m
      else
        Option.bind (ensure_map [] SNTMCIKey m) (\<lambda>m1.
        Option.bind (ensure_map [SNTMCIKey] SNTMCIDCRKey m1) (\<lambda>m2.
        Option.bind (ensure_map [SNTMCIKey, SNTMCIDCRKey] DCRMCICTRLKey m2) (\<lambda>m3.
          nested_set [SNTMCIKey, SNTMCIDCRKey, DCRMCICTRLKey] EnableRISCVKey (AStr ''0x0'') m3))))"

definition set_general :: "string \<Rightarrow> any \<Rightarrow> obj \<Rightarrow> obj option" where
  "set_general k v m = nested_set [GeneralKey] k v m"

definition local_metrics :: "string list \<Rightarrow> obj \<Rightarrow> obj option" where
  "local_metrics busIds m =
     (if length busIds > 1 then set_general MultiSpyreConfigPathKey (AStr LocalMultiSpyreConfigPath) m else Some m)"

definition local_metric_general :: any where
  "local_metric_general = AMap [(EnableKey, ABool False), (PathKey, AStr LocalMetricPath)]"

definition metricBusId :: "string list \<Rightarrow> string" where
  "metricBusId busIds = (case busIds of [b] \<Rightarrow> if b \<noteq> [] then b else UnknownDevice | _ \<Rightarrow> UnknownDevice)"

text \<open>The METRICS part: the error set on the way, and the map (\<open>None\<close>: a panic).\<close>

definition setMetrics :: "string list \<Rightarrow> obj \<Rightarrow> err option \<times> obj option" where
  "setMetrics busIds m =
     (case obj_get m MetricsKey of
        None \<Rightarrow> (None, local_metrics busIds (obj_set m MetricsKey (AMap [(MetricGeneralKey, local_metric_general)])))
      | Some mv \<Rightarrow>
     (case as_map mv of
        None \<Rightarrow> (Some (Msg ''failed to parse METRICS''), Some m)
      | Some mc \<Rightarrow>
     (case obj_get mc MetricGeneralKey of
        None \<Rightarrow> (None, Option.bind (nested_set [MetricsKey] MetricGeneralKey local_metric_general m) (local_metrics busIds))
      | Some gv \<Rightarrow>
     (case as_map gv of
        None \<Rightarrow> (Some (Msg ''failed to parse METRICS.general''), Some m)
      | Some gc \<Rightarrow>
     (case obj_get gc EnableKey of
        None \<Rightarrow> (None, Some m)
      | Some ev \<Rightarrow>
          (None,
           if as_bool ev = Some True then
             (if length busIds \<le> 1
              then nested_set [MetricsKey, MetricGeneralKey] PathKey (AStr (SharedMetricPathFormat (metricBusId busIds))) m
              else Option.bind (nested_set [MetricsKey, MetricGeneralKey] PathKey (AStr SharedMetricPath) m)
                     (set_general MultiSpyreConfigPathKey (AStr SharedMultiSpyreConfigPath)))
           else Option.bind (nested_set [MetricsKey, MetricGeneralKey] PathKey (AStr LocalMetricPath) m)
                  (local_metrics busIds)))))))"

text \<open>
  \<open>json.Unmarshal\<close> into a \<^verbatim>\<open>map[string]any\<close>: of two members with the same key the
  last is kept, a number that is out of range is an error, and \<open>null\<close> leaves the map nil.
\<close>

definition unmarshal_map :: "world \<Rightarrow> content \<Rightarrow> obj option" where
  "unmarshal_map w c =
     (case c of
        Doc v \<Rightarrow>
          (case decObj (floats w) (plain v) None of
             (m, bad) \<Rightarrow> if bad then None else Some (case m of None \<Rightarrow> [] | Some m' \<Rightarrow> m'))
      | _ \<Rightarrow> None)"

definition configOf :: "ProductID \<Rightarrow> string list \<Rightarrow> obj \<Rightarrow> err + any" where
  "configOf p busIds m =
     (case obj_get m GeneralKey of
        None \<Rightarrow> Inl ErrNoGeneralKey
      | Some gv \<Rightarrow>
     (case as_map gv of
        None \<Rightarrow> Inl (Msg ''failed to parse GENERAL'')
      | Some g \<Rightarrow>
     (case Option.bind (set_general BusIdKey (AStrs busIds) m) (set_general ''doom'' (ABool (p = ProductIDVf))) of
        None \<Rightarrow> Inl (GoPanic ''interface conversion'')
      | Some m1 \<Rightarrow>
     (case setMetrics busIds m1 of (e, r) \<Rightarrow>
     (case Option.bind r (modifyRISCVContent p) of
        None \<Rightarrow> Inl (GoPanic ''interface conversion'')
      | Some m2 \<Rightarrow> (case e of Some e' \<Rightarrow> Inl e' | None \<Rightarrow> Inr (AMap m2)))))))"

definition GenerateConfigContent ::
    "SenlibConfigGenerator \<Rightarrow> world \<Rightarrow> ProductID \<Rightarrow> string list \<Rightarrow> err + any" where
  "GenerateConfigContent g w p busIds =
     (case ReadFile w (templateFilePath g) of
        Inl e \<Rightarrow> Inl (Wrapped ''error opening file'' e)
      | Inr c \<Rightarrow>
          (case unmarshal_map w c of
             None \<Rightarrow> Inl (Msg ''error unmarshalling JSON'')
           | Some m \<Rightarrow> configOf p busIds m))"

definition GenerateConfigFile ::
    "SenlibConfigGenerator \<Rightarrow> world \<Rightarrow> ProductID \<Rightarrow> string list \<Rightarrow> string \<Rightarrow> err option \<times> world" where
  "GenerateConfigFile g w p busIds outputPath =
     (case GenerateConfigContent g w p busIds of
        Inl e \<Rightarrow> (Some e, w)
      | Inr content \<Rightarrow> WriteTo w (Join [outputPath, GetConfigFileName w]) (Doc content))"

section \<open>Lemmas\<close>

lemma nested_get_simps [simp]:
  "nested_get [] k m = obj_get m k"
  "nested_get (k' # ks) k m = Option.bind (Option.bind (obj_get m k') as_map) (nested_get ks k)"
  by (simp_all add: nested_get_def [abs_def] Option.bind_assoc)

lemma nested_set_get: "nested_set ks k v m = Some m' \<Longrightarrow> nested_get ks k m' = Some v"
  by (induction ks k v m arbitrary: m' rule: nested_set.induct) (auto split: option.splits)

lemma nested_set_other: "nested_set ks k v m = Some m' \<Longrightarrow> k' \<noteq> k \<Longrightarrow> nested_get ks k' m' = nested_get ks k' m"
  by (induction ks k v m arbitrary: m' rule: nested_set.induct) (auto simp: bind_eq_Some_conv split: option.splits)

lemma nested_set_top: "nested_set (k' # ks) k v m = Some m' \<Longrightarrow> x \<noteq> k' \<Longrightarrow> obj_get m' x = obj_get m x"
  by (auto split: option.splits)

lemma ensure_map_top: "ensure_map ks k m = Some m' \<Longrightarrow> x \<noteq> (case ks of [] \<Rightarrow> k | k' # _ \<Rightarrow> k') \<Longrightarrow> obj_get m' x = obj_get m x"
  by (cases ks) (auto simp: ensure_map_def split: option.splits if_splits)

text \<open>
  What a document keeps of another: every value whose path is parallel to the paths of \<open>W\<close>,
  neither above nor below one of them.
\<close>

definition agrees_off :: "string list set \<Rightarrow> obj \<Rightarrow> obj \<Rightarrow> bool" where
  "agrees_off W m m' \<longleftrightarrow>
     (\<forall>qs q. (\<forall>P \<in> W. parallel P (qs @ [q])) \<longrightarrow> nested_get qs q m' = nested_get qs q m)"

lemma agrees_off_refl [simp, intro]: "agrees_off W m m"
  by (simp add: agrees_off_def)

lemma agrees_off_trans: "agrees_off W m m1 \<Longrightarrow> agrees_off W m1 m2 \<Longrightarrow> agrees_off W m m2"
  by (simp add: agrees_off_def)

lemma agrees_off_mono: "agrees_off V m m' \<Longrightarrow> V \<subseteq> W \<Longrightarrow> agrees_off W m m'"
  unfolding agrees_off_def by blast

lemma nested_set_agrees: "nested_set ks k v m = Some m' \<Longrightarrow> agrees_off {ks @ [k]} m m'"
proof (induction ks k v m arbitrary: m' rule: nested_set.induct)
  case (1 k v m)
  have "nested_get qs q m' = nested_get qs q m" if "parallel [k] (qs @ [q])" for qs q
    using that 1 by (cases qs) (auto simp: parallel_def)
  then show ?case by (simp add: agrees_off_def)
next
  case (2 k' ks k v m)
  obtain n n' where n: "Option.bind (obj_get m k') as_map = Some n" "nested_set ks k v n = Some n'" "m' = obj_set m k' (AMap n')"
    using 2(2) by (auto split: option.splits)
  have ih: "agrees_off {ks @ [k]} n n'" using 2(1) n by simp
  have "nested_get qs q m' = nested_get qs q m" if "parallel (k' # ks @ [k]) (qs @ [q])" for qs q
  proof (cases qs)
    case Nil
    with that n(3) show ?thesis by (auto simp: parallel_def)
  next
    case (Cons a qs')
    then show ?thesis using that n ih by (cases "a = k'") (auto simp: agrees_off_def parallel_def)
  qed
  then show ?case by (simp add: agrees_off_def)
qed

lemma nested_get_append:
  "nested_get (ks @ k # qs) q m = Option.bind (Option.bind (nested_get ks k m) as_map) (nested_get qs q)"
  by (induction ks arbitrary: m) (auto simp: Option.bind_assoc split: Option.bind_splits)

text \<open>Below a map that was missing there is nothing to keep.\<close>

lemma ensure_map_agrees:
  assumes "ensure_map ks k m = Some m'"
  shows "agrees_off {ks @ k # ks'} m m'"
proof (cases "nested_get ks k m = None")
  case True
  with assms have set: "nested_set ks k (AMap []) m = Some m'"
    by (auto simp: ensure_map_def nested_get_def split: option.splits)
  have "nested_get qs q m' = nested_get qs q m" if P: "parallel (ks @ k # ks') (qs @ [q])" for qs q
  proof (cases "prefix (ks @ [k]) (qs @ [q])")
    case True
    then obtain zs where zs: "qs @ [q] = (ks @ [k]) @ zs" by (auto simp: prefix_def)
    moreover have "zs \<noteq> []" using P zs by (auto simp: parallel_def)
    ultimately obtain qs' where "qs = ks @ k # qs'" by (cases zs rule: rev_cases) auto
    then show ?thesis
      using \<open>nested_get ks k m = None\<close> nested_set_get [OF set] by (cases qs') (simp_all add: nested_get_append)
  next
    case False
    moreover have "\<not> prefix (qs @ [q]) (ks @ [k])" using P prefix_order.trans [of "qs @ [q]" "ks @ [k]" "ks @ k # ks'"] by (auto simp: parallel_def)
    ultimately show ?thesis using nested_set_agrees [OF set] by (simp add: agrees_off_def parallel_def)
  qed
  then show ?thesis by (simp add: agrees_off_def)
next
  case False
  with assms have "m' = m" by (auto simp: ensure_map_def nested_get_def split: option.splits)
  then show ?thesis by simp
qed


text \<open>The chain of type assertions of \<open>modifyRISCVContent\<close> goes through.\<close>

definition riscv_ok :: "obj \<Rightarrow> bool" where
  "riscv_ok m =
     (case obj_get m ''SNT_MCI'' of None \<Rightarrow> True | Some v \<Rightarrow>
     (case as_map v of None \<Rightarrow> False | Some s \<Rightarrow>
     (case obj_get s ''DCR'' of None \<Rightarrow> True | Some v \<Rightarrow>
     (case as_map v of None \<Rightarrow> False | Some d \<Rightarrow>
     (case obj_get d ''MCI_CTRL'' of None \<Rightarrow> True | Some v \<Rightarrow> as_map v \<noteq> None)))))"

lemma modifyRISCVContent_total: "modifyRISCVContent p m = None \<longleftrightarrow> p \<noteq> ProductIDVf \<and> \<not> riscv_ok m"
  by (auto simp: modifyRISCVContent_def ensure_map_def riscv_ok_def split: option.splits)

lemma modifyRISCVContent_effect:
  assumes "modifyRISCVContent p m = Some r"
  shows "(k \<noteq> ''SNT_MCI'' \<longrightarrow> obj_get r k = obj_get m k) \<and> (p = ProductIDVf \<longrightarrow> r = m) \<and>
    (p \<noteq> ProductIDVf \<longrightarrow> nested_get [''SNT_MCI'', ''DCR'', ''MCI_CTRL''] ''ENABLE_RISCV'' r = Some (AStr ''0x0''))"
proof (cases "p = ProductIDVf")
  case True
  with assms show ?thesis by (simp add: modifyRISCVContent_def)
next
  case False
  with assms obtain m1 m2 m3 where m: "ensure_map [] ''SNT_MCI'' m = Some m1" "ensure_map [''SNT_MCI''] ''DCR'' m1 = Some m2"
      "ensure_map [''SNT_MCI'', ''DCR''] ''MCI_CTRL'' m2 = Some m3"
      "nested_set [''SNT_MCI'', ''DCR'', ''MCI_CTRL''] ''ENABLE_RISCV'' (AStr ''0x0'') m3 = Some r"
    by (auto simp: modifyRISCVContent_def bind_eq_Some_conv)
  have "obj_get r k = obj_get m k" if "k \<noteq> ''SNT_MCI''"
    using ensure_map_top [OF m(1)] ensure_map_top [OF m(2)] ensure_map_top [OF m(3)] nested_set_top [OF m(4)] that by simp
  with False nested_set_get [OF m(4)] show ?thesis by blast
qed

text \<open>What the metrics part leaves: the metrics path and the multi-device path, as a table.\<close>

definition metrics_path :: "string list \<Rightarrow> obj \<Rightarrow> any option" where
  "metrics_path ids m =
     (if nested_get [''METRICS''] ''general'' m = None then Some (AStr LocalMetricPath)
      else case nested_get [''METRICS'', ''general''] ''enable'' m of
        None \<Rightarrow> nested_get [''METRICS'', ''general''] ''path'' m
      | Some e \<Rightarrow> Some (AStr (if e = ABool True
                         then (if length ids \<le> 1 then SharedMetricPathFormat (metricBusId ids) else SharedMetricPath)
                         else LocalMetricPath)))"

definition multi_path :: "string list \<Rightarrow> obj \<Rightarrow> any option" where
  "multi_path ids m =
     (if length ids \<le> 1 then nested_get [''GENERAL''] ''multi_aiu_config_path'' m
      else if nested_get [''METRICS''] ''general'' m = None then Some (AStr LocalMultiSpyreConfigPath)
      else case nested_get [''METRICS'', ''general''] ''enable'' m of
        None \<Rightarrow> nested_get [''GENERAL''] ''multi_aiu_config_path'' m
      | Some e \<Rightarrow> Some (AStr (if e = ABool True then SharedMultiSpyreConfigPath else LocalMultiSpyreConfigPath)))"

text \<open>METRICS and METRICS.general, where present, are objects.\<close>

definition metrics_ok :: "obj \<Rightarrow> bool" where
  "metrics_ok m =
     (case obj_get m ''METRICS'' of None \<Rightarrow> True | Some v \<Rightarrow>
     (case as_map v of None \<Rightarrow> False | Some mc \<Rightarrow>
     (case obj_get mc ''general'' of None \<Rightarrow> True | Some v \<Rightarrow> as_map v \<noteq> None)))"

lemma as_bool_True: "as_bool v = Some True \<longleftrightarrow> v = ABool True"
  by (cases v) auto

lemma setMetrics_ok:
  assumes "obj_get m ''GENERAL'' = Some (AMap g)"
  shows "(\<exists>r. snd (setMetrics ids m) = Some r) \<and> (fst (setMetrics ids m) = None \<longleftrightarrow> metrics_ok m)"
  using assms
  by (auto simp: setMetrics_def metrics_ok_def local_metrics_def set_general_def split: option.splits)

lemma setMetrics_effect:
  assumes g: "obj_get m ''GENERAL'' = Some (AMap g)" and r: "setMetrics ids m = (e, Some r)"
  shows "(k \<notin> {''GENERAL'', ''METRICS''} \<longrightarrow> obj_get r k = obj_get m k) \<and>
    (k \<noteq> ''multi_aiu_config_path'' \<longrightarrow> nested_get [''GENERAL''] k r = nested_get [''GENERAL''] k m) \<and>
    (e = None \<longrightarrow> nested_get [''METRICS'', ''general''] ''path'' r = metrics_path ids m \<and>
                nested_get [''GENERAL''] ''multi_aiu_config_path'' r = multi_path ids m \<and>
                (nested_get [''METRICS''] ''general'' m = None \<longrightarrow> nested_get [''METRICS''] ''general'' r = Some local_metric_general))"
  using r g
  by (auto simp: setMetrics_def local_metrics_def set_general_def metrics_path_def multi_path_def local_metric_general_def
      as_bool_True split: option.splits if_splits)

text \<open>
  The paths the generator writes.  Where the template has no METRICS.general the whole map is
  written, otherwise only its path.
\<close>

definition metrics_written :: "obj \<Rightarrow> string list set" where
  "metrics_written m = {[''GENERAL'', ''multi_aiu_config_path''],
     if nested_get [''METRICS''] ''general'' m = None then [''METRICS'', ''general''] else [''METRICS'', ''general'', ''path'']}"

definition written :: "ProductID \<Rightarrow> obj \<Rightarrow> string list set" where
  "written p m = {[''GENERAL'', ''sen_bus_id''], [''GENERAL'', ''doom'']} \<union> metrics_written m \<union>
     (if p = ProductIDVf then {} else {[''SNT_MCI'', ''DCR'', ''MCI_CTRL'', ''ENABLE_RISCV'']})"

lemma local_metrics_agrees: "local_metrics ids m = Some r \<Longrightarrow> agrees_off {[''GENERAL'', ''multi_aiu_config_path'']} m r"
  using nested_set_agrees [of "[''GENERAL'']" "''multi_aiu_config_path''"]
  by (auto simp: local_metrics_def set_general_def split: if_splits)

lemma setMetrics_agrees:
  assumes "setMetrics ids m = (None, Some r)"
  shows "agrees_off (metrics_written m) m r"
proof -
  let ?G = "{[''GENERAL'', ''multi_aiu_config_path'']}"
  note set = nested_set_agrees [of "[''METRICS'']" "''general''" local_metric_general m]
    nested_set_agrees [of "[''METRICS'', ''general'']" "''path''" _ m]
  have multi: "agrees_off ?G m0 r" if "local_metrics ids m0 = Some r \<or> set_general ''multi_aiu_config_path'' v m0 = Some r" for m0 v
    using that local_metrics_agrees nested_set_agrees [of "[''GENERAL'']" "''multi_aiu_config_path''" v m0 r] by (auto simp: set_general_def)
  have "\<exists>m0 P. P \<in> metrics_written m \<and> agrees_off {P} m m0 \<and> agrees_off ?G m0 r"
  proof (cases "obj_get m ''METRICS''")
    case None
    let ?m0 = "obj_set m ''METRICS'' (AMap [(''general'', local_metric_general)])"
    have "nested_get qs q ?m0 = nested_get qs q m" if "parallel [''METRICS'', ''general''] (qs @ [q])" for qs q
      using that None by (cases qs; cases "tl qs") (auto simp: parallel_def)
    then have "agrees_off {[''METRICS'', ''general'']} m ?m0" by (simp add: agrees_off_def)
    moreover have "[''METRICS'', ''general''] \<in> metrics_written m" using None by (simp add: metrics_written_def)
    ultimately show ?thesis using None assms multi by (auto simp: setMetrics_def)
  next
    case (Some mv)
    then obtain mc where mc: "as_map mv = Some mc" using assms by (auto simp: setMetrics_def split: option.splits)
    show ?thesis
    proof (cases "obj_get mc ''general''")
      case None
      then have "[''METRICS'', ''general''] \<in> metrics_written m" using Some mc by (simp add: metrics_written_def)
      moreover obtain m0 where "nested_set [''METRICS''] ''general'' local_metric_general m = Some m0" "local_metrics ids m0 = Some r"
        using assms Some mc None unfolding setMetrics_def by (auto simp: bind_eq_Some_conv simp del: nested_set.simps)
      ultimately show ?thesis using set(1) multi by fastforce
    next
      case (Some gv)
      then have P: "[''METRICS'', ''general'', ''path''] \<in> metrics_written m"
        using \<open>obj_get m ''METRICS'' = Some mv\<close> mc by (simp add: metrics_written_def)
      have "r = m \<or> (\<exists>v m0. nested_set [''METRICS'', ''general''] ''path'' v m = Some m0 \<and>
          (r = m0 \<or> local_metrics ids m0 = Some r \<or> (\<exists>v. set_general ''multi_aiu_config_path'' v m0 = Some r)))"
        using assms \<open>obj_get m ''METRICS'' = Some mv\<close> mc Some unfolding setMetrics_def
        by (auto simp: bind_eq_Some_conv simp del: nested_set.simps split: option.splits if_splits)
      then show ?thesis using P set(2) multi by fastforce
    qed
  qed
  then obtain m0 P where P: "P \<in> metrics_written m" "agrees_off {P} m m0" "agrees_off ?G m0 r" by blast
  have "agrees_off (metrics_written m) m m0" by (rule agrees_off_mono [OF P(2)]) (simp add: P(1))
  moreover have "agrees_off (metrics_written m) m0 r" by (rule agrees_off_mono [OF P(3)]) (simp add: metrics_written_def)
  ultimately show ?thesis by (rule agrees_off_trans)
qed

lemma modifyRISCVContent_agrees:
  assumes "modifyRISCVContent p m = Some r"
  shows "agrees_off (if p = ProductIDVf then {} else {[''SNT_MCI'', ''DCR'', ''MCI_CTRL'', ''ENABLE_RISCV'']}) m r"
proof (cases "p = ProductIDVf")
  case True
  with assms show ?thesis by (simp add: modifyRISCVContent_def)
next
  case False
  let ?W = "{[''SNT_MCI'', ''DCR'', ''MCI_CTRL'', ''ENABLE_RISCV'']}"
  obtain m1 m2 m3 where m: "ensure_map [] ''SNT_MCI'' m = Some m1" "ensure_map [''SNT_MCI''] ''DCR'' m1 = Some m2"
      "ensure_map [''SNT_MCI'', ''DCR''] ''MCI_CTRL'' m2 = Some m3"
      "nested_set [''SNT_MCI'', ''DCR'', ''MCI_CTRL''] ''ENABLE_RISCV'' (AStr ''0x0'') m3 = Some r"
    using assms False by (auto simp: modifyRISCVContent_def bind_eq_Some_conv)
  have "agrees_off ?W m m1" "agrees_off ?W m1 m2" "agrees_off ?W m2 m3" "agrees_off ?W m3 r"
    using ensure_map_agrees [OF m(1), of "[''DCR'', ''MCI_CTRL'', ''ENABLE_RISCV'']"]
      ensure_map_agrees [OF m(2), of "[''MCI_CTRL'', ''ENABLE_RISCV'']"] ensure_map_agrees [OF m(3), of "[''ENABLE_RISCV'']"]
      nested_set_agrees [OF m(4)] by simp_all
  then have "agrees_off ?W m r" by (blast intro: agrees_off_trans)
  with False show ?thesis by simp
qed

lemma configOf_cases:
  assumes g: "obj_get m ''GENERAL'' = Some (AMap g)"
  obtains m1 r e where
    "obj_get m1 ''GENERAL'' = Some (AMap (obj_set (obj_set g ''sen_bus_id'' (AStrs ids)) ''doom'' (ABool (p = ProductIDVf))))"
    "\<And>k. k \<noteq> ''GENERAL'' \<Longrightarrow> obj_get m1 k = obj_get m k" "setMetrics ids m1 = (e, Some r)"
    "configOf p ids m = (case modifyRISCVContent p r of None \<Rightarrow> Inl (GoPanic ''interface conversion'')
       | Some m2 \<Rightarrow> (case e of Some e' \<Rightarrow> Inl e' | None \<Rightarrow> Inr (AMap m2)))"
proof -
  let ?m1 = "obj_set (obj_set m ''GENERAL'' (AMap (obj_set g ''sen_bus_id'' (AStrs ids)))) ''GENERAL''
      (AMap (obj_set (obj_set g ''sen_bus_id'' (AStrs ids)) ''doom'' (ABool (p = ProductIDVf))))"
  have m1: "obj_get ?m1 ''GENERAL'' = Some (AMap (obj_set (obj_set g ''sen_bus_id'' (AStrs ids)) ''doom'' (ABool (p = ProductIDVf))))"
    by simp
  obtain r where r: "snd (setMetrics ids ?m1) = Some r" using setMetrics_ok [OF m1, of ids] by blast
  then obtain e where e: "setMetrics ids ?m1 = (e, Some r)" by (metis prod.collapse)
  have "configOf p ids m = (case setMetrics ids ?m1 of (e, r) \<Rightarrow>
     (case Option.bind r (modifyRISCVContent p) of
        None \<Rightarrow> Inl (GoPanic ''interface conversion'')
      | Some m2 \<Rightarrow> (case e of Some e' \<Rightarrow> Inl e' | None \<Rightarrow> Inr (AMap m2))))"
    using g by (simp add: configOf_def set_general_def)
  then have c: "configOf p ids m = (case modifyRISCVContent p r of None \<Rightarrow> Inl (GoPanic ''interface conversion'')
       | Some m2 \<Rightarrow> (case e of Some e' \<Rightarrow> Inl e' | None \<Rightarrow> Inr (AMap m2)))"
    unfolding e by simp
  show thesis by (rule that [OF m1 _ e c]) simp
qed

lemma general_agrees:
  assumes "obj_get m ''GENERAL'' = Some (AMap g)"
    and "obj_get m1 ''GENERAL'' = Some (AMap (obj_set (obj_set g ''sen_bus_id'' v) ''doom'' v'))"
    and "\<And>k. k \<noteq> ''GENERAL'' \<Longrightarrow> obj_get m1 k = obj_get m k"
  shows "agrees_off {[''GENERAL'', ''sen_bus_id''], [''GENERAL'', ''doom'']} m m1"
proof -
  have "nested_get qs q m1 = nested_get qs q m"
    if "parallel [''GENERAL'', ''sen_bus_id''] (qs @ [q])" "parallel [''GENERAL'', ''doom''] (qs @ [q])" for qs q
  proof (cases qs)
    case (Cons a qs')
    then show ?thesis using that assms by (cases "a = ''GENERAL''"; cases qs') (auto simp: parallel_def)
  qed (use that assms(3) in \<open>auto simp: parallel_def\<close>)
  then show ?thesis by (simp add: agrees_off_def)
qed

lemma metrics_ok_cong: "obj_get m1 ''METRICS'' = obj_get m ''METRICS'' \<Longrightarrow> metrics_ok m1 = metrics_ok m"
  by (simp add: metrics_ok_def)

lemma riscv_ok_cong: "obj_get m1 ''SNT_MCI'' = obj_get m ''SNT_MCI'' \<Longrightarrow> riscv_ok m1 = riscv_ok m"
  by (simp add: riscv_ok_def)

section \<open>Properties\<close>

text \<open>
  C17. What a generated configuration says: the bus ids and \<open>doom\<close> (true exactly for VFs) in
  GENERAL; the metrics path and the multi-device path by whether metrics are enabled and whether
  there is more than one device; METRICS.general disabled with the local path where the template
  has none; \<open>ENABLE_RISCV\<close> off for PFs.  The rest of the template is kept at every depth: a value
  is as it was unless its path lies above or below a path that is written, so also what METRICS,
  METRICS.general and a PF's SNT\_MCI, DCR and MCI\_CTRL hold beside, and for VFs all of SNT\_MCI.
\<close>

theorem config_content:
  assumes "ReadFile w (templateFilePath g) = Inr c" "unmarshal_map w c = Some m"
    and "GenerateConfigContent g w p ids = Inr (AMap r)"
  shows "nested_get [''GENERAL''] ''sen_bus_id'' r = Some (AStrs ids) \<and>
    nested_get [''GENERAL''] ''doom'' r = Some (ABool (p = ProductIDVf)) \<and>
    nested_get [''METRICS'', ''general''] ''path'' r = metrics_path ids m \<and>
    nested_get [''GENERAL''] ''multi_aiu_config_path'' r = multi_path ids m \<and>
    (nested_get [''METRICS''] ''general'' m = None \<longrightarrow> nested_get [''METRICS''] ''general'' r = Some local_metric_general) \<and>
    (p \<noteq> ProductIDVf \<longrightarrow> nested_get [''SNT_MCI'', ''DCR'', ''MCI_CTRL''] ''ENABLE_RISCV'' r = Some (AStr ''0x0'')) \<and>
    agrees_off (written p m) m r"
proof -
  have c: "configOf p ids m = Inr (AMap r)" using assms by (simp add: GenerateConfigContent_def)
  then obtain gg where gg: "obj_get m ''GENERAL'' = Some (AMap gg)"
    by (auto simp: configOf_def split: option.splits elim!: as_map.elims)
  obtain m1 r1 where m1: "obj_get m1 ''GENERAL'' = Some (AMap (obj_set (obj_set gg ''sen_bus_id'' (AStrs ids)) ''doom'' (ABool (p = ProductIDVf))))"
      "\<And>k. k \<noteq> ''GENERAL'' \<Longrightarrow> obj_get m1 k = obj_get m k" "setMetrics ids m1 = (None, Some r1)"
      and r: "modifyRISCVContent p r1 = Some r"
    by (rule configOf_cases [OF gg, of ids p]) (use c in \<open>auto split: option.splits\<close>)
  have start: "agrees_off {[''GENERAL'', ''sen_bus_id''], [''GENERAL'', ''doom'']} m m1"
    by (rule general_agrees [OF gg m1(1,2)])
  have same: "nested_get [''METRICS''] k m1 = nested_get [''METRICS''] k m"
      "nested_get [''METRICS'', ''general''] k m1 = nested_get [''METRICS'', ''general''] k m"
      "nested_get [''GENERAL''] ''multi_aiu_config_path'' m1 = nested_get [''GENERAL''] ''multi_aiu_config_path'' m" for k
    using m1(1,2) gg by simp_all
  have eq: "metrics_path ids m1 = metrics_path ids m" "multi_path ids m1 = multi_path ids m"
      "metrics_written m1 = metrics_written m"
    unfolding metrics_path_def multi_path_def metrics_written_def by (simp_all only: same)
  have "agrees_off (written p m) m m1" "agrees_off (written p m) m1 r1" "agrees_off (written p m) r1 r"
    by (rule agrees_off_mono [OF start] agrees_off_mono [OF setMetrics_agrees [OF m1(3)]]
          agrees_off_mono [OF modifyRISCVContent_agrees [OF r]], force simp: written_def eq)+
  then have frame: "agrees_off (written p m) m r" by (blast intro: agrees_off_trans)
  note R = modifyRISCVContent_effect [OF r]
  have top: "nested_get [''GENERAL''] k r = nested_get [''GENERAL''] k r1" "nested_get [''METRICS''] k r = nested_get [''METRICS''] k r1"
      "nested_get [''METRICS'', ''general''] k r = nested_get [''METRICS'', ''general''] k r1" for k
    using R by simp_all
  have M: "nested_get [''METRICS'', ''general''] ''path'' r1 = metrics_path ids m"
      "nested_get [''GENERAL''] ''multi_aiu_config_path'' r1 = multi_path ids m"
      "nested_get [''METRICS''] ''general'' m = None \<longrightarrow> nested_get [''METRICS''] ''general'' r1 = Some local_metric_general"
      "\<And>k. k \<noteq> ''multi_aiu_config_path'' \<Longrightarrow> nested_get [''GENERAL''] k r1 = nested_get [''GENERAL''] k m1"
    using setMetrics_effect [OF m1(1,3)] unfolding eq same by blast+
  have v: "nested_get [''GENERAL''] ''sen_bus_id'' m1 = Some (AStrs ids)"
      "nested_get [''GENERAL''] ''doom'' m1 = Some (ABool (p = ProductIDVf))"
    by (simp_all add: m1(1))
  have gen: "nested_get [''GENERAL''] k r = nested_get [''GENERAL''] k m1" if "k \<noteq> ''multi_aiu_config_path''" for k
    using M(4) [OF that] top(1) by (rule trans [rotated])
  have "nested_get [''GENERAL''] ''sen_bus_id'' r = Some (AStrs ids)"
      "nested_get [''GENERAL''] ''doom'' r = Some (ABool (p = ProductIDVf))"
    using gen [of "''sen_bus_id''"] gen [of "''doom''"] v by (simp_all del: nested_get_simps)
  then show ?thesis using M(1-3) R frame unfolding top by blast
qed

definition sample_template :: obj where
  "sample_template = [(''GENERAL'', AMap [(''version'', ANum ''1'')]),
     (''METRICS'', AMap [(''general'', AMap [(''enable'', ABool True)])]),
     (''SNT_MCI'', AMap [(''DCR'', AMap [(''mode'', ANum ''2'')])])]"

definition template_world :: "any \<Rightarrow> world" where
  "template_world t = sample_world\<lparr>files := [([''/'', ''t''], File (Doc t))], faults := (\<lambda>op p. None)\<rparr>"

definition sample_generator :: SenlibConfigGenerator where
  "sample_generator = \<lparr>templateFilePath = ''/t''\<rparr>"

lemma read_template: "ReadFile (template_world t) (templateFilePath sample_generator) = Inr (Doc t)"
proof -
  have "comps ''/t'' = [''/'', ''t'']" by code_simp
  then show ?thesis
    by (simp add: ReadFile_def Stat_def stat_path_def file_above_def lookup_def template_world_def sample_generator_def)
qed

lemma decoded_template:
  assumes "any_ok sample_floats (AMap m)"
  shows "unmarshal_map (template_world t) (Doc (AMap m)) = Some m"
proof -
  have "plain (AMap m) = AMap m" by (rule plain_from_json [OF any_ok_from_json [OF assms]])
  moreover have "decMembers sample_floats m [] = (m, False)" using decAny_written(3) [of sample_floats m "[]"] assms by simp
  moreover have "floats (template_world t) = sample_floats" by (simp add: template_world_def sample_world_def)
  ultimately show ?thesis by (simp only: unmarshal_map_def content.case decObj.simps option.case prod.case if_False)
qed

theorem config_content_witness:
  "\<exists>r. GenerateConfigContent sample_generator (template_world (AMap sample_template)) ProductIDPf [''0000:1a:00.0''] = Inr (AMap r) \<and>
     nested_get [''METRICS'', ''general''] ''path'' r = Some (AStr ''/data/sentientmap_0000:1a:00.0'') \<and>
     nested_get [''SNT_MCI'', ''DCR''] ''mode'' r = Some (ANum ''2'')"
proof -
  have m: "unmarshal_map (template_world (AMap sample_template)) (Doc (AMap sample_template)) = Some sample_template"
    by (rule decoded_template) (simp add: sample_template_def sample_floats_def)
  have "\<exists>r. configOf ProductIDPf [''0000:1a:00.0''] sample_template = Inr (AMap r)"
    by (simp add: configOf_def sample_template_def set_general_def setMetrics_def modifyRISCVContent_def ensure_map_def
        ProductIDPf_def ProductIDVf_def)
  then obtain r where r: "GenerateConfigContent sample_generator (template_world (AMap sample_template)) ProductIDPf
      [''0000:1a:00.0''] = Inr (AMap r)"
    using m by (auto simp: GenerateConfigContent_def read_template)
  from config_content [OF read_template m r]
  have R: "nested_get [''METRICS'', ''general''] ''path'' r = metrics_path [''0000:1a:00.0''] sample_template"
      "agrees_off (written ProductIDPf sample_template) sample_template r" by simp_all
  have "\<forall>P \<in> written ProductIDPf sample_template. parallel P ([''SNT_MCI'', ''DCR''] @ [''mode''])"
    by (simp add: written_def metrics_written_def sample_template_def parallel_def)
  then have "nested_get [''SNT_MCI'', ''DCR''] ''mode'' r = nested_get [''SNT_MCI'', ''DCR''] ''mode'' sample_template"
    using R(2) unfolding agrees_off_def by blast
  with r R(1) show ?thesis
    by (simp add: metrics_path_def sample_template_def SharedMetricPathFormat_def metricBusId_def)
qed

text \<open>
  C18. The outcome of the generator on every template: an error when GENERAL is missing or not
  an object; a panic when the device is a PF and SNT\_MCI, its DCR or its MCI\_CTRL is present but
  not an object, even when the metrics part is already known to be wrong; an error when METRICS
  or METRICS.general is present but not an object; a configuration otherwise.
\<close>

theorem config_outcome:
  assumes "ReadFile w (templateFilePath g) = Inr c" "unmarshal_map w c = Some m"
  shows "let r = GenerateConfigContent g w p ids in
    if obj_get m ''GENERAL'' = None then r = Inl ErrNoGeneralKey
    else if nested_map [''GENERAL''] m = None then r = Inl (Msg ''failed to parse GENERAL'')
    else if p \<noteq> ProductIDVf \<and> \<not> riscv_ok m then (\<exists>e. r = Inl (GoPanic e))
    else if \<not> metrics_ok m then is_err r \<and> (\<forall>e. r \<noteq> Inl (GoPanic e))
    else (\<exists>d. r = Inr (AMap d))"
proof -
  have c: "GenerateConfigContent g w p ids = configOf p ids m" using assms by (simp add: GenerateConfigContent_def)
  have "obj_get m ''GENERAL'' = None \<or> (\<exists>v. obj_get m ''GENERAL'' = Some v \<and> as_map v = None) \<or>
      (\<exists>gg. obj_get m ''GENERAL'' = Some (AMap gg))"
  proof (cases "obj_get m ''GENERAL''")
    case (Some v)
    then show ?thesis by (cases v) simp_all
  qed simp
  then consider (none) "obj_get m ''GENERAL'' = None" | (bad) v where "obj_get m ''GENERAL'' = Some v" "as_map v = None"
    | (ok) gg where "obj_get m ''GENERAL'' = Some (AMap gg)"
    by fastforce
  then show ?thesis
  proof cases
    case none
    then show ?thesis by (simp add: c configOf_def Let_def)
  next
    case bad
    then show ?thesis by (simp add: c configOf_def Let_def)
  next
    case ok
    obtain m1 r1 e where m1: "obj_get m1 ''GENERAL'' = Some (AMap (obj_set (obj_set gg ''sen_bus_id'' (AStrs ids)) ''doom'' (ABool (p = ProductIDVf))))"
        "\<And>k. k \<noteq> ''GENERAL'' \<Longrightarrow> obj_get m1 k = obj_get m k" "setMetrics ids m1 = (e, Some r1)"
        and cf: "configOf p ids m = (case modifyRISCVContent p r1 of None \<Rightarrow> Inl (GoPanic ''interface conversion'')
         | Some m2 \<Rightarrow> (case e of Some e' \<Rightarrow> Inl e' | None \<Rightarrow> Inr (AMap m2)))"
      by (rule configOf_cases [OF ok, of ids p]) (rule that)
    have rv: "riscv_ok r1 = riscv_ok m"
      using setMetrics_effect [OF m1(1,3), of "''SNT_MCI''"] m1(2) [of "''SNT_MCI''"] by (intro riscv_ok_cong) simp
    have e: "e = None \<longleftrightarrow> metrics_ok m"
      using setMetrics_ok [OF m1(1), of ids] m1(3) metrics_ok_cong [of m1 m] m1(2) [of "''METRICS''"] by simp
    have np: "e \<noteq> Some (GoPanic x)" for x
      using m1(3) by (auto simp: setMetrics_def split: option.splits)
    show ?thesis
      using ok e np modifyRISCVContent_total [of p r1] unfolding c cf rv
      by (cases "modifyRISCVContent p r1"; cases e) (auto simp: Let_def)
  qed
qed

theorem config_outcome_witness:
  "\<exists>e. GenerateConfigContent sample_generator (template_world (AMap [(''GENERAL'', AMap []), (''SNT_MCI'', AStr ''off'')]))
     ProductIDPf [] = Inl (GoPanic e)"
proof -
  let ?m = "[(''GENERAL'', AMap []), (''SNT_MCI'', AStr ''off'')] :: obj"
  have dec: "unmarshal_map (template_world (AMap ?m)) (Doc (AMap ?m)) = Some ?m" by (rule decoded_template) simp
  have "obj_get ?m ''GENERAL'' \<noteq> None" "nested_map [''GENERAL''] ?m \<noteq> None"
      "ProductIDPf \<noteq> ProductIDVf \<and> \<not> riscv_ok ?m"
    by (simp_all add: riscv_ok_def ProductIDPf_def ProductIDVf_def)
  then show ?thesis
    using config_outcome [OF read_template dec, of ProductIDPf "[]"]
    unfolding Let_def by argo
qed

end
