(* ===== verification/ConfigMounts.thy ===== *)
theory ConfigMounts
  imports Discovery SenlibConfig
begin

text \<open>
  \<^verbatim>\<open>internal/handler/config\<close>: \<^verbatim>\<open>config.go\<close>, \<^verbatim>\<open>metrics.go\<close>
  and \<^verbatim>\<open>pod_info_writer.go\<close>.  \<open>InitConfigMount\<close> fills the package
  variables (\<^verbatim>\<open>config_vars\<close>); \<open>GetConfigMetricsMount\<close> makes the fresh config
  and metrics folders of a claim and returns the two mounts.
\<close>

section \<open>State\<close>

record config_vars =
  configHostPath :: string
  configContainerPath :: string
  metricsHostPath :: string
  metricsContainerPath :: string
  senlibConfigGenerator :: SenlibConfigGenerator

type_synonym ConfigHandler = "string \<rightharpoonup> string"     \<comment> \<open>\<open>uuidMap\<close>\<close>

definition readOnlyMntOpts :: "string list" where "readOnlyMntOpts = [''nosuid'', ''nodev'', ''bind'', ''ro'']"
definition readWriteMntOpts :: "string list" where "readWriteMntOpts = [''nosuid'', ''nodev'', ''bind'', ''rw'']"

definition uniqueStringFromDeviceIDs :: "string list \<Rightarrow> string" where
  "uniqueStringFromDeviceIDs ids = JoinStr ids ''-''"

definition GetUuidFromPath :: "string \<Rightarrow> string" where
  "GetUuidFromPath p = (if Base p = ''.'' then [] else Base p)"

section \<open>Initialisation\<close>

definition InitMetricsMountPath :: "config_vars \<Rightarrow> world \<Rightarrow> err option \<times> config_vars \<times> world" where
  "InitMetricsMountPath v w =
     (let v1 = v\<lparr>metricsHostPath := GetMetricsHostPath w, metricsContainerPath := GetMetricsContainerPath w\<rparr> in
      case CreateFolderIfNotExists w (metricsHostPath v1) of (e, w1) \<Rightarrow> (e, v1, w1))"

text \<open>The handler is returned also on an error; its map is empty.\<close>

definition InitConfigMount :: "config_vars \<Rightarrow> world \<Rightarrow> err option \<times> ConfigHandler \<times> config_vars \<times> world" where
  "InitConfigMount v w =
     (let v1 = v\<lparr>configHostPath := GetConfigHostPath w, configContainerPath := GetConfigContainerPath w\<rparr> in
      case InitMetricsMountPath v1 w of
        (Some e, v2, w1) \<Rightarrow> (Some e, Map.empty, v2, w1)
      | (None, v2, w1) \<Rightarrow>
          (let v3 = v2\<lparr>senlibConfigGenerator := NewSenlibConfigGenerator w1\<rparr> in
           case CreateFolderIfNotExists w1 (configHostPath v3) of (e, w2) \<Rightarrow> (e, Map.empty, v3, w2)))"

section \<open>Mounts\<close>

definition CopyTopologyFile :: "world \<Rightarrow> string \<Rightarrow> err option \<times> world" where
  "CopyTopologyFile w outputPath = CopyFile w (GetTopologyFile w) (outputPath @ ''/topo.json'')"

definition getSenlibConfigMount ::
    "config_vars \<Rightarrow> world \<Rightarrow> ProductID \<Rightarrow> string list \<Rightarrow> string \<Rightarrow> (err + Mount) \<times> world" where
  "getSenlibConfigMount v w p ids outputPath =
     (case GenerateConfigFile (senlibConfigGenerator v) w p ids outputPath of
        (Some e, w1) \<Rightarrow> (Inl e, w1)
      | (None, w1) \<Rightarrow> (Inr \<lparr>mnt_HostPath = outputPath, mnt_ContainerPath = configContainerPath v,
                             mnt_Options = readOnlyMntOpts\<rparr>, w1))"

definition CreateNewMetricsFolder :: "world \<Rightarrow> string \<Rightarrow> string \<Rightarrow> (string \<times> err option) \<times> world" where
  "CreateNewMetricsFolder w metricsHost configHost =
     (let d = Join [metricsHost, GetUuidFromPath configHost] in
      case CreateWritableFolderIfNotExists w d of (e, w1) \<Rightarrow> ((d, e), w1))"

definition getMetricsMount :: "config_vars \<Rightarrow> world \<Rightarrow> string \<Rightarrow> (err + Mount) \<times> world" where
  "getMetricsMount v w configHostMntPath =
     (case CreateNewMetricsFolder w (metricsHostPath v) configHostMntPath of
        ((d, Some e), w1) \<Rightarrow> (Inl e, w1)
      | ((d, None), w1) \<Rightarrow> (Inr \<lparr>mnt_HostPath = d, mnt_ContainerPath = metricsContainerPath v,
                                  mnt_Options = readWriteMntOpts\<rparr>, w1))"

text \<open>The error of the metrics mount is returned together with the config mount, which the caller drops.\<close>

definition GetConfigMetricsMount ::
    "config_vars \<Rightarrow> ConfigHandler \<Rightarrow> world \<Rightarrow> ProductID \<Rightarrow> string list \<Rightarrow>
       (Mount list \<times> err option) \<times> ConfigHandler \<times> world" where
  "GetConfigMetricsMount v h w p ids =
     (case CreateNewConfigFolder w (configHostPath v) of
        (Inl e, w1) \<Rightarrow> (([], Some e), h, w1)
      | (Inr outputPath, w1) \<Rightarrow>
     (case CopyTopologyFile w1 outputPath of (_, w2) \<Rightarrow>
     (case getSenlibConfigMount v w2 p ids outputPath of
        (Inl e, w3) \<Rightarrow> (([], Some e), h, w3)
      | (Inr cm, w3) \<Rightarrow>
     (case getMetricsMount v w3 (mnt_HostPath cm) of
        (Inl e, w4) \<Rightarrow> (([cm], Some e), h, w4)
      | (Inr mm, w4) \<Rightarrow> (([cm, mm], None), h(uniqueStringFromDeviceIDs ids \<mapsto> outputPath), w4)))))"

definition GetMountedPath :: "ConfigHandler \<Rightarrow> string list \<Rightarrow> string option" where
  "GetMountedPath h ids = h (uniqueStringFromDeviceIDs ids)"

definition ListAllMounts :: "world \<Rightarrow> string \<Rightarrow> err + string list" where
  "ListAllMounts w hostPath =
     (case ReadDir w hostPath of
        Inl e \<Rightarrow> Inl (wrap ''failed to read'' e)
      | Inr ns \<Rightarrow> Inr (map (\<lambda>n. Join [hostPath, n]) (filter (\<lambda>n. lookup w (comps hostPath @ [n]) = Some Dir) ns)))"

definition IsConfigHostPathExist :: "world \<Rightarrow> bool" where
  "IsConfigHostPathExist w = (case Stat w (GetConfigHostPath w) of Inl e \<Rightarrow> False | Inr n \<Rightarrow> True)"

definition IsSomeContainerMounted :: "world \<Rightarrow> bool" where
  "IsSomeContainerMounted w = (case ReadDir w (GetConfigHostPath w) of Inl e \<Rightarrow> False | Inr ns \<Rightarrow> ns \<noteq> [])"

definition IsConfigMnt :: "world \<Rightarrow> string \<Rightarrow> string \<Rightarrow> bool" where
  "IsConfigMnt w containerPath hostPath \<longleftrightarrow>
     containerPath = GetConfigContainerPath w \<and> Contains hostPath SpyreConfigBaseFolderName"

definition IsMetricsMnt :: "world \<Rightarrow> string \<Rightarrow> string \<Rightarrow> bool" where
  "IsMetricsMnt w containerPath hostPath \<longleftrightarrow>
     containerPath = GetMetricsContainerPath w \<and> Contains hostPath SpyreMetricBaseFolderName"

section \<open>Pod information\<close>

definition WriteFile :: "world \<Rightarrow> string \<Rightarrow> string \<Rightarrow> string \<Rightarrow> err option \<times> world" where
  "WriteFile w folder filename v = WriteTo w (Join [folder, filename]) (Raw v)"

definition writeInfoFiles :: "world \<Rightarrow> string \<Rightarrow> string \<Rightarrow> string \<Rightarrow> err option \<times> world" where
  "writeInfoFiles w folder podName podNamespace =
     (case WriteFile w folder ''POD_NAME'' podName of
        (Some e, w1) \<Rightarrow> (Some e, w1)
      | (None, w1) \<Rightarrow> WriteFile w1 folder ''POD_NAMESPACE'' podNamespace)"

fun WritePodInfo :: "world \<Rightarrow> string list \<Rightarrow> string \<Rightarrow> string \<Rightarrow> err option \<times> world" where
  "WritePodInfo w [] n ns = (Some (Msg ''container-metrics not found''), w)"
| "WritePodInfo w (p # ps) n ns =
     (if Contains p SpyreMetricBaseFolderName then
        (case writeInfoFiles w p n ns of
           (Some e, w1) \<Rightarrow> (Some (Wrapped ''error writing pod info'' e), w1)
         | (None, w1) \<Rightarrow> (None, w1))
      else WritePodInfo w ps n ns)"

section \<open>Lemmas\<close>

lemma Create_frame:
  "same_os w (snd (Create w s)) \<and> uuid_next (snd (Create w s)) = uuid_next w \<and>
   (q \<noteq> comps s \<longrightarrow> lookup (snd (Create w s)) q = lookup w q)"
  by (auto simp: Create_def Let_def fs_simps split: option.split)

text \<open>\<open>only_writes P w w'\<close>: outside the paths in \<open>P\<close>, nothing but new directories.\<close>

definition only_writes :: "path set \<Rightarrow> world \<Rightarrow> world \<Rightarrow> bool" where
  "only_writes P w w' \<longleftrightarrow> same_os w w' \<and>
     (\<forall>q. q \<notin> P \<longrightarrow> lookup w' q = lookup w q \<or> (lookup w q = None \<and> lookup w' q = Some Dir))"

lemma only_writesD: "only_writes P w w' \<Longrightarrow> q \<notin> P \<Longrightarrow> lookup w q = Some n \<Longrightarrow> lookup w' q = Some n"
  unfolding only_writes_def by (metis option.distinct(1))

lemma only_writes_trans: "only_writes P a b \<Longrightarrow> only_writes Q b c \<Longrightarrow> only_writes (P \<union> Q) a c"
  unfolding only_writes_def same_os_def by (metis UnCI option.distinct(1))

lemma grows_only_writes: "grows w w' \<Longrightarrow> only_writes P w w'"
  by (simp add: grows_def only_writes_def)

lemma CopyFile_frame: "only_writes {comps d} w (snd (CopyFile w s d)) \<and> uuid_next (snd (CopyFile w s d)) = uuid_next w"
  using Create_frame [of w d] WriteTo_frame [of w d]
  by (auto simp: CopyFile_def only_writes_def Let_def split: sum.split option.split prod.split)

lemma GenerateConfigFile_frame:
  "only_writes {comps (Join [d, GetConfigFileName w])} w (snd (GenerateConfigFile g w p ids d)) \<and>
   uuid_next (snd (GenerateConfigFile g w p ids d)) = uuid_next w"
  using WriteTo_frame [of w "Join [d, GetConfigFileName w]"]
  by (auto simp: GenerateConfigFile_def only_writes_def split: sum.split)

lemma GetConfigFileName_same: "same_os w w' \<Longrightarrow> GetConfigFileName w' = GetConfigFileName w"
  by (simp add: GetConfigFileName_def GetEnvOrDefault_def Getenv_def same_osD)

text \<open>A successful call, step by step.\<close>

lemma GetConfigMetricsMount_ok:
  assumes "GetConfigMetricsMount v h w p ids = ((mnts, None), h', w')"
  shows "\<exists>d w1 w2 content. CreateNewConfigFolder w (configHostPath v) = (Inr d, w1) \<and>
    only_writes {comps (d @ ''/topo.json'')} w1 w2 \<and>
    GenerateConfigContent (senlibConfigGenerator v) w2 p ids = Inr content \<and>
    mnts = [\<lparr>mnt_HostPath = d, mnt_ContainerPath = configContainerPath v, mnt_Options = readOnlyMntOpts\<rparr>,
            \<lparr>mnt_HostPath = Join [metricsHostPath v, GetUuidFromPath d], mnt_ContainerPath = metricsContainerPath v,
             mnt_Options = readWriteMntOpts\<rparr>] \<and>
    h' = h(uniqueStringFromDeviceIDs ids \<mapsto> d) \<and>
    lookup w' (comps (Join [d, GetConfigFileName w])) = Some (File (Doc content)) \<and>
    only_writes {comps (Join [d, GetConfigFileName w])} w2 w'"
proof -
  from assms obtain d w1 where d: "CreateNewConfigFolder w (configHostPath v) = (Inr d, w1)"
    by (auto simp: GetConfigMetricsMount_def split: prod.splits sum.splits)
  obtain r w2 where w2: "CopyTopologyFile w1 d = (r, w2)" by fastforce
  have f12: "only_writes {comps (d @ ''/topo.json'')} w1 w2"
    using CopyFile_frame [of "d @ ''/topo.json''" w1 "GetTopologyFile w1"] w2 by (simp add: CopyTopologyFile_def)
  obtain r3 w3 where w3: "GenerateConfigFile (senlibConfigGenerator v) w2 p ids d = (r3, w3)" by fastforce
  with assms d w2 have r3: "r3 = None"
    by (auto simp: GetConfigMetricsMount_def getSenlibConfigMount_def split: option.splits)
  let ?f = "Join [d, GetConfigFileName w2]"
  obtain content where c: "GenerateConfigContent (senlibConfigGenerator v) w2 p ids = Inr content"
      "WriteTo w2 ?f (Doc content) = (None, w3)"
    using w3 r3 by (auto simp: GenerateConfigFile_def split: sum.splits)
  have f23: "only_writes {comps ?f} w2 w3" using GenerateConfigFile_frame [of d w2] w3 by (metis snd_conv)
  obtain r4 w4 where w4: "CreateWritableFolderIfNotExists w3 (Join [metricsHostPath v, GetUuidFromPath d]) = (r4, w4)" by fastforce
  with assms d w2 w3 r3 have r4: "r4 = None" and w': "w' = w4"
    and m: "mnts = [\<lparr>mnt_HostPath = d, mnt_ContainerPath = configContainerPath v, mnt_Options = readOnlyMntOpts\<rparr>,
            \<lparr>mnt_HostPath = Join [metricsHostPath v, GetUuidFromPath d], mnt_ContainerPath = metricsContainerPath v,
             mnt_Options = readWriteMntOpts\<rparr>]" "h' = h(uniqueStringFromDeviceIDs ids \<mapsto> d)"
    by (auto simp: GetConfigMetricsMount_def getSenlibConfigMount_def getMetricsMount_def CreateNewMetricsFolder_def Let_def
        split: option.splits)
  have g34: "grows w3 w4" using CreateFolder_grows [of w3] w4 by (metis CreateWritableFolder_eq snd_conv)
  have fl: "lookup w4 (comps ?f) = Some (File (Doc content))"
    using WriteTo_ok [of w2 ?f "Doc content"] c(2) growsD [OF g34] by simp
  have "same_os w w2"
    using new_folder_loop_ok [of uuidGenerateMaxRetry None w "configHostPath v" "Inr d" w1] d f12
    by (auto simp: CreateNewConfigFolder_def grows_def only_writes_def same_os_def)
  then have fn: "GetConfigFileName w2 = GetConfigFileName w" by (rule GetConfigFileName_same)
  have "only_writes {comps ?f} w2 w4" using only_writes_trans [OF f23 grows_only_writes [OF g34, of "{}"]] by simp
  with d f12 c(1) m fl w' show ?thesis unfolding fn by blast
qed

section \<open>Properties\<close>

text \<open>
  C16. A claim's mounts: a config folder named by a fresh UUID, mounted read-only, and the
  metrics folder of the same UUID, mounted read-write; the config folder holds the configuration
  generated for exactly these devices, the handler records the folder under the device ids, and
  nothing else that was on disk changes.
\<close>

theorem config_mounts:
  assumes "GetConfigMetricsMount v h w p ids = ((mnts, None), h', w')"
    and "configHostPath v \<noteq> []" "\<And>n. plain_name (uuid_src w n)"
  shows "\<exists>k < 10. let u = uuid_src w (uuid_next w + k); d = Join [configHostPath v, u] in
    mnts = [\<lparr>mnt_HostPath = d, mnt_ContainerPath = configContainerPath v, mnt_Options = readOnlyMntOpts\<rparr>,
            \<lparr>mnt_HostPath = Join [metricsHostPath v, u], mnt_ContainerPath = metricsContainerPath v,
             mnt_Options = readWriteMntOpts\<rparr>] \<and>
    GetMountedPath h' ids = Some d \<and>
    (\<exists>w2 content. only_writes {comps (d @ ''/topo.json'')} w w2 \<and>
       GenerateConfigContent (senlibConfigGenerator v) w2 p ids = Inr content \<and>
       lookup w' (comps (Join [d, GetConfigFileName w])) = Some (File (Doc content))) \<and>
    only_writes {comps (d @ ''/topo.json''), comps (Join [d, GetConfigFileName w])} w w'"
proof -
  obtain d w1 w2 content where s: "CreateNewConfigFolder w (configHostPath v) = (Inr d, w1)"
    "only_writes {comps (d @ ''/topo.json'')} w1 w2"
    "GenerateConfigContent (senlibConfigGenerator v) w2 p ids = Inr content"
    "mnts = [\<lparr>mnt_HostPath = d, mnt_ContainerPath = configContainerPath v, mnt_Options = readOnlyMntOpts\<rparr>,
            \<lparr>mnt_HostPath = Join [metricsHostPath v, GetUuidFromPath d], mnt_ContainerPath = metricsContainerPath v,
             mnt_Options = readWriteMntOpts\<rparr>]"
    "h' = h(uniqueStringFromDeviceIDs ids \<mapsto> d)"
    "lookup w' (comps (Join [d, GetConfigFileName w])) = Some (File (Doc content))"
    "only_writes {comps (Join [d, GetConfigFileName w])} w2 w'"
    using GetConfigMetricsMount_ok [OF assms(1)] by blast
  obtain k where k: "k < 10" "d = Join [configHostPath v, uuid_src w (uuid_next w + k)]" "grows w w1"
    using new_folder_loop_ok [of uuidGenerateMaxRetry None w "configHostPath v" "Inr d" w1] s(1)
    by (auto simp: CreateNewConfigFolder_def uuidGenerateMaxRetry_def)
  have u: "GetUuidFromPath d = uuid_src w (uuid_next w + k)"
    using assms(2,3) unfolding GetUuidFromPath_def k(2) by (simp add: Base_Join plain_name_def)
  have w12: "only_writes {comps (d @ ''/topo.json'')} w w2"
    using only_writes_trans [OF grows_only_writes [OF k(3), of "{}"] s(2)] by simp
  have "only_writes {comps (d @ ''/topo.json''), comps (Join [d, GetConfigFileName w])} w w'"
    using only_writes_trans [OF w12 s(7)] by (simp add: insert_commute)
  with s u k w12 show ?thesis
    by (intro exI [of _ k]) (auto simp: Let_def GetMountedPath_def)
qed

definition mount_vars :: config_vars where
  "mount_vars = \<lparr>configHostPath = ''/c'', configContainerPath = ''/etc/aiu'', metricsHostPath = ''/m'',
     metricsContainerPath = ''/data'', senlibConfigGenerator = sample_generator\<rparr>"

definition mount_world :: world where
  "mount_world = sample_world\<lparr>files := [([''/'', ''t''], File (Doc (AMap sample_template))), ([''/'', ''c''], Dir), ([''/'', ''m''], Dir)],
     faults := (\<lambda>op p. None)\<rparr>"

lemma mount_world_uuid: "plain_name (uuid_src mount_world n)"
  by (simp add: mount_world_def sample_world_def plain_name_def)

lemma mount_world_ok:
  "snd (fst (GetConfigMetricsMount mount_vars Map.empty mount_world ProductIDPf [''0000:1a:00.0''])) = None"
  by code_simp

theorem config_mounts_witness:
  "\<exists>mnts h' w'. GetConfigMetricsMount mount_vars Map.empty mount_world ProductIDPf [''0000:1a:00.0''] = ((mnts, None), h', w') \<and>
     (\<exists>k < 10. GetMountedPath h' [''0000:1a:00.0''] = Some (Join [''/c'', uuid_src mount_world (uuid_next mount_world + k)]))"
proof -
  obtain mnts h' w' where r: "GetConfigMetricsMount mount_vars Map.empty mount_world ProductIDPf [''0000:1a:00.0''] = ((mnts, None), h', w')"
    using mount_world_ok by (metis prod.collapse)
  from config_mounts [OF r _ mount_world_uuid] r show ?thesis
    by (auto simp: Let_def mount_vars_def)
qed

end
