(* ===== verification/CDI.thy ===== *)
theory CDI
  imports ConfigMounts
begin

text \<open>
  \<^verbatim>\<open>internal/handler/cdi.go\<close> and \<^verbatim>\<open>pkg/types/prepared_device.go\<close>: the
  devices of a prepared claim and the CDI spec files that make them visible to containers.  The
  CDI library (cache, spec reader, names) is the record \<^verbatim>\<open>cdi_lib\<close>; what the
  driver relies on is the locale \<^verbatim>\<open>cdi_library\<close>, interpreted below on a library
  that writes spec files with the file-system calls of FS.
\<close>

section \<open>Prepared devices\<close>

record SpyreConfig =
  SenlibConfigTemplateFile :: "string option option"     \<comment> \<open>\<open>Override\<close>, and the file in it\<close>

definition GroupName :: string where "GroupName = ''spyre.resource.ibm.com''"
definition ParamsVersion :: string where "ParamsVersion = ''v1alpha1''"
definition ClaimParamKind :: string where "ClaimParamKind = ''SpyreClaimParameters''"

record ClaimParameters =
  tm_APIVersion :: string     \<comment> \<open>the two fields of the embedded \<open>TypeMeta\<close>\<close>
  tm_Kind :: string
  clp_Config :: SpyreConfig

definition DefaultParams :: ClaimParameters where
  "DefaultParams = \<lparr>tm_APIVersion = GroupName @ ''/'' @ ParamsVersion, tm_Kind = ClaimParamKind,
     clp_Config = \<lparr>SenlibConfigTemplateFile = None\<rparr>\<rparr>"

record pb_Device =
  RequestNames :: "string list"
  PoolName :: string
  DeviceName :: string
  CdiDeviceIds :: "string list"

record PreparedDevice =
  pd_Device :: pb_Device
  pd_ProductID :: ProductID
  pd_Config :: SpyreConfig
  pd_PciAddress :: string
  pd_CDIDeviceSpec :: "DeviceNode list"

type_synonym PreparedDevices = "PreparedDevice list option"     \<comment> \<open>\<open>None\<close>: the nil slice\<close>

definition elems :: "'a list option \<Rightarrow> 'a list" where
  "elems ds = (case ds of None \<Rightarrow> [] | Some xs \<Rightarrow> xs)"

definition ApplyConfig :: "PreparedDevice \<Rightarrow> err option" where "ApplyConfig d = None"

definition GetPreparedDevices :: "PreparedDevices \<Rightarrow> pb_Device list" where
  "GetPreparedDevices ds = map pd_Device (elems ds)"

section \<open>The library and the handler\<close>

record cdi_lib =
  NewCache :: "string \<Rightarrow> err option"
  MinimumRequiredVersion :: "CdiSpec \<Rightarrow> err + string"
  GenerateNameForTransientSpec :: "CdiSpec \<Rightarrow> string \<Rightarrow> err + string"
  GenerateTransientSpecName :: "string \<Rightarrow> string \<Rightarrow> string \<Rightarrow> string"
  QualifiedName :: "string \<Rightarrow> string \<Rightarrow> string \<Rightarrow> string"
  WriteSpec :: "string \<Rightarrow> CdiSpec \<Rightarrow> string \<Rightarrow> world \<Rightarrow> err option \<times> world"   \<comment> \<open>spec directory first\<close>
  RemoveSpec :: "string \<Rightarrow> string \<Rightarrow> world \<Rightarrow> err option \<times> world"
  LibReadSpec :: "string \<Rightarrow> world \<Rightarrow> err + CdiSpec"

definition cdiVendor :: string where "cdiVendor = ''k8s.'' @ DriverName"
definition cdiClass :: string where "cdiClass = ''spyre''"
definition cdiKind :: string where "cdiKind = cdiVendor @ ''/'' @ cdiClass"
definition cdiCommonDeviceName :: string where "cdiCommonDeviceName = ''common''"
definition vfioMount :: DeviceNode where
  "vfioMount = \<lparr>dn_Path = ''/dev/vfio/vfio'', dn_HostPath = ''/dev/vfio/vfio'', dn_Permissions = ''mrw''\<rparr>"
definition extChoices :: "string list" where "extChoices = [''.yaml'', ''.json'']"

record CDIHandler =
  cdi_root :: string
  configHandler :: ConfigHandler

definition NewCDIHandler :: "cdi_lib \<Rightarrow> string \<Rightarrow> config_vars \<Rightarrow> world \<Rightarrow> (err + CDIHandler) \<times> config_vars \<times> world" where
  "NewCDIHandler L cdiRoot v w =
     (case NewCache L cdiRoot of
        Some e \<Rightarrow> (Inl (wrap ''unable to create a new CDI cache'' e), v, w)
      | None \<Rightarrow>
          (case InitConfigMount v w of
             (Some e, _, v1, w1) \<Rightarrow> (Inl (wrap ''unable to init a config handler'' e), v1, w1)
           | (None, h, v1, w1) \<Rightarrow> (Inr \<lparr>cdi_root = cdiRoot, configHandler = h\<rparr>, v1, w1)))"

section \<open>Names and environment\<close>

definition GetClaimDevices :: "cdi_lib \<Rightarrow> string list \<Rightarrow> string list" where
  "GetClaimDevices L devices =
     QualifiedName L cdiVendor cdiClass cdiCommonDeviceName # map (QualifiedName L cdiVendor cdiClass) devices"

definition GetDeviceIDs :: "PreparedDevices \<Rightarrow> string list" where
  "GetDeviceIDs ds = map pd_PciAddress (elems ds)"

definition splitDeviceIDsByProductID :: "PreparedDevices \<Rightarrow> string list \<times> string list" where
  "splitDeviceIDsByProductID ds =
     fold (\<lambda>d (pf, vf). if pd_ProductID d = ProductIDVf then (pf, vf @ [pd_PciAddress d]) else (pf @ [pd_PciAddress d], vf))
       (elems ds) ([], [])"

fun env_values :: "int \<Rightarrow> int \<Rightarrow> string list \<Rightarrow> string \<Rightarrow> string" where
  "env_values lastIndex i [] acc = acc"
| "env_values lastIndex i (s # ss) acc =
     (if i = lastIndex then acc @ s else env_values lastIndex (i + 1) ss (acc @ s @ '',''))"

definition GetDeviceEnvs :: "ProductID \<Rightarrow> string list \<Rightarrow> string" where
  "GetDeviceEnvs p ids =
     (if p = ProductIDVf then DeviceEnvKeyVf else DeviceEnvKey) @ ''='' @ env_values (int (length ids) - 1) 0 ids []"

section \<open>Spec files\<close>

definition CreateCommonSpecFile :: "cdi_lib \<Rightarrow> CDIHandler \<Rightarrow> world \<Rightarrow> err option \<times> world" where
  "CreateCommonSpecFile L h w =
     (let spec = \<lparr>spec_Version = [], spec_Kind = cdiKind,
          spec_Devices = [\<lparr>cd_Name = cdiCommonDeviceName, cd_ContainerEdits = noEdits\<lparr>ce_Env :=
             [''KUBERNETES_NODE_NAME='' @ Getenv w ''NODE_NAME'', ''DRA_RESOURCE_DRIVER_NAME='' @ DriverName]\<rparr>\<rparr>],
          spec_ContainerEdits = noEdits\<rparr> in
      case MinimumRequiredVersion L spec of
        Inl e \<Rightarrow> (Some (Wrapped ''failed to get minimum required CDI spec version'' e), w)
      | Inr ver \<Rightarrow>
     (let spec1 = spec\<lparr>spec_Version := ver\<rparr> in
      case GenerateNameForTransientSpec L spec1 cdiCommonDeviceName of
        Inl e \<Rightarrow> (Some (wrap ''failed to generate Spec name'' e), w)
      | Inr name \<Rightarrow> WriteSpec L (cdi_root h) spec1 name w))"

definition cdi_device :: "nat \<Rightarrow> PreparedDevice \<Rightarrow> CdiDevice" where
  "cdi_device i d = \<lparr>cd_Name = DeviceName (pd_Device d), cd_ContainerEdits = noEdits\<lparr>
     ce_Env := [''AIU_DEVICE_'' @ Itoa (int i) @ ''='' @ pd_PciAddress d], ce_DeviceNodes := pd_CDIDeviceSpec d\<rparr>\<rparr>"

text \<open>The spec of a claim without its version, from its devices and mounts.\<close>

definition claim_spec :: "world \<Rightarrow> PreparedDevices \<Rightarrow> Mount list \<Rightarrow> CdiSpec" where
  "claim_spec w ds mnts =
     (case splitDeviceIDsByProductID ds of (pfIDs, vfIDs) \<Rightarrow>
       \<lparr>spec_Version = [], spec_Kind = cdiKind,
        spec_Devices = map (\<lambda>(i, d). cdi_device i d) (enumerate 0 (elems ds)),
        spec_ContainerEdits = \<lparr>
          ce_Env = (if pfIDs \<noteq> [] then [GetDeviceEnvs ProductIDPf pfIDs] else []) @
                   (if vfIDs \<noteq> [] then [GetDeviceEnvs ProductIDVf vfIDs] else []),
          ce_DeviceNodes = (if IsPseudoDeviceMode w then [] else [vfioMount]),
          ce_Mounts = mnts\<rparr>\<rparr>)"

definition config_product :: "PreparedDevices \<Rightarrow> ProductID" where
  "config_product ds = (if fst (splitDeviceIDsByProductID ds) \<noteq> [] then ProductIDPf else ProductIDVf)"

definition spec_name :: "cdi_lib \<Rightarrow> string \<Rightarrow> string" where
  "spec_name L claimUID = GenerateTransientSpecName L cdiVendor cdiClass claimUID"

definition CreateClaimSpecFile ::
    "cdi_lib \<Rightarrow> config_vars \<Rightarrow> CDIHandler \<Rightarrow> world \<Rightarrow> string \<Rightarrow> PreparedDevices \<Rightarrow>
       err option \<times> CDIHandler \<times> world" where
  "CreateClaimSpecFile L v h w claimUID ds =
     (case GetConfigMetricsMount v (configHandler h) w (config_product ds) (GetDeviceIDs ds) of
        ((_, Some e), ch, w1) \<Rightarrow> (Some (wrap ''failed to get config mounts'' e), h\<lparr>configHandler := ch\<rparr>, w1)
      | ((mnts, None), ch, w1) \<Rightarrow>
          (let spec = claim_spec w1 ds mnts; h1 = h\<lparr>configHandler := ch\<rparr> in
           case MinimumRequiredVersion L spec of
             Inl e \<Rightarrow> (Some (Wrapped ''failed to get minimum required CDI spec version'' e), h1, w1)
           | Inr ver \<Rightarrow>
               (case WriteSpec L (cdi_root h) (spec\<lparr>spec_Version := ver\<rparr>) (spec_name L claimUID) w1 of
                  (e, w2) \<Rightarrow> (e, h1, w2))))"

definition DeleteClaimSpec :: "cdi_lib \<Rightarrow> CDIHandler \<Rightarrow> world \<Rightarrow> string \<Rightarrow> err option \<times> world" where
  "DeleteClaimSpec L h w claimUID = RemoveSpec L (cdi_root h) (spec_name L claimUID) w"

text \<open>The first extension whose file is not known to be missing; the last error otherwise.\<close>

fun spec_path_loop :: "world \<Rightarrow> string \<Rightarrow> string list \<Rightarrow> err + string" where
  "spec_path_loop w p [] = Inl NotExist"
| "spec_path_loop w p (x # xs) = (case Stat w (p @ x) of Inl NotExist \<Rightarrow> spec_path_loop w p xs | _ \<Rightarrow> Inr (p @ x))"

definition getSpecFilePath :: "CDIHandler \<Rightarrow> world \<Rightarrow> string \<Rightarrow> err + string" where
  "getSpecFilePath h w specName = spec_path_loop w (Join [cdi_root h, specName]) extChoices"

definition ReadSpec :: "cdi_lib \<Rightarrow> CDIHandler \<Rightarrow> world \<Rightarrow> string \<Rightarrow> err + CdiSpec" where
  "ReadSpec L h w claimUID =
     (case getSpecFilePath h w (spec_name L claimUID) of
        Inl e \<Rightarrow> Inl e
      | Inr p \<Rightarrow> LibReadSpec L p w)"

section \<open>Clean-up\<close>

definition deleteMountedPath :: "string \<Rightarrow> world \<Rightarrow> world" where
  "deleteMountedPath p w = snd (RemoveAll w p)"

definition existing_mounts :: "cdi_lib \<Rightarrow> CDIHandler \<Rightarrow> world \<Rightarrow> string list \<Rightarrow> string list" where
  "existing_mounts L h w paths =
     concat (map (\<lambda>p. if p = cdi_root h then []
                      else case LibReadSpec L p w of
                             Inl e \<Rightarrow> []
                           | Inr s \<Rightarrow> map mnt_HostPath (ce_Mounts (spec_ContainerEdits s))) paths)"

definition CleanZombieConfigFolders :: "cdi_lib \<Rightarrow> CDIHandler \<Rightarrow> world \<Rightarrow> err option \<times> world" where
  "CleanZombieConfigFolders L h w =
     (case Walk w (cdi_root h) of
        Inl e \<Rightarrow> (Some e, w)
      | Inr paths \<Rightarrow>
          (case ReadDir w (GetConfigHostPath w) of
             Inl e \<Rightarrow> (Some e, w)
           | Inr names \<Rightarrow>
               (None, fold (\<lambda>n w'. if Join [GetConfigHostPath w, n] \<in> set (existing_mounts L h w paths) then w'
                                   else deleteMountedPath (Join [GetMetricsHostPath w, n])
                                          (deleteMountedPath (Join [GetConfigHostPath w, n]) w')) names w)))"

definition IsHostMountedFile :: "world \<Rightarrow> string \<Rightarrow> bool" where
  "IsHostMountedFile w p \<longleftrightarrow> p = GetConfigContainerPath w \<or> p = GetMetricsContainerPath w"

definition DeleteConfigFile :: "CdiSpec \<Rightarrow> world \<Rightarrow> world" where
  "DeleteConfigFile spec w =
     fold (\<lambda>m w'. if IsHostMountedFile w' (mnt_ContainerPath m) then deleteMountedPath (mnt_HostPath m) w' else w')
       (ce_Mounts (spec_ContainerEdits spec)) w"

section \<open>What the driver relies on in the CDI library\<close>

lemma plain_name_ext: "plain_name n \<Longrightarrow> plain_name (n @ ''.yaml'')"
  by (auto simp: plain_name_def)

lemma comps_spec_path:
  "r \<noteq> [] \<Longrightarrow> plain_name n \<Longrightarrow> comps (Join [r, n] @ ''.yaml'') = comps r @ [n @ ''.yaml'']"
  using Join_suffix [of r n "''.yaml''"] by (simp add: plain_name_ext comps_Join)

text \<open>
  A spec that was written is read back from the spec directory, under the name with the default
  extension; writing and removing a spec leave the other files alone; reading depends on the
  content of the file only; claim UIDs give distinct file names.
\<close>

locale cdi_library =
  fixes L :: cdi_lib
  assumes write_ok: "r \<noteq> [] \<Longrightarrow> plain_name n \<Longrightarrow> no_faults w \<Longrightarrow> WriteSpec L r s n w = (None, w') \<Longrightarrow>
      LibReadSpec L (Join [r, n] @ ''.yaml'') w' = Inr s \<and> (\<exists>c. Stat w' (Join [r, n] @ ''.yaml'') = Inr (File c))"
    and write_frame: "r \<noteq> [] \<Longrightarrow> plain_name n \<Longrightarrow> WriteSpec L r s n w = (e, w') \<Longrightarrow>
      only_writes {comps r @ [n @ ''.yaml'']} w w' \<and> uuid_next w' = uuid_next w"
    and remove_ok: "r \<noteq> [] \<Longrightarrow> plain_name n \<Longrightarrow> no_faults w \<Longrightarrow> RemoveSpec L r n w = (None, w') \<Longrightarrow>
      lookup w' (comps r @ [n @ ''.yaml'']) = None"
    and remove_frame: "r \<noteq> [] \<Longrightarrow> plain_name n \<Longrightarrow> RemoveSpec L r n w = (e, w') \<Longrightarrow>
      same_os w w' \<and> (\<forall>q. \<not> prefix (comps r @ [n @ ''.yaml'']) q \<longrightarrow> lookup w' q = lookup w q)"
    and read_cong: "ReadFile w' p = ReadFile w p \<Longrightarrow> LibReadSpec L p w' = LibReadSpec L p w"
    and name_plain: "plain_name u \<Longrightarrow> plain_name (spec_name L u)"
    and common_name: "spec_Kind s = cdiKind \<Longrightarrow> GenerateNameForTransientSpec L s t = Inr (spec_name L t)"
    and name_inj: "plain_name u \<Longrightarrow> plain_name u' \<Longrightarrow> spec_name L u = spec_name L u' \<Longrightarrow> u = u'"
begin

lemma read_written:
  assumes "cdi_root h \<noteq> []" "plain_name u" "no_faults w"
    and "WriteSpec L (cdi_root h) s (spec_name L u) w = (None, w')"
  shows "ReadSpec L h w' u = Inr s"
proof -
  obtain c where c: "Stat w' (Join [cdi_root h, spec_name L u] @ ''.yaml'') = Inr (File c)"
    and r: "LibReadSpec L (Join [cdi_root h, spec_name L u] @ ''.yaml'') w' = Inr s"
    using write_ok [OF assms(1) name_plain [OF assms(2)] assms(3,4)] by blast
  have "getSpecFilePath h w' (spec_name L u) = Inr (Join [cdi_root h, spec_name L u] @ ''.yaml'')"
    using c by (simp add: getSpecFilePath_def extChoices_def)
  with r show ?thesis by (simp add: ReadSpec_def)
qed

end

text \<open>A library made of the file-system calls: one YAML file per spec.\<close>

definition file_lib :: cdi_lib where
  "file_lib = \<lparr>NewCache = (\<lambda>r. None),
     MinimumRequiredVersion = (\<lambda>s. Inr ''0.3.0''),
     GenerateNameForTransientSpec = (\<lambda>s n. Inr (takeWhile (\<lambda>c. c \<noteq> CHR ''/'') (spec_Kind s) @ ''-'' @
       tl (dropWhile (\<lambda>c. c \<noteq> CHR ''/'') (spec_Kind s)) @ ''_'' @ n)),
     GenerateTransientSpecName = (\<lambda>v c u. v @ ''-'' @ c @ ''_'' @ u),
     QualifiedName = (\<lambda>v c n. v @ ''/'' @ c @ ''='' @ n),
     WriteSpec = (\<lambda>r s n w. case MkdirAll w r of (Some e, w1) \<Rightarrow> (Some e, w1)
                            | (None, w1) \<Rightarrow> WriteTo w1 (Join [r, n] @ ''.yaml'') (SpecDoc s)),
     RemoveSpec = (\<lambda>r n w. RemoveAll w (Join [r, n] @ ''.yaml'')),
     LibReadSpec = (\<lambda>p w. case ReadFile w p of Inl e \<Rightarrow> Inl e | Inr (SpecDoc s) \<Rightarrow> Inr s | Inr _ \<Rightarrow> Inl (Msg ''invalid spec''))\<rparr>"

lemma file_lib_sel [simp]:
  "GenerateTransientSpecName file_lib v c u = v @ ''-'' @ c @ ''_'' @ u"
  "RemoveSpec file_lib r n w = RemoveAll w (Join [r, n] @ ''.yaml'')"
  by (simp_all add: file_lib_def)

lemma file_lib_write:
  assumes "WriteSpec file_lib r s n w = (e, w')"
  shows "(\<exists>e'. MkdirAll w r = (Some e', w') \<and> e = Some e') \<or>
    (\<exists>w1. MkdirAll w r = (None, w1) \<and> WriteTo w1 (Join [r, n] @ ''.yaml'') (SpecDoc s) = (e, w'))"
  using assms by (auto simp: file_lib_def split: prod.splits option.splits)

interpretation file_lib: cdi_library file_lib
proof
  fix r n :: string and s w e w'
  assume r: "r \<noteq> []" and n: "plain_name n"
  let ?p = "Join [r, n] @ ''.yaml''"
  show "only_writes {comps r @ [n @ ''.yaml'']} w w' \<and> uuid_next w' = uuid_next w"
    if "WriteSpec file_lib r s n w = (e, w')"
    using file_lib_write [OF that]
  proof (elim disjE exE conjE)
    fix e' assume "MkdirAll w r = (Some e', w')"
    then show ?thesis using MkdirAll_grows [of w r] MkdirAll_frame [of w r] by (metis grows_only_writes snd_conv)
  next
    fix w1 assume *: "MkdirAll w r = (None, w1)" "WriteTo w1 ?p (SpecDoc s) = (e, w')"
    have "grows w w1" "uuid_next w1 = uuid_next w"
      using MkdirAll_grows [of w r] MkdirAll_frame [of w r] *(1) by (metis snd_conv)+
    moreover have "only_writes {comps ?p} w1 w' \<and> uuid_next w' = uuid_next w1"
      using WriteTo_frame [of w1 ?p "SpecDoc s"] *(2) by (auto simp: only_writes_def)
    ultimately show ?thesis
      using only_writes_trans [OF grows_only_writes [of w w1 "{comps ?p}"], of "{comps ?p}" w'] comps_spec_path [OF r n] by simp
  qed
  show "LibReadSpec file_lib ?p w' = Inr s \<and> (\<exists>c. Stat w' ?p = Inr (File c))"
    if nf: "no_faults w" and ok: "WriteSpec file_lib r s n w = (None, w')"
    using file_lib_write [OF ok]
  proof (elim disjE exE conjE)
    fix w1 assume *: "MkdirAll w r = (None, w1)" "WriteTo w1 ?p (SpecDoc s) = (None, w')"
    have "no_faults w1" using nf no_faults_same MkdirAll_frame [of w r] *(1) by (metis snd_conv)
    then have "ReadFile w' ?p = Inr (SpecDoc s) \<and> Stat w' ?p = Inr (File (SpecDoc s))"
      using WriteTo_readable [of w1 ?p "SpecDoc s"] *(2) by simp
    then show ?thesis by (simp add: file_lib_def)
  qed simp
  show "lookup w' (comps r @ [n @ ''.yaml'']) = None" if "RemoveSpec file_lib r n w = (None, w')"
    using RemoveAll_gone [of w ?p "comps ?p"] that comps_spec_path [OF r n] n
    by (auto simp: plain_name_def Cons_eq_append_conv)
  show "same_os w w' \<and> (\<forall>q. \<not> prefix (comps r @ [n @ ''.yaml'']) q \<longrightarrow> lookup w' q = lookup w q)"
    if "RemoveSpec file_lib r n w = (e, w')"
  proof -
    have "w' = snd (RemoveAll w ?p)" using that by (metis file_lib_sel(2) snd_conv)
    then show ?thesis by (simp add: lookup_RemoveAll comps_spec_path [OF r n])
  qed
next
  show "LibReadSpec file_lib p w' = LibReadSpec file_lib p w" if "ReadFile w' p = ReadFile w p" for w' p w
    using that by (simp add: file_lib_def)
  show "plain_name (spec_name file_lib u)" if "plain_name u" for u
    using that by (simp add: spec_name_def plain_name_def cdiVendor_def cdiClass_def DriverName_def)
  show "GenerateNameForTransientSpec file_lib s t = Inr (spec_name file_lib t)" if "spec_Kind s = cdiKind" for s t
    by (simp add: file_lib_def spec_name_def that cdiKind_def cdiVendor_def cdiClass_def DriverName_def)
  show "u = u'" if "spec_name file_lib u = spec_name file_lib u'" for u u'
    using that by (simp add: spec_name_def)
qed

section \<open>Lemmas\<close>

lemma env_values_Join: "i + int (length ss) = lastIndex + 1 \<Longrightarrow> env_values lastIndex i ss acc = acc @ JoinStr ss '',''"
proof (induction ss arbitrary: i acc)
  case Nil
  then show ?case by simp
next
  case (Cons s ss)
  then show ?case by (cases ss) auto
qed

lemma split_ids:
  "splitDeviceIDsByProductID ds =
     (map pd_PciAddress (filter (\<lambda>d. pd_ProductID d \<noteq> ProductIDVf) (elems ds)),
      map pd_PciAddress (filter (\<lambda>d. pd_ProductID d = ProductIDVf) (elems ds)))"
proof -
  have step: "fold (\<lambda>d (pf, vf). if pd_ProductID d = ProductIDVf then (pf, vf @ [pd_PciAddress d]) else (pf @ [pd_PciAddress d], vf))
      xs (a, b) = (a @ map pd_PciAddress (filter (\<lambda>d. pd_ProductID d \<noteq> ProductIDVf) xs),
                   b @ map pd_PciAddress (filter (\<lambda>d. pd_ProductID d = ProductIDVf) xs))" for xs a b
    by (induction xs arbitrary: a b) auto
  show ?thesis unfolding splitDeviceIDsByProductID_def by (subst step) simp
qed

lemma GetConfigMetricsMount_same_os:
  assumes "GetConfigMetricsMount v h w p ids = (r, h', w')"
  shows "same_os w w'"
proof -
  obtain d w1 where d: "CreateNewConfigFolder w (configHostPath v) = (d, w1)" by fastforce
  have s1: "same_os w w1"
    using new_folder_loop_ok [of uuidGenerateMaxRetry None w "configHostPath v" d w1] d
    by (simp add: CreateNewConfigFolder_def grows_def)
  show ?thesis
  proof (cases d)
    case (Inl e)
    with assms d s1 show ?thesis by (simp add: GetConfigMetricsMount_def)
  next
    case (Inr f)
    obtain r2 w2 where w2: "CopyTopologyFile w1 f = (r2, w2)" by fastforce
    have s2: "same_os w1 w2"
      using CopyFile_frame [of "f @ ''/topo.json''" w1 "GetTopologyFile w1"] w2
      by (simp add: CopyTopologyFile_def only_writes_def)
    obtain r3 w3 where w3: "GenerateConfigFile (senlibConfigGenerator v) w2 p ids f = (r3, w3)" by fastforce
    have s3: "same_os w2 w3"
      using GenerateConfigFile_frame [of f w2 "senlibConfigGenerator v" p ids] w3 by (simp add: only_writes_def)
    obtain r4 w4 where w4: "CreateWritableFolderIfNotExists w3 (Join [metricsHostPath v, GetUuidFromPath f]) = (r4, w4)"
      by fastforce
    have s4: "same_os w3 w4"
      using CreateFolder_grows [of w3 "Join [metricsHostPath v, GetUuidFromPath f]"] w4
      by (simp add: CreateWritableFolder_eq grows_def)
    have "w' = w3 \<or> w' = w4"
      using assms d Inr w2 w3 w4
      by (auto simp: GetConfigMetricsMount_def getSenlibConfigMount_def getMetricsMount_def CreateNewMetricsFolder_def Let_def
          split: option.splits)
    with s1 s2 s3 s4 show ?thesis by (auto simp: same_os_def)
  qed
qed

lemma CreateClaimSpecFile_ok:
  assumes "CreateClaimSpecFile L v h w u ds = (None, h', w')"
  obtains mnts ch w1 ver where
    "GetConfigMetricsMount v (configHandler h) w (config_product ds) (GetDeviceIDs ds) = ((mnts, None), ch, w1)"
    "h' = h\<lparr>configHandler := ch\<rparr>"
    "WriteSpec L (cdi_root h) ((claim_spec w1 ds mnts)\<lparr>spec_Version := ver\<rparr>) (spec_name L u) w1 = (None, w')"
  using assms
  by (auto simp: CreateClaimSpecFile_def Let_def split: prod.splits option.splits sum.splits)

lemma claim_spec_devices:
  "map cd_Name (spec_Devices (claim_spec w ds mnts)) = map (\<lambda>d. DeviceName (pd_Device d)) (elems ds)"
  "i < length (elems ds) \<Longrightarrow> spec_Devices (claim_spec w ds mnts) ! i = cdi_device i (elems ds ! i)"
  "length (spec_Devices (claim_spec w ds mnts)) = length (elems ds)"
  "ce_Mounts (spec_ContainerEdits (claim_spec w ds mnts)) = mnts"
  by (auto simp: claim_spec_def split_ids cdi_device_def enumerate_eq_zip nth_equalityI intro!: nth_equalityI)

section \<open>Properties\<close>

text \<open>
  The environment variable of the assigned devices is the key of the product (PF or VF), an
  equals sign and the addresses separated by commas, for any number of devices.
\<close>

lemma device_envs_joined:
  "GetDeviceEnvs p ids =
     (if p = ''06a8'' then ''PCIDEVICE_IBM_COM_AIU_VF='' else ''PCIDEVICE_IBM_COM_AIU_PF='') @ JoinStr ids '',''"
  using env_values_Join [of 0 ids "int (length ids) - 1" "[]"]
  by (simp add: GetDeviceEnvs_def ProductIDVf_def DeviceEnvKeyVf_def DeviceEnvKey_def)

text \<open>
  C14. After \<open>CreateClaimSpecFile\<close> succeeds the claim's spec can be read back, and it names the
  prepared devices in order, each with its own address variable and device nodes, one variable
  listing all PF addresses and one all VF addresses, and the two mounts of the claim.
\<close>

theorem claim_spec_readable:
  assumes "cdi_library L" "CreateClaimSpecFile L v h w u ds = (None, h', w')" "no_faults w"
    and "cdi_root h \<noteq> []" "plain_name u"
  shows "\<exists>spec mnts w1. ReadSpec L h' w' u = Inr spec \<and>
    fst (GetConfigMetricsMount v (configHandler h) w (config_product ds) (GetDeviceIDs ds)) = (mnts, None) \<and>
    ce_Mounts (spec_ContainerEdits spec) = mnts \<and>
    map cd_Name (spec_Devices spec) = map (\<lambda>d. DeviceName (pd_Device d)) (elems ds) \<and>
    (\<forall>i < length (elems ds). ce_Env (cd_ContainerEdits (spec_Devices spec ! i)) =
        [''AIU_DEVICE_'' @ Itoa (int i) @ ''='' @ pd_PciAddress (elems ds ! i)] \<and>
      ce_DeviceNodes (cd_ContainerEdits (spec_Devices spec ! i)) = pd_CDIDeviceSpec (elems ds ! i)) \<and>
    ce_Env (spec_ContainerEdits spec) =
      (let pf = filter (\<lambda>d. pd_ProductID d \<noteq> ProductIDVf) (elems ds);
           vf = filter (\<lambda>d. pd_ProductID d = ProductIDVf) (elems ds)
       in (if pf = [] then [] else [GetDeviceEnvs ProductIDPf (map pd_PciAddress pf)]) @
          (if vf = [] then [] else [GetDeviceEnvs ProductIDVf (map pd_PciAddress vf)]))"
proof -
  obtain mnts ch w1 ver where m: "GetConfigMetricsMount v (configHandler h) w (config_product ds) (GetDeviceIDs ds) = ((mnts, None), ch, w1)"
    and h': "h' = h\<lparr>configHandler := ch\<rparr>"
    and ws: "WriteSpec L (cdi_root h) ((claim_spec w1 ds mnts)\<lparr>spec_Version := ver\<rparr>) (spec_name L u) w1 = (None, w')"
    by (rule CreateClaimSpecFile_ok [OF assms(2)])
  have "no_faults w1" using no_faults_same [OF GetConfigMetricsMount_same_os [OF m]] assms(3) by simp
  then have "ReadSpec L h' w' u = Inr ((claim_spec w1 ds mnts)\<lparr>spec_Version := ver\<rparr>)"
    using cdi_library.read_written [OF assms(1), of h' u w1] ws assms(4,5) by (simp add: h')
  moreover have "ce_Env (spec_ContainerEdits (claim_spec w1 ds mnts)) =
      (let pf = filter (\<lambda>d. pd_ProductID d \<noteq> ProductIDVf) (elems ds);
           vf = filter (\<lambda>d. pd_ProductID d = ProductIDVf) (elems ds)
       in (if pf = [] then [] else [GetDeviceEnvs ProductIDPf (map pd_PciAddress pf)]) @
          (if vf = [] then [] else [GetDeviceEnvs ProductIDVf (map pd_PciAddress vf)]))"
    by (simp add: claim_spec_def split_ids Let_def)
  ultimately show ?thesis
    using m claim_spec_devices [where w = w1 and ds = ds and mnts = mnts] by (simp add: cdi_device_def noEdits_def)
qed

definition sample_handler :: CDIHandler where
  "sample_handler = \<lparr>cdi_root = ''/r'', configHandler = Map.empty\<rparr>"

definition sample_prepared :: PreparedDevices where
  "sample_prepared = Some [\<lparr>pd_Device = \<lparr>RequestNames = [''req''], PoolName = ''node'', DeviceName = ''0000-1a-00-0'',
       CdiDeviceIds = GetClaimDevices file_lib [''0000-1a-00-0'']\<rparr>,
     pd_ProductID = ProductIDPf, pd_Config = clp_Config DefaultParams, pd_PciAddress = ''0000:1a:00.0'',
     pd_CDIDeviceSpec = [vfioNode ''/dev/vfio/vfio'']\<rparr>]"

lemma sample_create_ok:
  "fst (CreateClaimSpecFile file_lib mount_vars sample_handler mount_world ''c1'' sample_prepared) = None"
  by code_simp

theorem claim_spec_readable_witness:
  "\<exists>h' w' spec. CreateClaimSpecFile file_lib mount_vars sample_handler mount_world ''c1'' sample_prepared = (None, h', w') \<and>
     ReadSpec file_lib h' w' ''c1'' = Inr spec \<and> map cd_Name (spec_Devices spec) = [''0000-1a-00-0'']"
proof -
  obtain h' w' where r: "CreateClaimSpecFile file_lib mount_vars sample_handler mount_world ''c1'' sample_prepared = (None, h', w')"
    using sample_create_ok by (metis prod.collapse)
  have nf: "no_faults mount_world" by (simp add: no_faults_def mount_world_def)
  obtain spec where "ReadSpec file_lib h' w' ''c1'' = Inr spec"
      "map cd_Name (spec_Devices spec) = map (\<lambda>d. DeviceName (pd_Device d)) (elems sample_prepared)"
    using claim_spec_readable [OF file_lib.cdi_library_axioms r nf] by (auto simp: sample_handler_def plain_name_def)
  with r show ?thesis by (simp add: sample_prepared_def elems_def)
qed

section \<open>Clean-up of zombie folders\<close>

lemma lookup_deleteMountedPath:
  "lookup (deleteMountedPath p w) q =
     (if comps p \<noteq> [] \<and> prefix (comps p) q \<and> \<not> stuck w (comps p) q \<and> q \<noteq> [] \<and> q \<noteq> [''/''] then None else lookup w q)"
  by (simp add: deleteMountedPath_def lookup_RemoveAll)

lemma deleteMountedPath_same_os [simp]: "same_os v (deleteMountedPath p w) = same_os v w"
  by (simp add: deleteMountedPath_def)

lemma deleteMountedPath_gone:
  assumes "no_faults w" "comps p \<noteq> []" "prefix (comps p) q" "q \<noteq> [''/'']"
  shows "lookup (deleteMountedPath p w) q = None"
  using assms by (auto simp: lookup_deleteMountedPath stuck_def list_ex_iff no_faultsD)

text \<open>Deleting a list of paths: what is below one of them goes, the rest stays.\<close>

lemma delete_fold:
  assumes "no_faults w" "\<And>n. n \<in> set ns \<Longrightarrow> comps (f n) \<noteq> [] \<and> comps (g n) \<noteq> []" "q \<noteq> [''/'']"
  shows "lookup (fold (\<lambda>n w'. if keep n then w' else deleteMountedPath (g n) (deleteMountedPath (f n) w')) ns w) q =
    (if \<exists>n \<in> set ns. \<not> keep n \<and> (prefix (comps (f n)) q \<or> prefix (comps (g n)) q) then None else lookup w q)"
  using assms(1,2)
proof (induction ns arbitrary: w)
  case Nil
  then show ?case by simp
next
  case (Cons n ns)
  let ?w = "if keep n then w else deleteMountedPath (g n) (deleteMountedPath (f n) w)"
  have nf: "no_faults ?w" "no_faults (deleteMountedPath (f n) w)"
    using Cons.prems(1) no_faults_same [of w] deleteMountedPath_same_os [of w] same_os_refl by (metis (full_types))+
  have ne: "comps (f n) \<noteq> []" "comps (g n) \<noteq> []" using Cons.prems(2) by auto
  have stuck: "\<not> stuck w p q'" "\<not> stuck (deleteMountedPath (f n) w) p q'" for p q'
    using Cons.prems(1) nf(2) by (auto simp: stuck_def list_ex_iff no_faultsD)
  have "lookup ?w q = (if \<not> keep n \<and> (prefix (comps (f n)) q \<or> prefix (comps (g n)) q) then None else lookup w q)"
    using ne assms(3) by (auto simp: lookup_deleteMountedPath stuck)
  then show ?case using Cons.IH [OF nf(1)] Cons.prems(2) by auto
qed

lemma prefix_snoc_same: "prefix (p @ [m]) q \<Longrightarrow> prefix (p @ [n]) q \<Longrightarrow> m = n"
  by (auto simp: prefix_def)

lemma prefix_snoc_apart:
  "prefix (p @ [m]) q \<Longrightarrow> prefix (r @ [n]) q \<Longrightarrow> \<not> prefix p r \<Longrightarrow> \<not> prefix r p \<Longrightarrow> False"
  using prefix_same_cases append_prefixD by blast

definition apart :: "path \<Rightarrow> path \<Rightarrow> bool" where
  "apart p r \<longleftrightarrow> \<not> prefix p r \<and> \<not> prefix r p"

lemma zombie_lookup:
  assumes "CleanZombieConfigFolders L h w = (None, w')" "no_faults w"
    and "C = GetConfigHostPath w" "M = GetMetricsHostPath w" "apart (comps C) (comps M)"
  obtains paths where "Walk w (cdi_root h) = Inr paths"
    "\<And>q. q \<noteq> [''/''] \<Longrightarrow> lookup w' q = (if \<exists>n \<in> set (child_names w (comps C)).
      Join [C, n] \<notin> set (existing_mounts L h w paths) \<and> (prefix (comps C @ [n]) q \<or> prefix (comps M @ [n]) q)
      then None else lookup w q)"
proof -
  have ne: "C \<noteq> []" "M \<noteq> []" using assms(5) by (auto simp: apart_def)
  obtain paths names where p: "Walk w (cdi_root h) = Inr paths" "ReadDir w C = Inr names"
    using assms(1,3) by (auto simp: CleanZombieConfigFolders_def split: sum.splits)
  have names: "set names = set (child_names w (comps C))"
    using p(2) by (auto simp: ReadDir_def split: option.splits sum.splits node.splits)
  let ?keep = "\<lambda>n. Join [C, n] \<in> set (existing_mounts L h w paths)"
  have cj: "comps (Join [C, n]) = comps C @ [n]" "comps (Join [M, n]) = comps M @ [n]"
    if "n \<in> set names" for n
    using that child_names_plain ne by (simp_all add: names comps_Join)
  have w': "w' = fold (\<lambda>n w'. if ?keep n then w' else deleteMountedPath (Join [M, n]) (deleteMountedPath (Join [C, n]) w')) names w"
    using assms(1) p unfolding assms(3,4) by (simp add: CleanZombieConfigFolders_def)
  have look: "lookup w' q = (if \<exists>n \<in> set names. \<not> ?keep n \<and> (prefix (comps C @ [n]) q \<or> prefix (comps M @ [n]) q)
      then None else lookup w q)" if "q \<noteq> [''/'']" for q
    using delete_fold [OF assms(2) _ that, of names "\<lambda>n. Join [C, n]" "\<lambda>n. Join [M, n]" ?keep] cj
    unfolding w' by simp
  show thesis by (rule that [OF p(1) look [unfolded names]])
qed

text \<open>
  C15. \<open>CleanZombieConfigFolders\<close> on an undisturbed file system, with separate config and metrics
  directories: every entry of the config directory that no readable spec mounts goes, together
  with what the metrics directory has under its name, and nothing else on the disk changes.  So a
  mounted config folder stays with its metrics folder, a metrics folder that matches no entry of
  the config directory stays, and a spec file is only lost where it lies below a removed folder.
\<close>

theorem zombie_folders:
  assumes "CleanZombieConfigFolders L h w = (None, w')" "no_faults w"
    and "C = GetConfigHostPath w" "M = GetMetricsHostPath w" "apart (comps C) (comps M)"
  shows "\<exists>paths. Walk w (cdi_root h) = Inr paths \<and>
    (\<forall>n q. prefix (comps C @ [n]) q \<or> prefix (comps M @ [n]) q \<longrightarrow>
       lookup w' q = (if n \<in> set (child_names w (comps C)) \<and> Join [C, n] \<notin> set (existing_mounts L h w paths)
                      then None else lookup w q)) \<and>
    (\<forall>q. \<not> strict_prefix (comps C) q \<and> \<not> strict_prefix (comps M) q \<longrightarrow> lookup w' q = lookup w q)"
proof -
  obtain paths where p: "Walk w (cdi_root h) = Inr paths" and
    look: "\<And>q. q \<noteq> [''/''] \<Longrightarrow> lookup w' q = (if \<exists>n \<in> set (child_names w (comps C)).
      Join [C, n] \<notin> set (existing_mounts L h w paths) \<and> (prefix (comps C @ [n]) q \<or> prefix (comps M @ [n]) q)
      then None else lookup w q)"
    by (rule zombie_lookup [OF assms]) blast
  have ne: "comps C \<noteq> []" "comps M \<noteq> []" using assms(5) by (auto simp: apart_def)
  have "lookup w' q = (if n \<in> set (child_names w (comps C)) \<and> Join [C, n] \<notin> set (existing_mounts L h w paths)
      then None else lookup w q)" if q: "prefix (comps C @ [n]) q \<or> prefix (comps M @ [n]) q" for n q
  proof -
    have nr: "q \<noteq> [''/'']" using q ne by (auto dest: prefix_length_le)
    have "m = n" if "prefix (comps C @ [m]) q \<or> prefix (comps M @ [m]) q" for m
      using that q assms(5) prefix_snoc_same prefix_snoc_apart unfolding apart_def by metis
    then show ?thesis unfolding look [OF nr] using q by metis
  qed
  moreover have "lookup w' q = lookup w q" if "\<not> strict_prefix (comps C) q" "\<not> strict_prefix (comps M) q" for q
  proof (cases "q = [''/'']")
    case False
    have "\<not> prefix (comps C @ [n]) q" "\<not> prefix (comps M @ [n]) q" for n
      using that by (auto simp: prefix_def strict_prefix_def)
    then show ?thesis by (simp add: look [OF False])
  qed simp
  ultimately show ?thesis using p by blast
qed

definition zombie_spec :: CdiSpec where
  "zombie_spec = \<lparr>spec_Version = ''0.3.0'', spec_Kind = cdiKind, spec_Devices = [], spec_ContainerEdits = noEdits\<lparr>ce_Mounts :=
     [\<lparr>mnt_HostPath = ''/c/u8'', mnt_ContainerPath = ''/etc'', mnt_Options = []\<rparr>]\<rparr>\<rparr>"

text \<open>One folder a spec mounts, one that none mounts, and a metrics folder of neither name.\<close>

definition zombie_world :: world where
  "zombie_world = sample_world\<lparr>files := [([''/'', ''r''], Dir), ([''/'', ''r'', ''s.yaml''], File (SpecDoc zombie_spec)),
     ([''/'', ''c''], Dir), ([''/'', ''c'', ''u8''], Dir), ([''/'', ''c'', ''u9''], Dir), ([''/'', ''c'', ''u9'', ''f''], File (Raw [])),
     ([''/'', ''m''], Dir), ([''/'', ''m'', ''u7''], Dir), ([''/'', ''m'', ''u8''], Dir), ([''/'', ''m'', ''u9''], Dir)],
     faults := (\<lambda>op p. None), environ := [''CONFIG_HOSTPATH'' \<mapsto> ''/c'', ''SENTIENT_MAP_HOSTPATH'' \<mapsto> ''/m'']\<rparr>"

lemma zombie_facts:
  "fst (CleanZombieConfigFolders file_lib sample_handler zombie_world) = None"
  "GetConfigHostPath zombie_world = ''/c''" "GetMetricsHostPath zombie_world = ''/m''"
  "comps ''/c'' = [''/'', ''c'']" "comps ''/m'' = [''/'', ''m'']"
  "child_names zombie_world [''/'', ''c''] = [''u8'', ''u9'']"
  "map_sum id (\<lambda>ps. existing_mounts file_lib sample_handler zombie_world ps) (Walk zombie_world (cdi_root sample_handler)) = Inr [''/c/u8'']"
  "Join [''/c'', ''u7''] = ''/c/u7''" "Join [''/c'', ''u8''] = ''/c/u8''" "Join [''/c'', ''u9''] = ''/c/u9''"
  "map (lookup zombie_world) [[''/'', ''m'', ''u7''], [''/'', ''m'', ''u8''], [''/'', ''c'', ''u8'']] = [Some Dir, Some Dir, Some Dir]"
  by code_simp+

theorem zombie_folders_witness:
  "\<exists>w'. CleanZombieConfigFolders file_lib sample_handler zombie_world = (None, w') \<and>
     lookup w' [''/'', ''c'', ''u9'', ''f''] = None \<and> lookup w' [''/'', ''m'', ''u9''] = None \<and>
     lookup w' [''/'', ''c'', ''u8''] = Some Dir \<and> lookup w' [''/'', ''m'', ''u8''] = Some Dir \<and>
     lookup w' [''/'', ''m'', ''u7''] = Some Dir"
proof -
  note f = zombie_facts
  obtain w' where r: "CleanZombieConfigFolders file_lib sample_handler zombie_world = (None, w')"
    using f(1) by (metis prod.collapse)
  have nf: "no_faults zombie_world" by (simp add: no_faults_def zombie_world_def)
  have ap: "apart (comps (GetConfigHostPath zombie_world)) (comps (GetMetricsHostPath zombie_world))"
    by (simp add: f apart_def)
  obtain paths where paths: "Walk zombie_world (cdi_root sample_handler) = Inr paths" and
    z: "\<And>n q. prefix ([''/'', ''c''] @ [n]) q \<or> prefix ([''/'', ''m''] @ [n]) q \<Longrightarrow>
       lookup w' q = (if n \<in> {''u8'', ''u9''} \<and> Join [''/c'', n] \<notin> set (existing_mounts file_lib sample_handler zombie_world paths)
                      then None else lookup zombie_world q)"
    using zombie_folders [OF r nf refl refl ap] unfolding f by auto
  have "existing_mounts file_lib sample_handler zombie_world paths = [''/c/u8'']" using f(7) by (simp add: paths)
  with z [of "''u9''" "[''/'', ''c'', ''u9'', ''f'']"] z [of "''u9''" "[''/'', ''m'', ''u9'']"] z [of "''u8''" "[''/'', ''c'', ''u8'']"]
    z [of "''u8''" "[''/'', ''m'', ''u8'']"] z [of "''u7''" "[''/'', ''m'', ''u7'']"] f(11)
  show ?thesis using r by (simp add: f)
qed

end
