(* ===== verification/Checkpoint.thy ===== *)
theory Checkpoint
  imports CDI
begin

text \<open>
  \<^verbatim>\<open>internal/state/checkpoint.go\<close>: the checkpoint of the prepared claims, its JSON
  form and its checksum.  JSON documents are values of \<^verbatim>\<open>any\<close>; a Go struct is
  encoded with its field tags (\<open>omitempty\<close> drops zero values) and decoded with the zero
  value for a missing key and an error for a value of the wrong type.  The hash of the
  \<^verbatim>\<open>checksum\<close> package is the parameter \<open>hash\<close>.
  The checkpoint manager of the kubelet is the record \<^verbatim>\<open>ckpt_lib\<close>; the locale
  \<^verbatim>\<open>checkpoint_store\<close> says what the driver relies on, and is interpreted on a manager
  made of the three methods below.
\<close>

section \<open>Data\<close>

type_synonym PreparedClaims = "(string \<times> PreparedDevices) list"

record CheckpointV1 =
  cp_PreparedClaims :: "PreparedClaims option"     \<comment> \<open>\<open>None\<close>: the nil map\<close>

record Checkpoint =
  Checksum :: nat                                   \<comment> \<open>a \<open>uint64\<close>\<close>
  V1 :: "CheckpointV1 option"

definition newCheckpoint :: Checkpoint where
  "newCheckpoint = \<lparr>Checksum = 0, V1 = Some \<lparr>cp_PreparedClaims = Some []\<rparr>\<rparr>"

section \<open>JSON\<close>

definition omit_str :: "string \<Rightarrow> string \<Rightarrow> obj" where
  "omit_str k s = (if s = [] then [] else [(k, AStr s)])"

definition omit_strs :: "string \<Rightarrow> string list \<Rightarrow> obj" where
  "omit_strs k ss = (if ss = [] then [] else [(k, AList (map AStr ss))])"

definition enc_node :: "DeviceNode \<Rightarrow> any" where
  "enc_node n = AMap ([(''path'', AStr (dn_Path n))] @ omit_str ''hostPath'' (dn_HostPath n) @
     omit_str ''permissions'' (dn_Permissions n))"

definition enc_config :: "SpyreConfig \<Rightarrow> any" where
  "enc_config c = AMap (case SenlibConfigTemplateFile c of
       None \<Rightarrow> []
     | Some ov \<Rightarrow> [(''override'', AMap (case ov of None \<Rightarrow> [] | Some f \<Rightarrow> [(''senlibTemplateFile'', AStr f)]))])"

definition enc_prepared :: "PreparedDevice \<Rightarrow> any" where
  "enc_prepared d = AMap
     (omit_strs ''request_names'' (RequestNames (pd_Device d)) @
      omit_str ''pool_name'' (PoolName (pd_Device d)) @
      omit_str ''device_name'' (DeviceName (pd_Device d)) @
      omit_strs ''cdi_device_ids'' (CdiDeviceIds (pd_Device d)) @
      omit_str ''productId'' (pd_ProductID d) @
      [(''Config'', enc_config (pd_Config d)), (''PciAddress'', AStr (pd_PciAddress d)),
       (''CDIDeviceSpec'', AList (map enc_node (pd_CDIDeviceSpec d)))])"

definition enc_devices :: "PreparedDevices \<Rightarrow> any" where
  "enc_devices ds = (case ds of None \<Rightarrow> ANil | Some xs \<Rightarrow> AList (map enc_prepared xs))"

definition enc_v1 :: "CheckpointV1 \<Rightarrow> any" where
  "enc_v1 v = AMap (case cp_PreparedClaims v of
       None \<Rightarrow> []
     | Some cs \<Rightarrow> if cs = [] then [] else [(''preparedClaims'', AMap (map (\<lambda>(u, ds). (u, enc_devices ds)) cs))])"

definition enc_checkpoint :: "Checkpoint \<Rightarrow> any" where
  "enc_checkpoint cp = AMap ([(''checksum'', ANum (digits_of (Checksum cp)))] @
     (case V1 cp of None \<Rightarrow> [] | Some v \<Rightarrow> [(''v1'', enc_v1 v)]))"

text \<open>Decoders: \<open>None\<close> is the decoding error.\<close>

fun dec_str :: "any option \<Rightarrow> string option" where
  "dec_str None = Some []"
| "dec_str (Some ANil) = Some []"
| "dec_str (Some (AStr s)) = Some s"
| "dec_str (Some _) = None"

fun dec_all :: "('a \<Rightarrow> 'b option) \<Rightarrow> 'a list \<Rightarrow> 'b list option" where
  "dec_all f [] = Some []"
| "dec_all f (x # xs) =
     (case f x of None \<Rightarrow> None | Some y \<Rightarrow> (case dec_all f xs of None \<Rightarrow> None | Some ys \<Rightarrow> Some (y # ys)))"

fun dec_list :: "(any \<Rightarrow> 'b option) \<Rightarrow> any option \<Rightarrow> 'b list option" where
  "dec_list f None = Some []"
| "dec_list f (Some ANil) = Some []"
| "dec_list f (Some (AList vs)) = dec_all f vs"
| "dec_list f (Some _) = None"

definition dec_strs :: "any option \<Rightarrow> string list option" where
  "dec_strs = dec_list (\<lambda>v. dec_str (Some v))"

fun dec_node :: "any \<Rightarrow> DeviceNode option" where
  "dec_node (AMap m) =
     (case (dec_str (obj_get m ''path''), dec_str (obj_get m ''hostPath''), dec_str (obj_get m ''permissions'')) of
        (Some p, Some h, Some r) \<Rightarrow> Some \<lparr>dn_Path = p, dn_HostPath = h, dn_Permissions = r\<rparr>
      | _ \<Rightarrow> None)"
| "dec_node _ = None"

fun dec_override :: "any \<Rightarrow> string option option" where
  "dec_override (AMap m) =
     (case obj_get m ''senlibTemplateFile'' of
        None \<Rightarrow> Some None
      | Some v \<Rightarrow> (case v of ANil \<Rightarrow> Some None | AStr s \<Rightarrow> Some (Some s) | _ \<Rightarrow> None))"
| "dec_override _ = None"

fun dec_config :: "any option \<Rightarrow> SpyreConfig option" where
  "dec_config None = Some \<lparr>SenlibConfigTemplateFile = None\<rparr>"
| "dec_config (Some (AMap m)) =
     (case obj_get m ''override'' of
        None \<Rightarrow> Some \<lparr>SenlibConfigTemplateFile = None\<rparr>
      | Some v \<Rightarrow>
          if v = ANil then Some \<lparr>SenlibConfigTemplateFile = None\<rparr>
          else (case dec_override v of None \<Rightarrow> None | Some ov \<Rightarrow> Some \<lparr>SenlibConfigTemplateFile = Some ov\<rparr>))"
| "dec_config (Some ANil) = Some \<lparr>SenlibConfigTemplateFile = None\<rparr>"
| "dec_config (Some _) = None"

fun dec_prepared :: "any \<Rightarrow> PreparedDevice option" where
  "dec_prepared (AMap m) =
     (case dec_strs (obj_get m ''request_names'') of None \<Rightarrow> None | Some rn \<Rightarrow>
     (case dec_str (obj_get m ''pool_name'') of None \<Rightarrow> None | Some pn \<Rightarrow>
     (case dec_str (obj_get m ''device_name'') of None \<Rightarrow> None | Some dn \<Rightarrow>
     (case dec_strs (obj_get m ''cdi_device_ids'') of None \<Rightarrow> None | Some ci \<Rightarrow>
     (case dec_str (obj_get m ''productId'') of None \<Rightarrow> None | Some pid \<Rightarrow>
     (case dec_config (obj_get m ''Config'') of None \<Rightarrow> None | Some cf \<Rightarrow>
     (case dec_str (obj_get m ''PciAddress'') of None \<Rightarrow> None | Some pa \<Rightarrow>
     (case dec_list dec_node (obj_get m ''CDIDeviceSpec'') of None \<Rightarrow> None | Some ns \<Rightarrow>
        Some \<lparr>pd_Device = \<lparr>RequestNames = rn, PoolName = pn, DeviceName = dn, CdiDeviceIds = ci\<rparr>,
              pd_ProductID = pid, pd_Config = cf, pd_PciAddress = pa, pd_CDIDeviceSpec = ns\<rparr>))))))))"
| "dec_prepared _ = None"

fun dec_devices :: "any \<Rightarrow> PreparedDevices option" where
  "dec_devices ANil = Some None"
| "dec_devices (AList vs) = map_option Some (dec_all dec_prepared vs)"
| "dec_devices _ = None"

text \<open>A JSON object is decoded into a map key by key, on top of what the map holds.\<close>

fun dec_claims :: "PreparedClaims \<Rightarrow> obj \<Rightarrow> PreparedClaims option" where
  "dec_claims acc [] = Some acc"
| "dec_claims acc ((u, v) # m) =
     (case dec_devices v of None \<Rightarrow> None | Some ds \<Rightarrow> dec_claims (obj_set acc u ds) m)"

fun dec_v1 :: "CheckpointV1 option \<Rightarrow> any \<Rightarrow> CheckpointV1 option option" where
  "dec_v1 old ANil = Some None"
| "dec_v1 old (AMap m) =
     (let base = (case old of None \<Rightarrow> None | Some v \<Rightarrow> cp_PreparedClaims v) in
      case obj_get m ''preparedClaims'' of
        None \<Rightarrow> Some (Some \<lparr>cp_PreparedClaims = base\<rparr>)
      | Some ANil \<Rightarrow> Some (Some \<lparr>cp_PreparedClaims = None\<rparr>)
      | Some (AMap cs) \<Rightarrow>
          map_option (\<lambda>r. Some \<lparr>cp_PreparedClaims = Some r\<rparr>) (dec_claims (case base of None \<Rightarrow> [] | Some b \<Rightarrow> b) cs)
      | Some _ \<Rightarrow> None)"
| "dec_v1 old _ = None"

definition dec_uint64 :: "any option \<Rightarrow> nat \<Rightarrow> nat option" where
  "dec_uint64 v old =
     (case v of
        None \<Rightarrow> Some old
      | Some ANil \<Rightarrow> Some old
      | Some (ANum s) \<Rightarrow>
          (case parse_digits 10 0 s of
             None \<Rightarrow> None
           | Some n \<Rightarrow> if s \<noteq> [] \<and> int n < 2 ^ 64 then Some n else None)
      | Some _ \<Rightarrow> None)"

section \<open>The methods\<close>

definition MarshalCheckpoint :: "(any \<Rightarrow> nat) \<Rightarrow> Checkpoint \<Rightarrow> content \<times> Checkpoint" where
  "MarshalCheckpoint hash cp =
     (let cp0 = cp\<lparr>Checksum := 0\<rparr>; cp1 = cp0\<lparr>Checksum := hash (enc_checkpoint cp0)\<rparr>
      in (Doc (enc_checkpoint cp1), cp1))"

fun UnmarshalCheckpoint :: "Checkpoint \<Rightarrow> content \<Rightarrow> err + Checkpoint" where
  "UnmarshalCheckpoint cp (Doc (AMap m)) =
     (case dec_uint64 (obj_get m ''checksum'') (Checksum cp) of
        None \<Rightarrow> Inl (Msg ''json'')
      | Some ck \<Rightarrow>
          (case obj_get m ''v1'' of
             None \<Rightarrow> Inr (cp\<lparr>Checksum := ck\<rparr>)
           | Some v \<Rightarrow>
               (case dec_v1 (V1 cp) v of
                  None \<Rightarrow> Inl (Msg ''json'')
                | Some v1 \<Rightarrow> Inr \<lparr>Checksum = ck, V1 = v1\<rparr>)))"
| "UnmarshalCheckpoint cp (Doc ANil) = Inr cp"
| "UnmarshalCheckpoint cp _ = Inl (Msg ''json'')"

definition VerifyChecksum :: "(any \<Rightarrow> nat) \<Rightarrow> Checkpoint \<Rightarrow> err option" where
  "VerifyChecksum hash cp =
     (if Checksum cp = hash (enc_checkpoint (cp\<lparr>Checksum := 0\<rparr>)) then None else Some (Msg ''checkpoint is corrupted''))"

section \<open>Decoding what was encoded\<close>

lemma obj_get_append [simp]:
  "obj_get (a @ b) k = (case obj_get a k of None \<Rightarrow> obj_get b k | Some v \<Rightarrow> Some v)"
  by (simp add: obj_get_def map_add_def split: option.split)

lemma obj_get_omit [simp]:
  "obj_get (omit_str k s) k' = (if k' = k \<and> s \<noteq> [] then Some (AStr s) else None)"
  "obj_get (omit_strs k ss) k' = (if k' = k \<and> ss \<noteq> [] then Some (AList (map AStr ss)) else None)"
  by (simp_all add: omit_str_def omit_strs_def)

lemma dec_all_map: "(\<And>x. x \<in> set xs \<Longrightarrow> f (g x) = Some x) \<Longrightarrow> dec_all f (map g xs) = Some xs"
  by (induction xs) auto

lemma dec_strs_enc [simp]: "dec_strs (Some (AList (map AStr ss))) = Some ss" "dec_strs None = Some []"
  by (simp_all add: dec_strs_def dec_all_map)

lemma dec_node_enc [simp]: "dec_node (enc_node n) = Some n"
  by (simp add: enc_node_def)

lemma dec_config_enc [simp]: "dec_config (Some (enc_config c)) = Some c"
proof (cases "SenlibConfigTemplateFile c")
  case None
  then show ?thesis by (cases c) (simp add: enc_config_def)
next
  case (Some ov)
  then show ?thesis by (cases c; cases ov) (simp_all add: enc_config_def)
qed

lemma dec_prepared_enc [simp]: "dec_prepared (enc_prepared d) = Some d"
  by (simp add: enc_prepared_def dec_all_map)

lemma dec_devices_enc [simp]: "dec_devices (enc_devices ds) = Some ds"
  by (cases ds) (simp_all add: enc_devices_def dec_all_map)

lemma obj_set_fresh: "k \<notin> fst ` set m \<Longrightarrow> obj_set m k v = m @ [(k, v)]"
  by (induction m k v rule: obj_set.induct) auto

lemma dec_claims_enc:
  "distinct (map fst (acc @ cs)) \<Longrightarrow> dec_claims acc (map (\<lambda>(u, ds). (u, enc_devices ds)) cs) = Some (acc @ cs)"
  by (induction cs arbitrary: acc) (auto simp: obj_set_fresh)

lemma parse_digits_digits [simp]: "parse_digits 10 0 (digits_of n) = Some n"
  by (rule parse_digits_of)

text \<open>A checkpoint the code builds: both pointers set, one entry per claim.\<close>

definition proper_ckpt :: "Checkpoint \<Rightarrow> bool" where
  "proper_ckpt cp =
     (case V1 cp of None \<Rightarrow> False
      | Some v \<Rightarrow> (case cp_PreparedClaims v of None \<Rightarrow> False | Some cs \<Rightarrow> distinct (map fst cs)))"

lemma proper_ckpt_iff: "proper_ckpt cp \<longleftrightarrow> (\<exists>cs. V1 cp = Some \<lparr>cp_PreparedClaims = Some cs\<rparr> \<and> distinct (map fst cs))"
proof (cases "V1 cp")
  case (Some v)
  then show ?thesis by (cases v; cases "cp_PreparedClaims v") (simp_all add: proper_ckpt_def)
qed (simp add: proper_ckpt_def)

lemma Unmarshal_enc:
  assumes "proper_ckpt cp" "int (Checksum cp) < 2 ^ 64"
  shows "UnmarshalCheckpoint newCheckpoint (Doc (enc_checkpoint cp)) = Inr cp"
proof -
  obtain cs where cs: "V1 cp = Some \<lparr>cp_PreparedClaims = Some cs\<rparr>" "distinct (map fst cs)"
    using assms(1) by (auto simp: proper_ckpt_iff)
  have "dec_v1 (V1 newCheckpoint) (enc_v1 \<lparr>cp_PreparedClaims = Some cs\<rparr>) = Some (Some \<lparr>cp_PreparedClaims = Some cs\<rparr>)"
    using dec_claims_enc [of "[]" cs] cs(2) by (cases cs) (simp_all add: enc_v1_def newCheckpoint_def)
  then show ?thesis
    using cs(1) assms(2) by (cases cp) (simp add: enc_checkpoint_def dec_uint64_def del: dec_v1.simps)
qed

section \<open>Properties\<close>

text \<open>
  C33. What \<open>MarshalCheckpoint\<close> writes, \<open>UnmarshalCheckpoint\<close> reads back into a new
  checkpoint: the same claims with the same devices, and a checksum that
  \<open>VerifyChecksum\<close> accepts.
\<close>

theorem checkpoint_roundtrip:
  assumes "proper_ckpt cp" "\<And>d. int (hash d) < 2 ^ 64"
  shows "\<exists>cp'. UnmarshalCheckpoint newCheckpoint (fst (MarshalCheckpoint hash cp)) = Inr cp' \<and>
    V1 cp' = V1 cp \<and> VerifyChecksum hash cp' = None"
proof -
  let ?cp = "snd (MarshalCheckpoint hash cp)"
  have "proper_ckpt ?cp" "int (Checksum ?cp) < 2 ^ 64" "V1 ?cp = V1 cp"
    using assms by (simp_all add: MarshalCheckpoint_def Let_def proper_ckpt_iff)
  then show ?thesis
    using Unmarshal_enc [of ?cp] by (simp add: MarshalCheckpoint_def Let_def VerifyChecksum_def)
qed

definition size_hash :: "any \<Rightarrow> nat" where "size_hash d = size d mod 97"

lemma size_hash_bound: "int (size_hash d) < 2 ^ 64"
proof -
  have "size_hash d < 97" by (simp add: size_hash_def)
  then show ?thesis by simp
qed

definition sample_ckpt :: Checkpoint where
  "sample_ckpt = newCheckpoint\<lparr>V1 := Some \<lparr>cp_PreparedClaims = Some [(''c1'', sample_prepared), (''c2'', None)]\<rparr>\<rparr>"

theorem checkpoint_roundtrip_witness:
  "\<exists>cp'. UnmarshalCheckpoint newCheckpoint (fst (MarshalCheckpoint size_hash sample_ckpt)) = Inr cp' \<and> V1 cp' = V1 sample_ckpt"
proof -
  have "proper_ckpt sample_ckpt" by (simp add: proper_ckpt_iff sample_ckpt_def)
  from checkpoint_roundtrip [OF this, of size_hash, OF size_hash_bound] show ?thesis by blast
qed

section \<open>The checkpoint manager\<close>

record 's ckpt_lib =
  NewCheckpointManager :: "string \<Rightarrow> 's \<Rightarrow> err option \<times> 's"
  CreateCheckpoint :: "string \<Rightarrow> Checkpoint \<Rightarrow> 's \<Rightarrow> err option \<times> 's"
  GetCheckpoint :: "string \<Rightarrow> Checkpoint \<Rightarrow> 's \<Rightarrow> err + Checkpoint"
  ListCheckpoints :: "'s \<Rightarrow> err + string list"

text \<open>
  A checkpoint that was created is read back, a failed creation leaves the old one, and the
  names are those created.
\<close>

locale checkpoint_store =
  fixes K :: "'s ckpt_lib"
  assumes create_get: "proper_ckpt cp \<Longrightarrow> CreateCheckpoint K k cp s = (None, s') \<Longrightarrow>
      \<exists>cp'. GetCheckpoint K k newCheckpoint s' = Inr cp' \<and> V1 cp' = V1 cp"
    and create_fail: "CreateCheckpoint K k cp s = (Some e, s') \<Longrightarrow> GetCheckpoint K k' cp' s' = GetCheckpoint K k' cp' s"
    and new_manager: "NewCheckpointManager K d s = (r, s') \<Longrightarrow> GetCheckpoint K k cp s' = GetCheckpoint K k cp s"
    and get_proper: "GetCheckpoint K k newCheckpoint s = Inr cp \<Longrightarrow> proper_ckpt cp"
    and list_complete: "ListCheckpoints K s = Inr ks \<Longrightarrow> GetCheckpoint K k newCheckpoint s = Inr cp \<Longrightarrow> k \<in> set ks"

text \<open>A manager made of the methods: a directory of documents, which may be full.\<close>

record ckpt_dir =
  entries :: "(string \<times> content) list"
  disk_full :: bool

definition dir_create :: "(any \<Rightarrow> nat) \<Rightarrow> string \<Rightarrow> Checkpoint \<Rightarrow> ckpt_dir \<Rightarrow> err option \<times> ckpt_dir" where
  "dir_create hash k cp s =
     (if disk_full s then (Some (IOErr ''no space''), s)
      else (None, s\<lparr>entries := obj_set (entries s) k (fst (MarshalCheckpoint hash cp))\<rparr>))"

definition dir_get :: "(any \<Rightarrow> nat) \<Rightarrow> string \<Rightarrow> Checkpoint \<Rightarrow> ckpt_dir \<Rightarrow> err + Checkpoint" where
  "dir_get hash k cp s =
     (case obj_get (entries s) k of
        None \<Rightarrow> Inl NotExist
      | Some c \<Rightarrow>
          (case UnmarshalCheckpoint cp c of
             Inl e \<Rightarrow> Inl e
           | Inr cp' \<Rightarrow> (case VerifyChecksum hash cp' of Some e \<Rightarrow> Inl e | None \<Rightarrow>
               if proper_ckpt cp' then Inr cp' else Inl (Msg ''checkpoint is corrupted''))))"

definition dir_lib :: "ckpt_dir ckpt_lib" where
  "dir_lib = \<lparr>NewCheckpointManager = (\<lambda>d s. (None, s)), CreateCheckpoint = dir_create size_hash, GetCheckpoint = dir_get size_hash,
     ListCheckpoints = (\<lambda>s. Inr (map fst (entries s)))\<rparr>"

interpretation dir_store: checkpoint_store dir_lib
proof
  fix cp k s s' e k' cp' d r
  show "\<exists>cp'. GetCheckpoint dir_lib k newCheckpoint s' = Inr cp' \<and> V1 cp' = V1 cp"
    if p: "proper_ckpt cp" and c: "CreateCheckpoint dir_lib k cp s = (None, s')"
  proof -
    let ?cp = "snd (MarshalCheckpoint size_hash cp)"
    have "proper_ckpt ?cp" "int (Checksum ?cp) < 2 ^ 64" "V1 ?cp = V1 cp"
      using p size_hash_bound by (simp_all add: MarshalCheckpoint_def Let_def proper_ckpt_iff)
    moreover have "obj_get (entries s') k = Some (Doc (enc_checkpoint ?cp))"
      using c by (auto simp: dir_lib_def dir_create_def MarshalCheckpoint_def Let_def split: if_splits)
    ultimately show ?thesis
      using Unmarshal_enc [of ?cp]
      by (simp add: dir_lib_def dir_get_def VerifyChecksum_def MarshalCheckpoint_def Let_def)
  qed
  show "GetCheckpoint dir_lib k' cp' s' = GetCheckpoint dir_lib k' cp' s"
    if "CreateCheckpoint dir_lib k cp s = (Some e, s')"
    using that by (auto simp: dir_lib_def dir_create_def split: if_splits)
  show "GetCheckpoint dir_lib k cp s' = GetCheckpoint dir_lib k cp s" if "NewCheckpointManager dir_lib d s = (r, s')"
    using that by (simp add: dir_lib_def)
  show "proper_ckpt cp" if "GetCheckpoint dir_lib k newCheckpoint s = Inr cp"
    using that by (auto simp: dir_lib_def dir_get_def split: option.splits sum.splits if_splits)
  show "k \<in> set ks" if l: "ListCheckpoints dir_lib s = Inr ks" and g: "GetCheckpoint dir_lib k newCheckpoint s = Inr cp" for ks
  proof -
    obtain c where "obj_get (entries s) k = Some c" using g by (auto simp: dir_lib_def dir_get_def split: option.splits)
    then have "(k, c) \<in> set (entries s)" by (auto simp: obj_get_def dest: map_of_SomeD)
    then show ?thesis using l by (force simp: dir_lib_def)
  qed
qed

end
