(* ===== verification/Configuration.thy ===== *)
theory Configuration
  imports Utils
begin

text \<open>
  \<^verbatim>\<open>pkg/flags/flags.go\<close> and \<^verbatim>\<open>pkg/flags/driver_params.go\<close>: the
  command-line flags the driver's own code reads.  The Kubernetes client and the logging
  configuration are left out: nothing below inspects them.
\<close>

record DiscoveryConfig =
  TopologyFilepath :: string
  DisableVirtualFunction :: bool

record Flags =
  DiscoveryFlags :: DiscoveryConfig
  NodeName :: string
  CDIRoot :: string
  KubeletRegistrarDirectoryPath :: string
  KubeletPluginsDirectoryPath :: string
  HealthCheckPort :: int

definition configDriverPluginPath :: "Flags \<Rightarrow> string" where
  "configDriverPluginPath c = Join [KubeletPluginsDirectoryPath c, DriverName]"

end
