(* ===== verification/DeviceState.thy ===== *)
theory DeviceState
  imports Checkpoint Configuration
begin

text \<open>
  \<^verbatim>\<open>internal/state/state.go\<close>: the claims the kubelet asks to prepare and unprepare,
  and the published devices.  A \<^verbatim>\<open>machine\<close> is the process's \<open>DeviceState\<close> and
  package variables together with what outlives the process, the checkpoint store and the
  operating system; \<^verbatim>\<open>deps\<close> are the libraries.  Every method holds the mutex from
  its first to its last line, so a method is one function on the machine.  A method that panics
  returns \<open>GoPanic\<close>.
\<close>

section \<open>Data\<close>

record AllocationResult =
  res_Request :: string
  res_Driver :: string
  res_Pool :: string
  res_Device :: string

record ResourceClaim =
  claim_UID :: string
  claim_Allocation :: "AllocationResult list option"     \<comment> \<open>\<open>None\<close>: not allocated\<close>

record DeviceState =
  ds_CDI :: CDIHandler
  Allocatable :: AllocatableDevices
  deviceDiscovery :: DeviceDiscovery

record 's machine =
  dstate :: DeviceState
  vars :: config_vars
  store :: 's
  os :: world

record 's deps =
  libC :: cdi_lib
  libK :: "'s ckpt_lib"
  sys :: sysfs

section \<open>Preparing a claim\<close>

definition prepared_device :: "cdi_lib \<Rightarrow> sysfs \<Rightarrow> AllocationResult \<Rightarrow> SpyreDevice \<Rightarrow> PreparedDevice" where
  "prepared_device L S r a =
     \<lparr>pd_Device = \<lparr>RequestNames = [res_Request r], PoolName = res_Pool r, DeviceName = res_Device r,
        CdiDeviceIds = GetClaimDevices L [res_Device r]\<rparr>,
      pd_ProductID = sd_ProductID a, pd_Config = clp_Config DefaultParams,
      pd_PciAddress = GetPciAddr (sd_PciDevice a), pd_CDIDeviceSpec = GetCDIDeviceSpec S (sd_PciDevice a)\<rparr>"

fun prepare_results ::
    "cdi_lib \<Rightarrow> sysfs \<Rightarrow> AllocatableDevices \<Rightarrow> AllocationResult list \<Rightarrow> PreparedDevices \<Rightarrow> err + PreparedDevices" where
  "prepare_results L S A [] acc = Inr acc"
| "prepare_results L S A (r # rs) acc =
     (if res_Driver r \<noteq> DriverName then prepare_results L S A rs acc
      else case A (res_Device r) of
             None \<Rightarrow> Inl (Msg ''requested device is not allocatable'')
           | Some a \<Rightarrow>
               (let d = prepared_device L S r a in
                case ApplyConfig d of
                  Some e \<Rightarrow> Inl (wrap ''error applying GPU config'' e)
                | None \<Rightarrow> prepare_results L S A rs (Some (elems acc @ [d]))))"

definition prepareDevices :: "'s deps \<Rightarrow> DeviceState \<Rightarrow> ResourceClaim \<Rightarrow> err + PreparedDevices" where
  "prepareDevices D s claim =
     (case claim_Allocation claim of
        None \<Rightarrow> Inl (Msg ''claim not yet allocated'')
      | Some results \<Rightarrow> prepare_results (libC D) (sys D) (Allocatable s) results None)"

text \<open>Reading an entry of the map, which may be nil: \<open>None\<close> is the nil slice.\<close>

definition claim_entry :: "PreparedClaims option \<Rightarrow> string \<Rightarrow> PreparedDevices" where
  "claim_entry m u = (case m of None \<Rightarrow> None | Some cs \<Rightarrow> (case obj_get cs u of None \<Rightarrow> None | Some ds \<Rightarrow> ds))"

definition with_claims :: "Checkpoint \<Rightarrow> PreparedClaims \<Rightarrow> Checkpoint" where
  "with_claims cp cs = cp\<lparr>V1 := Some \<lparr>cp_PreparedClaims = Some cs\<rparr>\<rparr>"

definition Prepare :: "'s deps \<Rightarrow> ResourceClaim \<Rightarrow> 's machine \<Rightarrow> (err + pb_Device list) \<times> 's machine" where
  "Prepare D claim m =
     (let claimUID = claim_UID claim in
      case GetCheckpoint (libK D) DriverPluginCheckpointFile newCheckpoint (store m) of
        Inl e \<Rightarrow> (Inl (wrap ''unable to get checkpoint on prepare'' e), m)
      | Inr checkpoint \<Rightarrow>
     (case V1 checkpoint of
        None \<Rightarrow> (Inl (GoPanic ''nil pointer dereference''), m)
      | Some v1 \<Rightarrow>
     (case claim_entry (cp_PreparedClaims v1) claimUID of
        Some ds \<Rightarrow> (Inr (GetPreparedDevices (Some ds)), m)
      | None \<Rightarrow>
     (case prepareDevices D (dstate m) claim of
        Inl e \<Rightarrow> (Inl (wrap ''prepare failed'' e), m)
      | Inr preparedDevices \<Rightarrow>
     (case CreateClaimSpecFile (libC D) (vars m) (ds_CDI (dstate m)) (os m) claimUID preparedDevices of
        (e, h, w) \<Rightarrow>
     (let m1 = m\<lparr>dstate := (dstate m)\<lparr>ds_CDI := h\<rparr>, os := w\<rparr> in
      case e of
        Some err \<Rightarrow> (Inl (wrap ''unable to create CDI spec file for claim'' err), m1)
      | None \<Rightarrow>
     (case cp_PreparedClaims v1 of
        None \<Rightarrow> (Inl (GoPanic ''assignment to entry in nil map''), m1)
      | Some claims \<Rightarrow>
     (case CreateCheckpoint (libK D) DriverPluginCheckpointFile
             (with_claims checkpoint (obj_set claims claimUID preparedDevices)) (store m1) of
        (Some err, s) \<Rightarrow> (Inl (wrap ''unable to sync current checkpoint'' err), m1\<lparr>store := s\<rparr>)
      | (None, s) \<Rightarrow> (Inr (GetPreparedDevices preparedDevices), m1\<lparr>store := s\<rparr>)))))))))"

section \<open>Unpreparing a claim\<close>

definition unprepareDevices :: "'s deps \<Rightarrow> string \<Rightarrow> 's machine \<Rightarrow> 's machine" where
  "unprepareDevices D claimUID m =
     (case ReadSpec (libC D) (ds_CDI (dstate m)) (os m) claimUID of
        Inl e \<Rightarrow> m
      | Inr spec \<Rightarrow> m\<lparr>os := DeleteConfigFile spec (os m)\<rparr>)"

definition obj_del :: "('k \<times> 'v) list \<Rightarrow> 'k \<Rightarrow> ('k \<times> 'v) list" where
  "obj_del m k = filter (\<lambda>(k', v). k' \<noteq> k) m"

definition Unprepare :: "'s deps \<Rightarrow> string \<Rightarrow> 's machine \<Rightarrow> err option \<times> 's machine" where
  "Unprepare D claimUID m =
     (case GetCheckpoint (libK D) DriverPluginCheckpointFile newCheckpoint (store m) of
        Inl e \<Rightarrow> (Some (wrap ''unable to get checkpoint on unprepare'' e), m)
      | Inr checkpoint \<Rightarrow>
     (case V1 checkpoint of
        None \<Rightarrow> (Some (GoPanic ''nil pointer dereference''), m)
      | Some v1 \<Rightarrow>
     (case cp_PreparedClaims v1 of
        None \<Rightarrow> (None, m)
      | Some claims \<Rightarrow>
          if claim_entry (Some claims) claimUID = None then (None, m)
          else
            (let m1 = unprepareDevices D claimUID m in
             case CreateCheckpoint (libK D) DriverPluginCheckpointFile
                    (with_claims checkpoint (obj_del claims claimUID)) (store m1) of
               (Some err, s) \<Rightarrow> (Some (wrap ''unable to sync to checkpoint'' err), m1\<lparr>store := s\<rparr>)
             | (None, s) \<Rightarrow>
                 (case DeleteClaimSpec (libC D) (ds_CDI (dstate m1)) (os m1) claimUID of
                    (Some err, w) \<Rightarrow> (Some (wrap ''unable to delete CDI spec file for claim'' err), m1\<lparr>store := s, os := w\<rparr>)
                  | (None, w) \<Rightarrow> (None, m1\<lparr>store := s, os := w\<rparr>))))))"

section \<open>Published devices\<close>

definition has_state :: "SpyreDevice \<Rightarrow> string \<Rightarrow> bool" where
  "has_state d s = (case sd_Attributes d ''deviceState'' of None \<Rightarrow> False | Some a \<Rightarrow> StringValue a = Some s)"

definition set_state :: "SpyreDevice \<Rightarrow> string \<Rightarrow> SpyreDevice" where
  "set_state d s = d\<lparr>sd_Attributes := (sd_Attributes d)(DeviceStateAttribute \<mapsto> GetStringDeviceAttribute s)\<rparr>"

text \<open>The loop over the map, in the order of the first argument.\<close>

fun update_loop :: "string list \<Rightarrow> (string \<rightharpoonup> string) \<Rightarrow> AllocatableDevices \<times> bool \<Rightarrow> AllocatableDevices \<times> bool" where
  "update_loop [] states acc = acc"
| "update_loop (n # ns) states (A, changed) =
     (case A n of
        None \<Rightarrow> update_loop ns states (A, changed)
      | Some d \<Rightarrow>
          (case states (GetPciAddr (sd_PciDevice d)) of
             None \<Rightarrow> update_loop ns states (A, changed)
           | Some s \<Rightarrow>
               if has_state d s then update_loop ns states (A, changed)
               else update_loop ns states (A(n \<mapsto> set_state d s), True)))"

definition UpdateDeviceStates :: "string list \<Rightarrow> (string \<rightharpoonup> string) \<Rightarrow> DeviceState \<Rightarrow> bool \<times> DeviceState" where
  "UpdateDeviceStates ord states s =
     (case update_loop ord states (Allocatable s, False) of (A, changed) \<Rightarrow> (changed, s\<lparr>Allocatable := A\<rparr>))"

record api_Device =
  api_Name :: string
  api_Attributes :: attrs

definition DeepCopy :: "SpyreDevice \<Rightarrow> api_Device" where
  "DeepCopy d = \<lparr>api_Name = sd_Name d, api_Attributes = sd_Attributes d\<rparr>"

definition Devices_of :: "string list \<Rightarrow> DeviceState \<Rightarrow> api_Device list" where
  "Devices_of ord s = map DeepCopy (List.map_filter (Allocatable s) ord)"

section \<open>Start-up\<close>

definition SetNewCheckPoint :: "'s deps \<Rightarrow> 's \<Rightarrow> err option \<times> 's" where
  "SetNewCheckPoint D s =
     (case CreateCheckpoint (libK D) DriverPluginCheckpointFile newCheckpoint s of
        (Some e, s') \<Rightarrow> (Some (wrap ''unable to create new checkpoint'' e), s')
      | (None, s') \<Rightarrow> (None, s'))"

text \<open>Another directory under the same manager, as the tests use it.\<close>

definition SetCheckpointManager :: "'s \<Rightarrow> 's machine \<Rightarrow> 's machine" where
  "SetCheckpointManager cpManager m = m\<lparr>store := cpManager\<rparr>"

text \<open>
  What a start-up needs besides the machine: the orders of ranges, the architecture, the listed
  devices.
\<close>

record disc_env =
  orders :: disc_orders
  tier_ords :: tier_orders
  goarch :: string
  listed :: "err + ghw_device list"

text \<open>\<open>None\<close> would be a topology sweep that does not return, as in Discovery.\<close>

definition NewDeviceState ::
    "'s deps \<Rightarrow> disc_env \<Rightarrow> Flags \<Rightarrow> config_vars \<Rightarrow> 's \<Rightarrow> world \<Rightarrow>
       ((err option \<times> DeviceState option) \<times> config_vars \<times> 's \<times> world) option" where
  "NewDeviceState D E config v s w =
     (let tf = TopologyFilepath (DiscoveryFlags config);
          tf' = (if tf = [] then GetTopologyFile w else tf) in
      case NewDeviceDiscovery tf' (DisableVirtualFunction (DiscoveryFlags config)) of
        Inl e \<Rightarrow> Some ((Some (wrap ''error device discovery initialization'' e), None), v, s, w)
      | Inr d \<Rightarrow>
     (case GetAllocatableDevices (floats w) w (sys D) (orders E) (tier_ords E) (goarch E) (listed E) d of
        (None, w1) \<Rightarrow> None
      | (Some (Inl e), w1) \<Rightarrow> Some ((Some (wrap ''error get allocatable devices'' e), None), v, s, w1)
      | (Some (Inr allocatable), w1) \<Rightarrow>
     (case NewCDIHandler (libC D) (CDIRoot config) v w1 of
        (Inl e, v1, w2) \<Rightarrow> Some ((Some (wrap ''unable to create CDI handler'' e), None), v1, s, w2)
      | (Inr cdi, v1, w2) \<Rightarrow>
     (case CreateCommonSpecFile (libC D) cdi w2 of
        (Some e, w3) \<Rightarrow> Some ((Some (wrap ''unable to create CDI spec file for common edits'' e), None), v1, s, w3)
      | (None, w3) \<Rightarrow>
     (case CleanZombieConfigFolders (libC D) cdi w3 of
        (_, w4) \<Rightarrow>
     (case NewCheckpointManager (libK D) DriverPluginPath s of
        (Some e, s1) \<Rightarrow> Some ((Some (wrap ''unable to create checkpoint manager'' e), None), v1, s1, w4)
      | (None, s1) \<Rightarrow>
     (let st = \<lparr>ds_CDI = cdi, Allocatable = allocatable, deviceDiscovery = d\<rparr> in
      case ListCheckpoints (libK D) s1 of
        Inl e \<Rightarrow> Some ((Some (wrap ''unable to list checkpoints'' e), None), v1, s1, w4)
      | Inr cs \<Rightarrow>
          if DriverPluginCheckpointFile \<in> set cs then Some ((None, Some st), v1, s1, w4)
          else (case SetNewCheckPoint D s1 of (e, s2) \<Rightarrow> Some ((e, Some st), v1, s2, w4)))))))))"

section \<open>Opaque configurations\<close>

record OpaqueDeviceConfiguration =
  opq_Driver :: string
  opq_Raw :: string

record DeviceAllocationConfiguration =
  cfg_Source :: string
  cfg_Requests :: "string list"
  cfg_Opaque :: "OpaqueDeviceConfiguration option"

definition SourceClass :: string where "SourceClass = ''FromClass''"
definition SourceClaim :: string where "SourceClaim = ''FromClaim''"

fun split_configs ::
    "string \<Rightarrow> DeviceAllocationConfiguration list \<Rightarrow>
       OpaqueDeviceConfiguration option list \<Rightarrow> OpaqueDeviceConfiguration option list \<Rightarrow>
       err + OpaqueDeviceConfiguration option list" where
  "split_configs request [] classConfigs claimConfigs = Inr (classConfigs @ claimConfigs)"
| "split_configs request (c # cs) classConfigs claimConfigs =
     (if cfg_Requests c \<noteq> [] \<and> request \<notin> set (cfg_Requests c) then split_configs request cs classConfigs claimConfigs
      else if cfg_Source c = SourceClass then split_configs request cs (classConfigs @ [cfg_Opaque c]) claimConfigs
      else if cfg_Source c = SourceClaim then split_configs request cs classConfigs (claimConfigs @ [cfg_Opaque c])
      else Inl (Msg ''invalid config source''))"

fun decode_configs ::
    "(string \<Rightarrow> err + 'o) \<Rightarrow> string \<Rightarrow> OpaqueDeviceConfiguration option list \<Rightarrow> 'o list \<Rightarrow> err + 'o list" where
  "decode_configs decoder driverName [] acc = Inr acc"
| "decode_configs decoder driverName (None # cs) acc = Inl (Msg ''only opaque parameters are supported by this driver'')"
| "decode_configs decoder driverName (Some c # cs) acc =
     (if opq_Driver c \<noteq> driverName then decode_configs decoder driverName cs acc
      else case decoder (opq_Raw c) of
             Inl e \<Rightarrow> Inl (Wrapped ''error decoding config parameters'' e)
           | Inr x \<Rightarrow> decode_configs decoder driverName cs (acc @ [x]))"

definition GetOpaqueDeviceConfigs ::
    "(string \<Rightarrow> err + 'o) \<Rightarrow> string \<Rightarrow> string \<Rightarrow> DeviceAllocationConfiguration list \<Rightarrow> err + 'o list" where
  "GetOpaqueDeviceConfigs decoder driverName request possibleConfigs =
     (case split_configs request possibleConfigs [] [] of
        Inl e \<Rightarrow> Inl e
      | Inr candidateConfigs \<Rightarrow> decode_configs decoder driverName candidateConfigs [])"

section \<open>Lemmas\<close>

lemma elems_simps [simp]: "elems None = []" "elems (Some xs) = xs"
  by (simp_all add: elems_def)

lemma obj_set_keys: "fst ` set (obj_set m k v) = insert k (fst ` set m)"
  by (induction m k v rule: obj_set.induct) auto

lemma obj_set_distinct [simp]: "distinct (map fst (obj_set m k v)) \<longleftrightarrow> distinct (map fst m)"
  by (induction m k v rule: obj_set.induct) (auto simp: obj_set_keys)

lemma obj_del_get [simp]: "obj_get (obj_del m k) k' = (if k' = k then None else obj_get m k')"
  by (induction m) (auto simp: obj_del_def obj_get_def)

lemma obj_del_distinct [simp]: "distinct (map fst m) \<Longrightarrow> distinct (map fst (obj_del m k))"
  by (simp add: obj_del_def distinct_map_filter)

lemma claim_entry_simps [simp]:
  "claim_entry (Some (obj_set cs u ds)) u' = (if u' = u then ds else claim_entry (Some cs) u')"
  "claim_entry (Some (obj_del cs u)) u' = (if u' = u then None else claim_entry (Some cs) u')"
  "claim_entry None u = None" "claim_entry (Some []) u = None"
  by (simp_all add: claim_entry_def)

lemma with_claims_V1 [simp]: "V1 (with_claims cp cs) = Some \<lparr>cp_PreparedClaims = Some cs\<rparr>"
  by (simp add: with_claims_def)

definition own_results :: "AllocationResult list \<Rightarrow> AllocationResult list" where
  "own_results rs = filter (\<lambda>r. res_Driver r = DriverName) rs"

lemma prepare_results_value:
  "prepare_results L S A rs acc = Inr ds \<longleftrightarrow>
    (\<forall>r \<in> set (own_results rs). res_Device r \<in> dom A) \<and>
    ds = (if own_results rs = [] then acc
          else Some (elems acc @ map (\<lambda>r. prepared_device L S r (the (A (res_Device r)))) (own_results rs)))"
  by (induction rs arbitrary: acc) (auto simp: own_results_def ApplyConfig_def Let_def split: option.split)

lemma prepare_results_error:
  "prepare_results L S A rs acc = Inl e \<Longrightarrow> e = Msg ''requested device is not allocatable''"
  by (induction rs arbitrary: acc) (auto simp: ApplyConfig_def Let_def split: if_splits option.splits)

section \<open>What the checkpoint records\<close>

definition recorded :: "'s ckpt_lib \<Rightarrow> 's \<Rightarrow> string \<Rightarrow> PreparedDevices" where
  "recorded K s u =
     (case GetCheckpoint K DriverPluginCheckpointFile newCheckpoint s of
        Inl e \<Rightarrow> None
      | Inr cp \<Rightarrow> (case V1 cp of None \<Rightarrow> None | Some v1 \<Rightarrow> claim_entry (cp_PreparedClaims v1) u))"

context checkpoint_store
begin

lemma get_claims:
  assumes "GetCheckpoint K k newCheckpoint s = Inr cp"
  obtains cs where "V1 cp = Some \<lparr>cp_PreparedClaims = Some cs\<rparr>" "distinct (map fst cs)"
  using get_proper [OF assms] by (auto simp: proper_ckpt_iff)

lemma recorded_create:
  assumes "CreateCheckpoint K DriverPluginCheckpointFile (with_claims cp cs) s = (None, s')" "distinct (map fst cs)"
  shows "recorded K s' u = claim_entry (Some cs) u"
proof -
  have "proper_ckpt (with_claims cp cs)" using assms(2) by (simp add: proper_ckpt_iff)
  from create_get [OF this assms(1)] show ?thesis by (auto simp: recorded_def)
qed

lemma recorded_fail:
  "CreateCheckpoint K DriverPluginCheckpointFile cp s = (Some e, s') \<Longrightarrow> recorded K s' u = recorded K s u"
  by (simp add: recorded_def create_fail)

lemma recorded_new: "CreateCheckpoint K DriverPluginCheckpointFile newCheckpoint s = (None, s') \<Longrightarrow> recorded K s' u = None"
  using recorded_create [of newCheckpoint "[]" s s' u] by (simp add: with_claims_def newCheckpoint_def)

end

text \<open>The successful runs of \<open>Prepare\<close> and \<open>Unprepare\<close>, and what a failed run leaves.\<close>

lemma Prepare_cases:
  assumes "Prepare D c m = (Inr out, m')"
  obtains (cached) ds where "recorded (libK D) (store m) (claim_UID c) = Some ds" "out = GetPreparedDevices (Some ds)" "m' = m"
  | (fresh) cp cs ds h w s' where
      "recorded (libK D) (store m) (claim_UID c) = None"
      "GetCheckpoint (libK D) DriverPluginCheckpointFile newCheckpoint (store m) = Inr cp"
      "V1 cp = Some \<lparr>cp_PreparedClaims = Some cs\<rparr>"
      "prepareDevices D (dstate m) c = Inr ds"
      "CreateClaimSpecFile (libC D) (vars m) (ds_CDI (dstate m)) (os m) (claim_UID c) ds = (None, h, w)"
      "CreateCheckpoint (libK D) DriverPluginCheckpointFile (with_claims cp (obj_set cs (claim_UID c) ds)) (store m) = (None, s')"
      "out = GetPreparedDevices ds"
      "m' = m\<lparr>dstate := (dstate m)\<lparr>ds_CDI := h\<rparr>, os := w, store := s'\<rparr>"
proof -
  obtain cp where cp: "GetCheckpoint (libK D) DriverPluginCheckpointFile newCheckpoint (store m) = Inr cp"
    using assms by (auto simp: Prepare_def Let_def split: sum.splits)
  obtain v1 where v1: "V1 cp = Some v1"
    using assms cp by (auto simp: Prepare_def Let_def split: option.splits)
  have rec: "recorded (libK D) (store m) (claim_UID c) = claim_entry (cp_PreparedClaims v1) (claim_UID c)"
    by (simp add: recorded_def cp v1)
  show thesis
  proof (cases "claim_entry (cp_PreparedClaims v1) (claim_UID c)")
    case (Some ds)
    then have "out = GetPreparedDevices (Some ds)" "m' = m" using assms by (simp_all add: Prepare_def cp v1)
    with Some rec show thesis by (intro cached [of ds]) simp_all
  next
    case None
    with assms cp v1 obtain ds where ds: "prepareDevices D (dstate m) c = Inr ds"
      by (auto simp: Prepare_def Let_def split: sum.splits)
    obtain e h w where w: "CreateClaimSpecFile (libC D) (vars m) (ds_CDI (dstate m)) (os m) (claim_UID c) ds = (e, h, w)"
      by (metis prod.collapse)
    with assms cp v1 None ds have e: "e = None" by (auto simp: Prepare_def Let_def split: option.splits)
    with assms cp v1 None ds w obtain cs where cs: "cp_PreparedClaims v1 = Some cs"
      by (auto simp: Prepare_def Let_def split: option.splits)
    obtain r s' where s': "CreateCheckpoint (libK D) DriverPluginCheckpointFile (with_claims cp (obj_set cs (claim_UID c) ds)) (store m) = (r, s')"
      by fastforce
    with assms cp v1 None ds w e cs have r: "r = None" by (auto simp: Prepare_def Let_def split: option.splits)
    have "v1 = \<lparr>cp_PreparedClaims = Some cs\<rparr>" using cs by (cases v1) simp
    with assms cp v1 None ds w e cs s' r show thesis
      by (intro fresh [of cp cs ds h w s']) (simp_all add: rec Prepare_def Let_def)
  qed
qed

lemma recorded_get:
  assumes "recorded K s u = Some ds"
  obtains cp cs where "GetCheckpoint K DriverPluginCheckpointFile newCheckpoint s = Inr cp"
    "V1 cp = Some \<lparr>cp_PreparedClaims = Some cs\<rparr>" "claim_entry (Some cs) u = Some ds"
proof -
  obtain cp where cp: "GetCheckpoint K DriverPluginCheckpointFile newCheckpoint s = Inr cp"
    using assms by (auto simp: recorded_def split: sum.splits)
  obtain v1 where v1: "V1 cp = Some v1" using assms cp by (auto simp: recorded_def split: option.splits)
  obtain cs where cs: "cp_PreparedClaims v1 = Some cs"
    using assms cp v1 by (cases "cp_PreparedClaims v1") (auto simp: recorded_def)
  then have "v1 = \<lparr>cp_PreparedClaims = Some cs\<rparr>" by (cases v1) simp
  with assms cp v1 show ?thesis using that by (simp add: recorded_def)
qed

lemma Prepare_cached:
  "recorded (libK D) (store m) (claim_UID c) = Some ds \<Longrightarrow> Prepare D c m = (Inr (GetPreparedDevices (Some ds)), m)"
  by (erule recorded_get) (simp add: Prepare_def Let_def)

lemma Prepare_recorded:
  assumes "checkpoint_store (libK D)" "Prepare D c m = (Inr out, m1)" "out \<noteq> []"
  shows "\<exists>ds. recorded (libK D) (store m1) (claim_UID c) = Some ds \<and> out = GetPreparedDevices (Some ds)"
  using assms(2)
proof (cases rule: Prepare_cases)
  case (fresh cp cs ds h w s')
  have "distinct (map fst cs)"
    using checkpoint_store.get_claims [OF assms(1) fresh(2)] fresh(3) by auto
  then have "recorded (libK D) s' (claim_UID c) = ds"
    using checkpoint_store.recorded_create [OF assms(1) fresh(6)] by simp
  moreover have "ds \<noteq> None" using fresh(7) assms(3) by (cases ds) (simp_all add: GetPreparedDevices_def)
  then obtain xs where "ds = Some xs" by blast
  ultimately show ?thesis using fresh(7,8) by auto
qed auto

lemma unprepareDevices_sel [simp]:
  "store (unprepareDevices D u m) = store m" "dstate (unprepareDevices D u m) = dstate m" "vars (unprepareDevices D u m) = vars m"
  by (simp_all add: unprepareDevices_def split: sum.split)

lemma Unprepare_cases:
  assumes "Unprepare D u m = (None, m')"
  obtains (absent) "recorded (libK D) (store m) u = None" "m' = m"
  | (removed) cp cs ds s' w where
      "recorded (libK D) (store m) u = Some ds"
      "GetCheckpoint (libK D) DriverPluginCheckpointFile newCheckpoint (store m) = Inr cp"
      "V1 cp = Some \<lparr>cp_PreparedClaims = Some cs\<rparr>"
      "CreateCheckpoint (libK D) DriverPluginCheckpointFile (with_claims cp (obj_del cs u)) (store m) = (None, s')"
      "DeleteClaimSpec (libC D) (ds_CDI (dstate m)) (os (unprepareDevices D u m)) u = (None, w)"
      "m' = (unprepareDevices D u m)\<lparr>store := s', os := w\<rparr>"
proof -
  obtain cp where cp: "GetCheckpoint (libK D) DriverPluginCheckpointFile newCheckpoint (store m) = Inr cp"
    using assms by (auto simp: Unprepare_def Let_def split: sum.splits)
  obtain v1 where v1: "V1 cp = Some v1"
    using assms cp by (auto simp: Unprepare_def Let_def split: option.splits)
  have rec: "recorded (libK D) (store m) u = claim_entry (cp_PreparedClaims v1) u"
    by (simp add: recorded_def cp v1)
  show thesis
  proof (cases "recorded (libK D) (store m) u")
    case None
    with assms cp v1 show thesis
      by (intro absent) (auto simp: rec Unprepare_def Let_def split: option.splits)
  next
    case (Some ds)
    obtain cs where cs: "cp_PreparedClaims v1 = Some cs"
      using Some rec by (cases "cp_PreparedClaims v1") auto
    have e: "claim_entry (Some cs) u = Some ds" using Some by (simp add: rec cs)
    obtain r s' where s': "CreateCheckpoint (libK D) DriverPluginCheckpointFile (with_claims cp (obj_del cs u)) (store m) = (r, s')"
      by fastforce
    with assms cp v1 cs e have r: "r = None"
      by (auto simp: Unprepare_def Let_def split: option.splits)
    obtain r2 w where w: "DeleteClaimSpec (libC D) (ds_CDI (dstate m)) (os (unprepareDevices D u m)) u = (r2, w)"
      by fastforce
    with assms cp v1 cs e s' r have r2: "r2 = None"
      by (auto simp: Unprepare_def Let_def split: option.splits)
    have "v1 = \<lparr>cp_PreparedClaims = Some cs\<rparr>" using cs by (cases v1) simp
    with assms cp v1 Some cs e s' r w r2 show thesis
      by (intro removed [of ds cp cs s' w]) (simp_all add: Unprepare_def Let_def)
  qed
qed

section \<open>Published devices: lemmas\<close>

definition new_state :: "(string \<rightharpoonup> string) \<Rightarrow> SpyreDevice \<Rightarrow> SpyreDevice" where
  "new_state states d =
     (case states (GetPciAddr (sd_PciDevice d)) of
        None \<Rightarrow> d
      | Some s \<Rightarrow> if has_state d s then d else set_state d s)"

definition stale :: "(string \<rightharpoonup> string) \<Rightarrow> SpyreDevice \<Rightarrow> bool" where
  "stale states d = (case states (GetPciAddr (sd_PciDevice d)) of None \<Rightarrow> False | Some s \<Rightarrow> \<not> has_state d s)"

lemma update_loop_value:
  assumes "distinct ns"
  shows "update_loop ns states (A, ch) =
    ((\<lambda>n. if n \<in> set ns then map_option (new_state states) (A n) else A n),
     ch \<or> (\<exists>n \<in> set ns. \<exists>d. A n = Some d \<and> stale states d))"
  using assms
proof (induction ns arbitrary: A ch)
  case Nil
  then show ?case by simp
next
  case (Cons n ns)
  let ?A = "\<lambda>A S k. if k \<in> S then map_option (new_state states) (A k) else A k"
  show ?case
  proof (cases "\<exists>d. A n = Some d \<and> stale states d")
    case True
    then obtain d s where d: "A n = Some d" "states (GetPciAddr (sd_PciDevice d)) = Some s" "\<not> has_state d s"
      by (auto simp: stale_def split: option.splits)
    have "update_loop (n # ns) states (A, ch) = update_loop ns states (A(n \<mapsto> set_state d s), True)"
      using d by simp
    also have "\<dots> = (?A (A(n \<mapsto> set_state d s)) (set ns), True)"
      using Cons by simp
    also have "?A (A(n \<mapsto> set_state d s)) (set ns) = ?A A (set (n # ns))"
      using d Cons.prems by (auto simp: fun_eq_iff new_state_def)
    finally show ?thesis using True by auto
  next
    case False
    then have "update_loop (n # ns) states (A, ch) = update_loop ns states (A, ch)"
      by (auto simp: stale_def split: option.splits)
    also have "\<dots> = (?A A (set ns), ch \<or> (\<exists>k \<in> set ns. \<exists>d. A k = Some d \<and> stale states d))"
      using Cons by simp
    also have "?A A (set ns) = ?A A (set (n # ns))"
      using False by (cases "A n") (auto simp: fun_eq_iff new_state_def stale_def split: option.splits)
    finally show ?thesis using False by auto
  qed
qed

lemma UpdateDeviceStates_value:
  assumes "range_order ord (Allocatable s)"
  shows "UpdateDeviceStates ord states s =
    ((\<exists>n d. Allocatable s n = Some d \<and> stale states d),
     s\<lparr>Allocatable := (\<lambda>n. map_option (new_state states) (Allocatable s n))\<rparr>)"
proof -
  have "(if n \<in> set ord then map_option (new_state states) (Allocatable s n) else Allocatable s n) =
      map_option (new_state states) (Allocatable s n)" for n
    using range_orderD(1) [OF assms] by (auto simp: domIff)
  moreover have "(\<exists>n \<in> set ord. \<exists>d. Allocatable s n = Some d \<and> stale states d) =
      (\<exists>n d. Allocatable s n = Some d \<and> stale states d)"
    using range_orderD(1) [OF assms] by (auto simp: domIff)
  ultimately show ?thesis
    by (simp add: UpdateDeviceStates_def update_loop_value [OF range_orderD(2) [OF assms]])
qed

lemma set_state_well_typed: "devices_well_typed A \<Longrightarrow> A n = Some d \<Longrightarrow> devices_well_typed (A(n \<mapsto> set_state d x))"
proof -
  assume A: "devices_well_typed A" "A n = Some d"
  then have "well_typed (sd_Attributes d)" by (simp add: devices_well_typed_def)
  then have "well_typed (sd_Attributes (set_state d x))" by (simp add: set_state_def attribute_kinds_def well_typed_string)
  with A(1) show ?thesis by (simp add: devices_well_typed_def)
qed

lemma update_loop_well_typed: "devices_well_typed A \<Longrightarrow> devices_well_typed (fst (update_loop ns states (A, ch)))"
  by (induction ns arbitrary: A ch) (simp_all add: set_state_well_typed split: option.split)

lemma UpdateDeviceStates_well_typed:
  "devices_well_typed (Allocatable s) \<Longrightarrow> devices_well_typed (Allocatable (snd (UpdateDeviceStates ns states s)))"
  using update_loop_well_typed [of "Allocatable s" ns states False]
  by (auto simp: UpdateDeviceStates_def split: prod.splits)

section \<open>Configurations: lemmas\<close>

definition relevant :: "string \<Rightarrow> string \<Rightarrow> DeviceAllocationConfiguration \<Rightarrow> bool" where
  "relevant request src c \<longleftrightarrow> (cfg_Requests c = [] \<or> request \<in> set (cfg_Requests c)) \<and> cfg_Source c = src"

lemma split_configs_value:
  "split_configs request cs a b = Inr r \<longleftrightarrow>
    (\<forall>c \<in> set cs. (cfg_Requests c = [] \<or> request \<in> set (cfg_Requests c)) \<longrightarrow> cfg_Source c \<in> {SourceClass, SourceClaim}) \<and>
    r = a @ map cfg_Opaque (filter (relevant request SourceClass) cs) @
        b @ map cfg_Opaque (filter (relevant request SourceClaim) cs)"
  by (induction cs arbitrary: a b) (auto simp: relevant_def SourceClass_def SourceClaim_def)

definition mine :: "string \<Rightarrow> OpaqueDeviceConfiguration option list \<Rightarrow> string list" where
  "mine drv cs = map opq_Raw (filter (\<lambda>c. opq_Driver c = drv) (map the cs))"

lemma decode_configs_value:
  "decode_configs dec drv cs acc = Inr r \<longleftrightarrow>
    None \<notin> set cs \<and> (\<exists>xs. r = acc @ xs \<and> map dec (mine drv cs) = map Inr xs)"
proof (induction cs arbitrary: acc)
  case Nil
  then show ?case by (auto simp: mine_def)
next
  case (Cons c cs)
  show ?case
  proof (cases c)
    case (Some o')
    show ?thesis
    proof (cases "opq_Driver o' = drv")
      case True
      then show ?thesis
        using Some Cons.IH by (cases "dec (opq_Raw o')") (auto simp: mine_def Cons_eq_map_conv)
    qed (use Some Cons.IH in \<open>auto simp: mine_def\<close>)
  qed simp
qed

section \<open>A sample machine\<close>

definition sample_spyre :: "string \<Rightarrow> string \<Rightarrow> SpyreDevice" where
  "sample_spyre n addr = \<lparr>sd_ProductID = ProductIDPf, sd_Name = n,
     sd_Attributes = [''deviceState'' \<mapsto> GetStringDeviceAttribute ''ONLINE''],
     sd_PciDevice = Pseudo (NewPseudoPciDevice (sample_hw addr))\<rparr>"

definition sample_deps :: "ckpt_dir deps" where
  "sample_deps = \<lparr>libC = file_lib, libK = dir_lib, sys = sample_sysfs ''7''\<rparr>"

definition sample_machine :: "ckpt_dir machine" where
  "sample_machine = \<lparr>dstate = \<lparr>ds_CDI = sample_handler,
       Allocatable = [''0000-1a-00-0'' \<mapsto> sample_spyre ''0000-1a-00-0'' ''0000:1a:00.0''],
       deviceDiscovery = \<lparr>topologyFile = [], disableVirtualFunction = False\<rparr>\<rparr>,
     vars = mount_vars,
     store = snd (CreateCheckpoint dir_lib DriverPluginCheckpointFile newCheckpoint \<lparr>entries = [], disk_full = False\<rparr>),
     os = mount_world\<rparr>"

definition sample_claim :: ResourceClaim where
  "sample_claim = \<lparr>claim_UID = ''c1'', claim_Allocation = Some
     [\<lparr>res_Request = ''req'', res_Driver = ''gpu.example.com'', res_Pool = ''node'', res_Device = ''gpu0''\<rparr>,
      \<lparr>res_Request = ''req'', res_Driver = ''spyre.ibm.com'', res_Pool = ''node'', res_Device = ''0000-1a-00-0''\<rparr>]\<rparr>"

lemma sample_prepare:
  "fst (Prepare sample_deps sample_claim sample_machine) =
     Inr [\<lparr>RequestNames = [''req''], PoolName = ''node'', DeviceName = ''0000-1a-00-0'',
           CdiDeviceIds = [''k8s.spyre.ibm.com/spyre=common'', ''k8s.spyre.ibm.com/spyre=0000-1a-00-0'']\<rparr>]"
  by code_simp

section \<open>Properties\<close>

text \<open>
  C13. A claim that is not yet recorded and that \<open>Prepare\<close> accepts is answered with one device
  for each allocation result of this driver, in order, under its request, pool and device name,
  with the common CDI device and its own; every one of these devices is allocatable, and the
  results of other drivers are skipped.
\<close>

theorem prepare_answer:
  assumes "Prepare D c m = (Inr out, m1)" "recorded (libK D) (store m) (claim_UID c) = None"
  shows "\<exists>rs. claim_Allocation c = Some rs \<and>
    (\<forall>r \<in> set rs. res_Driver r = ''spyre.ibm.com'' \<longrightarrow> res_Device r \<in> dom (Allocatable (dstate m))) \<and>
    out = map (\<lambda>r. \<lparr>RequestNames = [res_Request r], PoolName = res_Pool r, DeviceName = res_Device r,
        CdiDeviceIds = [QualifiedName (libC D) cdiVendor cdiClass ''common'',
                        QualifiedName (libC D) cdiVendor cdiClass (res_Device r)]\<rparr>)
      (filter (\<lambda>r. res_Driver r = ''spyre.ibm.com'') rs)"
  using assms(1)
proof (cases rule: Prepare_cases)
  case (fresh cp cs ds h w s')
  obtain rs where rs: "claim_Allocation c = Some rs" "prepare_results (libC D) (sys D) (Allocatable (dstate m)) rs None = Inr ds"
    using fresh(4) by (auto simp: prepareDevices_def split: option.splits)
  with fresh(7) show ?thesis
    unfolding prepare_results_value
    by (auto simp: own_results_def GetPreparedDevices_def prepared_device_def GetClaimDevices_def cdiCommonDeviceName_def DriverName_def)
qed (use assms(2) in simp)

theorem prepare_answer_witness:
  "\<exists>out m1 rs. Prepare sample_deps sample_claim sample_machine = (Inr out, m1) \<and>
     claim_Allocation sample_claim = Some rs \<and> length out = length (filter (\<lambda>r. res_Driver r = ''spyre.ibm.com'') rs)"
proof -
  obtain out m1 where r: "Prepare sample_deps sample_claim sample_machine = (Inr out, m1)"
    using sample_prepare by (metis prod.collapse)
  have n: "recorded (libK sample_deps) (store sample_machine) (claim_UID sample_claim) = None" by code_simp
  from prepare_answer [OF r n] r show ?thesis by auto
qed

text \<open>
  C5. A prepared claim is prepared once: from the moment \<open>Prepare\<close> answers with devices, every
  further \<open>Prepare\<close> for its UID gives the same answer and changes nothing, also in a process
  started later (another handler, other devices, another disk) on the same checkpoint store,
  and whatever the claim's allocation says by then.
\<close>

theorem prepare_durable:
  assumes "checkpoint_store (libK D)" "Prepare D c m = (Inr out, m1)" "out \<noteq> []"
    and "store m2 = store m1" "claim_UID c2 = claim_UID c"
  shows "Prepare D c2 m2 = (Inr out, m2)"
proof -
  from Prepare_recorded [OF assms(1-3)] show ?thesis using Prepare_cached [of D m2 c2] assms(4,5) by auto
qed

theorem prepare_durable_witness:
  "\<exists>out m1. Prepare sample_deps sample_claim sample_machine = (Inr out, m1) \<and>
     Prepare sample_deps (sample_claim\<lparr>claim_Allocation := None\<rparr>) (sample_machine\<lparr>store := store m1\<rparr>) =
       (Inr out, sample_machine\<lparr>store := store m1\<rparr>)"
proof -
  obtain out m1 where r: "Prepare sample_deps sample_claim sample_machine = (Inr out, m1)"
    and o: "out \<noteq> []" using sample_prepare by (metis list.distinct(1) prod.collapse)
  have k: "checkpoint_store (libK sample_deps)"
    using dir_store.checkpoint_store_axioms by (simp add: sample_deps_def)
  show ?thesis
    using prepare_durable [OF k r o, of "sample_machine\<lparr>store := store m1\<rparr>" "sample_claim\<lparr>claim_Allocation := None\<rparr>"] r by auto
qed

text \<open>
  C32. \<open>UpdateDeviceStates\<close> for any order of the map: each device listed by PCI address gets the
  new state as its \<^verbatim>\<open>deviceState\<close> attribute, no other attribute, device or key
  changes, and the answer is true exactly when some attribute value changed.
\<close>

theorem update_states:
  assumes "range_order ord (Allocatable s)" "UpdateDeviceStates ord states s = (changed, s')"
  shows "(\<forall>n. map_option (\<lambda>d. d\<lparr>sd_Attributes := Map.empty\<rparr>) (Allocatable s' n) =
         map_option (\<lambda>d. d\<lparr>sd_Attributes := Map.empty\<rparr>) (Allocatable s n)) \<and>
    (\<forall>n d d'. Allocatable s n = Some d \<longrightarrow> Allocatable s' n = Some d' \<longrightarrow>
       (\<forall>k. k \<noteq> ''deviceState'' \<longrightarrow> sd_Attributes d' k = sd_Attributes d k) \<and>
       (case states (GetPciAddr (sd_PciDevice d)) of
          None \<Rightarrow> d' = d
        | Some x \<Rightarrow> (\<exists>a. sd_Attributes d' ''deviceState'' = Some a \<and> StringValue a = Some x))) \<and>
    (changed \<longleftrightarrow> (\<exists>n d d'. Allocatable s n = Some d \<and> Allocatable s' n = Some d' \<and>
       map_option StringValue (sd_Attributes d' ''deviceState'') \<noteq> map_option StringValue (sd_Attributes d ''deviceState'')))"
    (is "?same \<and> ?values \<and> (_ \<longleftrightarrow> ?diff)")
proof -
  have s': "changed = (\<exists>n d. Allocatable s n = Some d \<and> stale states d)"
    "Allocatable s' n = map_option (new_state states) (Allocatable s n)" for n
    using assms(2) unfolding UpdateDeviceStates_value [OF assms(1)] by auto
  have "(new_state states d)\<lparr>sd_Attributes := Map.empty\<rparr> = d\<lparr>sd_Attributes := Map.empty\<rparr>" for d
    by (simp add: new_state_def set_state_def split: option.split)
  then have "?same" by (simp add: s' option.map_comp o_def)
  moreover have "?values"
    by (auto simp: s' new_state_def set_state_def has_state_def split: option.splits)
  moreover have st: "(map_option StringValue (sd_Attributes (new_state states d) ''deviceState'') \<noteq>
      map_option StringValue (sd_Attributes d ''deviceState'')) = stale states d" for d
    by (auto simp: new_state_def set_state_def stale_def has_state_def split: option.split)
  have "changed \<longleftrightarrow> ?diff"
  proof
    assume changed
    then obtain n d where "Allocatable s n = Some d" "stale states d" by (auto simp only: s')
    then show ?diff using st s'(2) [of n] by (intro exI [of _ n] exI [of _ d] exI [of _ "new_state states d"]) simp
  next
    assume ?diff
    then obtain n d d' where d: "Allocatable s n = Some d" "Allocatable s' n = Some d'"
      "map_option StringValue (sd_Attributes d' ''deviceState'') \<noteq> map_option StringValue (sd_Attributes d ''deviceState'')"
      by blast
    then have "stale states d" using st [of d] s'(2) [of n] by simp
    with d(1) show changed unfolding s'(1) by blast
  qed
  ultimately show ?thesis by blast
qed

theorem update_states_witness:
  "\<exists>changed s' d'. UpdateDeviceStates [''0000-1a-00-0''] [''0000:1a:00.0'' \<mapsto> ''IN_ERROR''] (dstate sample_machine) = (changed, s') \<and>
     changed \<and> Allocatable s' ''0000-1a-00-0'' = Some d' \<and>
     map_option StringValue (sd_Attributes d' ''deviceState'') = Some (Some ''IN_ERROR'')"
proof -
  have ro: "range_order [''0000-1a-00-0''] (Allocatable (dstate sample_machine))"
    by (simp add: range_order_def sample_machine_def)
  obtain changed s' where u: "UpdateDeviceStates [''0000-1a-00-0''] [''0000:1a:00.0'' \<mapsto> ''IN_ERROR''] (dstate sample_machine) = (changed, s')"
    by fastforce
  let ?d = "sample_spyre ''0000-1a-00-0'' ''0000:1a:00.0''"
  have d: "Allocatable (dstate sample_machine) ''0000-1a-00-0'' = Some ?d"
    "GetPciAddr (sd_PciDevice ?d) = ''0000:1a:00.0''"
    "map_option StringValue (sd_Attributes ?d ''deviceState'') = Some (Some ''ONLINE'')"
    by (simp_all add: sample_machine_def sample_spyre_def sample_hw_def NewPseudoPciDevice_def)
  note P = update_states [OF ro u]
  obtain d' where d': "Allocatable s' ''0000-1a-00-0'' = Some d'"
    using P [THEN conjunct1, rule_format, of "''0000-1a-00-0''"] unfolding d(1) by auto
  from P [THEN conjunct2, THEN conjunct1, rule_format, OF d(1) d', THEN conjunct2] have "case [''0000:1a:00.0'' \<mapsto> ''IN_ERROR''] (GetPciAddr (sd_PciDevice ?d)) of None \<Rightarrow> d' = ?d
      | Some x \<Rightarrow> \<exists>a. sd_Attributes d' ''deviceState'' = Some a \<and> StringValue a = Some x" .
  then have st: "map_option StringValue (sd_Attributes d' ''deviceState'') = Some (Some ''IN_ERROR'')"
    unfolding d(2) by auto
  have "map_option StringValue (sd_Attributes d' ''deviceState'') \<noteq> map_option StringValue (sd_Attributes ?d ''deviceState'')"
    unfolding st d(3) by simp
  with d(1) d' have "changed" by (intro P [THEN conjunct2, THEN conjunct2, THEN iffD2] exI conjI)
  with u d' st show ?thesis by blast
qed

text \<open>
  C34. The opaque configurations of a request are the decoded parameters of this driver in order
  of precedence: all from the device class before all from the claim, each group in the order of
  the allocation; the call succeeds exactly when every relevant configuration names one of the two
  sources, is opaque, and decodes if it is this driver's.
\<close>

theorem config_precedence:
  "GetOpaqueDeviceConfigs decoder drv request configs = Inr out \<longleftrightarrow>
    (let rel = filter (\<lambda>c. cfg_Requests c = [] \<or> request \<in> set (cfg_Requests c)) configs;
         ordered = filter (\<lambda>c. cfg_Source c = SourceClass) rel @ filter (\<lambda>c. cfg_Source c = SourceClaim) rel;
         opaque = map cfg_Opaque ordered
     in (\<forall>c \<in> set rel. cfg_Source c \<in> {SourceClass, SourceClaim}) \<and> None \<notin> set opaque \<and>
        map decoder (map opq_Raw (filter (\<lambda>o'. opq_Driver o' = drv) (map the opaque))) = map Inr out)"
proof -
  have rel: "filter (relevant request src) configs =
      filter (\<lambda>c. cfg_Source c = src) (filter (\<lambda>c. cfg_Requests c = [] \<or> request \<in> set (cfg_Requests c)) configs)" for src
    unfolding relevant_def filter_filter by (rule filter_cong) auto
  show ?thesis
  proof (cases "split_configs request configs [] []")
    case (Inl e)
    then have "\<not> (\<forall>c \<in> set configs. (cfg_Requests c = [] \<or> request \<in> set (cfg_Requests c)) \<longrightarrow> cfg_Source c \<in> {SourceClass, SourceClaim})"
      using split_configs_value [of request configs "[]" "[]"] by auto
    then show ?thesis using Inl by (auto simp: GetOpaqueDeviceConfigs_def Let_def)
  next
    case (Inr r)
    then show ?thesis
      using split_configs_value [of request configs "[]" "[]" r]
      by (auto simp: GetOpaqueDeviceConfigs_def Let_def decode_configs_value rel mine_def)
  qed
qed

definition sample_configs :: "DeviceAllocationConfiguration list" where
  "sample_configs =
     [\<lparr>cfg_Source = SourceClaim, cfg_Requests = [], cfg_Opaque = Some \<lparr>opq_Driver = DriverName, opq_Raw = ''claim''\<rparr>\<rparr>,
      \<lparr>cfg_Source = SourceClass, cfg_Requests = [''req''], cfg_Opaque = Some \<lparr>opq_Driver = DriverName, opq_Raw = ''class''\<rparr>\<rparr>]"

theorem config_precedence_witness:
  "GetOpaqueDeviceConfigs Inr DriverName ''req'' sample_configs = Inr [''class'', ''claim'']"
  unfolding config_precedence by code_simp

text \<open>
  C22. The published attributes are well typed: however the devices are discovered and whatever health
  updates follow, in whatever order the map is visited, each attribute has exactly one value, of
  the type that belongs to its name, and a device has at most the 32 attributes Kubernetes allows.
\<close>

theorem attributes_well_typed:
  assumes "NewAllocatableDevices w S ord hw topo dv = Some (Allocatable s)"
    and "s' = fold (\<lambda>(o', states) s. snd (UpdateDeviceStates o' states s)) updates s"
  shows "devices_well_typed (Allocatable s') \<and>
    (\<forall>n d. Allocatable s' n = Some d \<longrightarrow> card (dom (sd_Attributes d)) \<le> 32)"
proof -
  have typed: "devices_well_typed (Allocatable s')"
    using NewAllocatableDevices_well_typed [OF assms(1)] assms(2)
    by (induction updates arbitrary: s) (auto intro: UpdateDeviceStates_well_typed)
  have "length attribute_kinds = 25" by code_simp
  have "card (dom (sd_Attributes d)) \<le> 32" if "Allocatable s' n = Some d" for n d
  proof -
    have "dom (sd_Attributes d) \<subseteq> fst ` set attribute_kinds"
    proof
      fix k assume "k \<in> dom (sd_Attributes d)"
      moreover have "well_typed (sd_Attributes d)" using typed that by (simp add: devices_well_typed_def)
      ultimately obtain t where "map_of attribute_kinds k = Some t" unfolding well_typed_def by blast
      from map_of_SomeD [OF this] show "k \<in> fst ` set attribute_kinds" by force
    qed
    then have "card (dom (sd_Attributes d)) \<le> card (fst ` set attribute_kinds)" by (rule card_mono [rotated]) simp
    also have "\<dots> \<le> length attribute_kinds" using card_image_le card_length order_trans by (metis List.finite_set)
    finally show ?thesis using \<open>length attribute_kinds = 25\<close> by simp
  qed
  with typed show ?thesis by blast
qed

theorem attributes_well_typed_witness:
  "\<exists>A. NewAllocatableDevices pseudo_world (sample_sysfs ''7'') (sample_orders []) sample_ghw None False = Some A \<and>
     devices_well_typed (Allocatable (snd (UpdateDeviceStates [''0000-1a-00-0''] [''0000:1a:00.0'' \<mapsto> ''IN_ERROR'']
       ((dstate sample_machine)\<lparr>Allocatable := A\<rparr>))))"
proof -
  obtain A where A: "NewAllocatableDevices pseudo_world (sample_sysfs ''7'') (sample_orders []) sample_ghw None False = Some A"
    using NewAllocatableDevices_value [of None "sample_orders []"] by (simp add: topo_orders_ok_def)
  then show ?thesis
    using attributes_well_typed [of pseudo_world "sample_sysfs ''7''" "sample_orders []" sample_ghw None False
        "(dstate sample_machine)\<lparr>Allocatable := A\<rparr>" _ "[([''0000-1a-00-0''], [''0000:1a:00.0'' \<mapsto> ''IN_ERROR''])]", OF _ refl]
    by simp
qed

end
