(* ===== verification/HealthState.thy ===== *)
theory HealthState
  imports DeviceState
begin

text \<open>
  \<^verbatim>\<open>internal/health/health_state.go\<close>: the health of a device, the maps of them and
  the notification channel.  The enumerations of the health protocol are generated code outside
  this repository: their values are 32-bit integers, and the few constants the driver uses and the
  names of the states are the record \<^verbatim>\<open>health_proto\<close>.  A map of health states is an
  association list with distinct keys, its order being the order of iteration.
\<close>

section \<open>Data\<close>

type_synonym enum = int

record health_proto =
  STATE_ONLINE :: enum
  TYPE_PF :: enum
  TYPE_VF :: enum
  state_String :: "enum \<Rightarrow> string"

record DeviceHealthState =
  hs_state :: enum
  hs_deviceType :: enum

type_synonym healths = "(string \<times> DeviceHealthState) list"

record HealthDevice =
  hd_DeviceID :: "string option"      \<comment> \<open>\<open>None\<close>: the nil pointer\<close>
  hd_DeviceType :: enum
  hd_DeviceState :: enum

definition NewDeviceHealthState :: "health_proto \<Rightarrow> enum \<Rightarrow> DeviceHealthState" where
  "NewDeviceHealthState P deviceType = \<lparr>hs_state = STATE_ONLINE P, hs_deviceType = deviceType\<rparr>"

definition SetHealthState :: "DeviceHealthState \<Rightarrow> enum \<Rightarrow> DeviceHealthState" where
  "SetHealthState d s = d\<lparr>hs_state := s\<rparr>"

definition Healthy :: "health_proto \<Rightarrow> DeviceHealthState \<Rightarrow> bool" where
  "Healthy P d \<longleftrightarrow> hs_state d = STATE_ONLINE P"

definition GetHealthState :: "DeviceHealthState \<Rightarrow> enum" where "GetHealthState d = hs_state d"

definition hs_IsSriovPF :: "health_proto \<Rightarrow> DeviceHealthState \<Rightarrow> bool" where
  "hs_IsSriovPF P d \<longleftrightarrow> hs_deviceType d = TYPE_PF P"

definition StateName :: "health_proto \<Rightarrow> DeviceHealthState \<Rightarrow> string" where
  "StateName P d = TrimPrefix (state_String P (hs_state d)) ''DEVICE_STATE_''"

definition deviceTypeOf :: "health_proto \<Rightarrow> sysfs \<Rightarrow> PciDevice \<Rightarrow> enum" where
  "deviceTypeOf P S d = (if dev_IsSriovPF S d then TYPE_PF P else TYPE_VF P)"

section \<open>Maps of health states\<close>

fun StateNames :: "health_proto \<Rightarrow> healths \<Rightarrow> (string \<rightharpoonup> string) \<Rightarrow> string \<rightharpoonup> string" where
  "StateNames P [] names = names"
| "StateNames P ((addr, hs) # m) names = StateNames P m (names(addr \<mapsto> StateName P hs))"

text \<open>The allocatable devices, in the order of the first argument.\<close>

definition ranged :: "string list \<Rightarrow> AllocatableDevices \<Rightarrow> SpyreDevice list" where
  "ranged ord A = List.map_filter A ord"

definition InitHealthInfo :: "health_proto \<Rightarrow> sysfs \<Rightarrow> string list \<Rightarrow> AllocatableDevices \<Rightarrow> healths" where
  "InitHealthInfo P S ord A =
     fold (\<lambda>d m. obj_set m (GetPciAddr (sd_PciDevice d)) (NewDeviceHealthState P (deviceTypeOf P S (sd_PciDevice d))))
       (ranged ord A) []"

definition InitialDevices :: "health_proto \<Rightarrow> sysfs \<Rightarrow> string list \<Rightarrow> AllocatableDevices \<Rightarrow> HealthDevice list" where
  "InitialDevices P S ord A =
     map (\<lambda>d. \<lparr>hd_DeviceID = Some (GetPciAddr (sd_PciDevice d)), hd_DeviceType = deviceTypeOf P S (sd_PciDevice d),
               hd_DeviceState = STATE_ONLINE P\<rparr>) (ranged ord A)"

fun entries_in :: "healths \<Rightarrow> healths \<Rightarrow> bool" where
  "entries_in [] b = True"
| "entries_in ((k, aVal) # a) b =
     (case obj_get b k of None \<Rightarrow> False | Some bVal \<Rightarrow> if aVal \<noteq> bVal then False else entries_in a b)"

definition MapsEqual :: "healths \<Rightarrow> healths \<Rightarrow> bool" where
  "MapsEqual a b = (if length a \<noteq> length b then False else entries_in a b)"

text \<open>A channel of capacity one, as far as its senders see it: a notification is pending or not.\<close>

definition SafeTriggerUpdate :: "bool \<Rightarrow> bool" where
  "SafeTriggerUpdate pending = (if \<not> pending then True else pending)"

section \<open>Lemmas\<close>

lemma SafeTriggerUpdate_set [simp]: "SafeTriggerUpdate p = True"
  by (simp add: SafeTriggerUpdate_def)

lemma entries_in_iff: "distinct (map fst a) \<Longrightarrow> entries_in a b \<longleftrightarrow> (\<forall>k v. obj_get a k = Some v \<longrightarrow> obj_get b k = Some v)"
proof (induction a)
  case Nil
  then show ?case by simp
next
  case (Cons kv a)
  obtain k v where kv: "kv = (k, v)" by (cases kv)
  have "obj_get a k = None" using Cons.prems by (simp add: kv obj_get_def map_of_eq_None_iff)
  then have "(\<forall>k' v'. obj_get ((k, v) # a) k' = Some v' \<longrightarrow> obj_get b k' = Some v') \<longleftrightarrow>
      obj_get b k = Some v \<and> (\<forall>k' v'. obj_get a k' = Some v' \<longrightarrow> obj_get b k' = Some v')"
    by auto
  with Cons show ?case by (auto simp: kv split: option.split)
qed

lemma entries_keys: "set (map fst a) = dom (obj_get a)"
  using dom_map_of_conv_image_fst [of a] by (simp add: obj_get_def [abs_def])

lemma distinct_length_dom: "distinct (map fst a) \<Longrightarrow> length a = card (dom (obj_get a))"
  by (metis distinct_card entries_keys length_map)

lemma StateNames_get: "distinct (map fst m) \<Longrightarrow> StateNames P m names addr =
    (case obj_get m addr of None \<Rightarrow> names addr | Some hs \<Rightarrow> Some (StateName P hs))"
proof (induction m arbitrary: names)
  case Nil
  then show ?case by simp
next
  case (Cons kv m)
  obtain k v where kv: "kv = (k, v)" by (cases kv)
  have "obj_get m k = None" using Cons.prems by (simp add: kv obj_get_def map_of_eq_None_iff)
  with Cons show ?case by (auto simp: kv split: option.split)
qed

lemma fold_obj_set_distinct: "distinct (map fst m) \<Longrightarrow> distinct (map fst (fold (\<lambda>d m. obj_set m (f d) (g d)) ds m))"
  by (induction ds arbitrary: m) simp_all

lemma fold_obj_set_dom: "dom (obj_get (fold (\<lambda>d m. obj_set m (f d) (g d)) ds m)) = f ` set ds \<union> dom (obj_get m)"
proof (induction ds arbitrary: m)
  case (Cons d ds)
  have "dom (obj_get (obj_set m (f d) (g d))) = insert (f d) (dom (obj_get m))"
    by (auto simp: dom_def)
  with Cons show ?case by auto
qed simp

lemma fold_obj_set_vals:
  "obj_get (fold (\<lambda>d m. obj_set m (f d) (g d)) ds m) k = Some v \<Longrightarrow> (\<exists>d \<in> set ds. v = g d) \<or> obj_get m k = Some v"
  by (induction ds arbitrary: m) (auto split: if_splits, fastforce split: if_splits)

lemma ranged_set:
  assumes ro: "range_order ord A"
  shows "set (ranged ord A) = ran A"
proof
  show "set (ranged ord A) \<subseteq> ran A" by (auto simp: ranged_def List.map_filter_def intro: ranI)
  show "ran A \<subseteq> set (ranged ord A)"
  proof
    fix x assume "x \<in> ran A"
    then obtain k where k: "A k = Some x" by (auto simp: ran_def)
    then have "k \<in> set ord" using range_orderD(1) [OF ro] by auto
    with k show "x \<in> set (ranged ord A)" by (force simp: ranged_def List.map_filter_def)
  qed
qed

lemma MapsEqual_iff:
  assumes "distinct (map fst a)" "distinct (map fst b)"
  shows "MapsEqual a b \<longleftrightarrow> obj_get a = obj_get b"
proof
  assume m: "MapsEqual a b"
  then have len: "length a = length b" and sub: "\<And>k v. obj_get a k = Some v \<Longrightarrow> obj_get b k = Some v"
    using entries_in_iff [OF assms(1)] by (simp_all add: MapsEqual_def split: if_splits)
  have "dom (obj_get a) \<subseteq> dom (obj_get b)" using sub by auto
  moreover have "card (dom (obj_get a)) = card (dom (obj_get b))"
    using len distinct_length_dom [OF assms(1)] distinct_length_dom [OF assms(2)] by simp
  moreover have "finite (dom (obj_get b))" by (simp flip: entries_keys)
  ultimately have d: "dom (obj_get a) = dom (obj_get b)" by (simp add: card_subset_eq)
  show "obj_get a = obj_get b"
  proof
    fix k
    show "obj_get a k = obj_get b k"
    proof (cases "obj_get a k")
      case None
      then have "k \<notin> dom (obj_get b)" unfolding d [symmetric] by (simp add: domIff)
      with None show ?thesis by (simp add: domIff)
    qed (simp add: sub)
  qed
next
  assume "obj_get a = obj_get b"
  then show "MapsEqual a b"
    using distinct_length_dom [OF assms(1)] distinct_length_dom [OF assms(2)] entries_in_iff [OF assms(1), of b]
    by (simp add: MapsEqual_def)
qed

section \<open>Before the first report\<close>

definition sample_proto :: health_proto where
  "sample_proto = \<lparr>STATE_ONLINE = 1, TYPE_PF = 1, TYPE_VF = 2,
     state_String = (\<lambda>s. if s = 0 then ''DEVICE_STATE_UNSPECIFIED'' else if s = 1 then ''ONLINE'' else ''IN_ERROR'')\<rparr>"

text \<open>
  Before any report every allocatable device, and nothing else, is listed by PCI address as
  ONLINE, in the monitor's map and in the registration message alike, in any order of the map.
\<close>

lemma initial_health_online:
  assumes "range_order ord A"
  shows "dom (StateNames P (InitHealthInfo P S ord A) Map.empty) = (\<lambda>d. GetPciAddr (sd_PciDevice d)) ` ran A \<and>
    ran (StateNames P (InitHealthInfo P S ord A) Map.empty) \<subseteq> {TrimPrefix (state_String P (STATE_ONLINE P)) ''DEVICE_STATE_''} \<and>
    distinct (map fst (InitHealthInfo P S ord A)) \<and>
    hd_DeviceID ` set (InitialDevices P S ord A) = Some ` (\<lambda>d. GetPciAddr (sd_PciDevice d)) ` ran A \<and>
    hd_DeviceState ` set (InitialDevices P S ord A) \<subseteq> {STATE_ONLINE P}"
proof -
  let ?f = "\<lambda>d. GetPciAddr (sd_PciDevice d)"
  let ?g = "\<lambda>d. NewDeviceHealthState P (deviceTypeOf P S (sd_PciDevice d))"
  have d: "distinct (map fst (InitHealthInfo P S ord A))"
    unfolding InitHealthInfo_def by (rule fold_obj_set_distinct) simp
  note get = StateNames_get [OF d, of P Map.empty]
  have dom: "dom (obj_get (InitHealthInfo P S ord A)) = ?f ` ran A"
    unfolding InitHealthInfo_def fold_obj_set_dom ranged_set [OF assms] by (simp add: dom_def)
  have "dom (StateNames P (InitHealthInfo P S ord A) Map.empty) = ?f ` ran A"
    unfolding dom [symmetric] by (auto simp: get dom_def split: option.splits)
  moreover have "hs_state v = STATE_ONLINE P" if "obj_get (InitHealthInfo P S ord A) k = Some v" for k v
    using fold_obj_set_vals [of ?f ?g "ranged ord A" "[]" k v] that by (auto simp: InitHealthInfo_def NewDeviceHealthState_def)
  then have "ran (StateNames P (InitHealthInfo P S ord A) Map.empty) \<subseteq> {TrimPrefix (state_String P (STATE_ONLINE P)) ''DEVICE_STATE_''}"
    unfolding ran_def get StateName_def by (auto split: option.splits)
  moreover have "hd_DeviceID ` set (InitialDevices P S ord A) = Some ` ?f ` ran A"
    "hd_DeviceState ` set (InitialDevices P S ord A) \<subseteq> {STATE_ONLINE P}"
    by (auto simp: InitialDevices_def ranged_set [OF assms] image_image)
  ultimately show ?thesis using d by blast
qed

end
