(* ===== verification/HealthClient.thy ===== *)
theory HealthClient
  imports HealthState
begin

text \<open>
  \<^verbatim>\<open>internal/health/health_client.go\<close>, one goroutine at a time: finding the socket,
  loading the credentials, registering, listening to the stream, and reconnecting with back-off.
  What the outside answers is an argument: the parser of certificates (\<^verbatim>\<open>tls_lib\<close>),
  the answers of gRPC (\<^verbatim>\<open>health_env\<close>), the events of the stream, and for each
  attempt to reconnect whether the client is told to stop and whether some goroutine is running.  A \<^verbatim>\<open>time.Duration\<close> is
  its number of nanoseconds; multiplying one by the floating-point factor and converting back is
  the field \<open>backoffScale\<close>, which for the default factor 2.0 is doubling (exact below
  $2^{53}$ nanoseconds, and the cap is 60 seconds).  How goroutines interleave is
  \<^verbatim>\<open>HealthRaces\<close>.
\<close>

section \<open>Socket and credentials\<close>

definition SpyreHealthSocketEnvKey :: string where "SpyreHealthSocketEnvKey = ''SPYRE_HEALTH_SOCK''"
abbreviation TLSCertPathEnvKey :: string where "TLSCertPathEnvKey \<equiv> ''SPYRE_HEALTH_TLS_CERT_PATH''"
abbreviation TLSKeyPathEnvKey :: string where "TLSKeyPathEnvKey \<equiv> ''SPYRE_HEALTH_TLS_KEY_PATH''"
abbreviation TLSCAPathEnvKey :: string where "TLSCAPathEnvKey \<equiv> ''SPYRE_HEALTH_TLS_CA_PATH''"
definition DefaultTLSCertPath :: string where "DefaultTLSCertPath = ''/etc/dra-driver/certs/tls.crt''"
definition DefaultTLSKeyPath :: string where "DefaultTLSKeyPath = ''/etc/dra-driver/certs/tls.key''"
definition DefaultTLSCAPath :: string where "DefaultTLSCAPath = ''/etc/dra-driver/certs/ca.crt''"

text \<open>The name and the error; \<open>modeSocket\<close> is the mode bit of what \<open>os.Stat\<close> finds.\<close>

definition spyreHealthSocket :: "(node \<Rightarrow> bool) \<Rightarrow> world \<Rightarrow> string \<times> err option" where
  "spyreHealthSocket modeSocket w =
     (let socketName = Getenv w SpyreHealthSocketEnvKey in
      if socketName = [] then ([], Some (Msg ''SPYRE_HEALTH_SOCK is unset''))
      else case Stat w socketName of
             Inl e \<Rightarrow> (socketName, Some (Wrapped ''unix socket is unavailable'' e))
           | Inr info \<Rightarrow>
               if \<not> modeSocket info then (socketName, Some (Msg ''is not a unix socket''))
               else if Contains socketName ''/'' then (''unix://'' @ socketName, None)
               else (''unix:'' @ socketName, None))"

record tls_lib =
  X509KeyPair :: "content \<Rightarrow> content \<Rightarrow> err option"
  AppendCertsFromPEM :: "content \<Rightarrow> bool"

record TLSConfig =
  tc_Certificates :: "content \<times> content"
  tc_RootCAs :: content
  tc_ServerName :: string
  tc_MinVersion :: nat

definition LoadX509KeyPair :: "tls_lib \<Rightarrow> world \<Rightarrow> string \<Rightarrow> string \<Rightarrow> err + content \<times> content" where
  "LoadX509KeyPair T w certPath keyPath =
     (case ReadFile w certPath of
        Inl e \<Rightarrow> Inl e
      | Inr cert \<Rightarrow>
          (case ReadFile w keyPath of
             Inl e \<Rightarrow> Inl e
           | Inr key \<Rightarrow> (case X509KeyPair T cert key of Some e \<Rightarrow> Inl e | None \<Rightarrow> Inr (cert, key))))"

definition or_default :: "string \<Rightarrow> string \<Rightarrow> string" where
  "or_default s d = (if s = [] then d else s)"

definition loadTLSCredentials :: "tls_lib \<Rightarrow> world \<Rightarrow> err + TLSConfig" where
  "loadTLSCredentials T w =
     (let certPath = or_default (Getenv w TLSCertPathEnvKey) DefaultTLSCertPath;
          keyPath = or_default (Getenv w TLSKeyPathEnvKey) DefaultTLSKeyPath;
          caPath = or_default (Getenv w TLSCAPathEnvKey) DefaultTLSCAPath in
      case LoadX509KeyPair T w certPath keyPath of
        Inl e \<Rightarrow> Inl (Wrapped ''failed to load client certificate and key'' e)
      | Inr clientCert \<Rightarrow>
          (case ReadFile w caPath of
             Inl e \<Rightarrow> Inl (Wrapped ''failed to read CA certificate'' e)
           | Inr caCert \<Rightarrow>
               if \<not> AppendCertsFromPEM T caCert then Inl (Msg ''failed to parse CA certificate'')
               else Inr \<lparr>tc_Certificates = clientCert, tc_RootCAs = caCert,
                        tc_ServerName = ''spyre-components'', tc_MinVersion = 0x0303\<rparr>))"

section \<open>The client\<close>

datatype conn_state = NoConn | ConnOpen | ConnClosed

record SpyreHealthClient =
  socketName :: string
  healthInfoMap :: healths
  conn :: conn_state
  running :: bool
  quit_closed :: bool
  reconnecting :: bool
  maxReconnectAttempts :: int
  initialBackoff :: int
  maxBackoff :: int
  backoffScale :: "int \<Rightarrow> int"

definition second :: int where "second = 1000000000"
definition DefaultMaxReconnectAttempts :: int where "DefaultMaxReconnectAttempts = 10"
definition DefaultInitialBackoff :: int where "DefaultInitialBackoff = 1 * second"
definition DefaultMaxBackoff :: int where "DefaultMaxBackoff = 60 * second"
definition DefaultBackoffScale :: "int \<Rightarrow> int" where "DefaultBackoffScale d = 2 * d"

definition NewSpyreHealthClient :: "(node \<Rightarrow> bool) \<Rightarrow> world \<Rightarrow> err + SpyreHealthClient" where
  "NewSpyreHealthClient modeSocket w =
     (case spyreHealthSocket modeSocket w of
        (_, Some e) \<Rightarrow> Inl (wrap ''failed to get spyrehealth socket'' e)
      | (name, None) \<Rightarrow> Inr \<lparr>socketName = name, healthInfoMap = [], conn = NoConn, running = False, quit_closed = False,
           reconnecting = False, maxReconnectAttempts = DefaultMaxReconnectAttempts,
           initialBackoff = DefaultInitialBackoff, maxBackoff = DefaultMaxBackoff, backoffScale = DefaultBackoffScale\<rparr>)"

definition SetMaxReconnectAttempts :: "SpyreHealthClient \<Rightarrow> int \<Rightarrow> SpyreHealthClient" where
  "SetMaxReconnectAttempts t n = t\<lparr>maxReconnectAttempts := n\<rparr>"
definition SetInitialBackoff :: "SpyreHealthClient \<Rightarrow> int \<Rightarrow> SpyreHealthClient" where
  "SetInitialBackoff t d = t\<lparr>initialBackoff := d\<rparr>"
definition SetMaxBackoff :: "SpyreHealthClient \<Rightarrow> int \<Rightarrow> SpyreHealthClient" where
  "SetMaxBackoff t d = t\<lparr>maxBackoff := d\<rparr>"
definition SetBackoffMultiplier :: "SpyreHealthClient \<Rightarrow> (int \<Rightarrow> int) \<Rightarrow> SpyreHealthClient" where
  "SetBackoffMultiplier t f = t\<lparr>backoffScale := f\<rparr>"

text \<open>Closing a closed channel panics.\<close>

definition StopClient :: "SpyreHealthClient \<Rightarrow> err option \<times> SpyreHealthClient" where
  "StopClient t = (if quit_closed t then (Some (GoPanic ''close of closed channel''), t) else (None, t\<lparr>quit_closed := True\<rparr>))"

text \<open>Only entries the caller already has are overwritten.\<close>

definition Running :: "SpyreHealthClient \<Rightarrow> bool" where
  "Running t = running t"

text \<open>\<open>SetHealths\<close> is exported for tests; a nil map changes nothing.\<close>

definition SetHealths :: "healths option \<Rightarrow> SpyreHealthClient \<Rightarrow> SpyreHealthClient" where
  "SetHealths hs t = (case hs of None \<Rightarrow> t | Some m \<Rightarrow> t\<lparr>healthInfoMap := m\<rparr>)"

definition UpdateHealths :: "SpyreHealthClient \<Rightarrow> healths \<Rightarrow> healths" where
  "UpdateHealths t hs = fold (\<lambda>(k, v) m. if obj_get m k \<noteq> None then obj_set m k v else m) (healthInfoMap t) hs"

section \<open>Registration\<close>

record health_env =
  he_world :: world
  he_tls :: tls_lib
  he_dial :: "err option"       \<comment> \<open>the answer of \<open>grpc.NewClient\<close>\<close>
  he_stream :: "err option"     \<comment> \<open>the answer of the registration call\<close>

text \<open>A successful registration also starts \<open>listen\<close>; see HealthRaces.\<close>

definition Register :: "health_env \<Rightarrow> SpyreHealthClient \<Rightarrow> err option \<times> SpyreHealthClient" where
  "Register E t =
     (if running t then (None, t)
      else case loadTLSCredentials (he_tls E) (he_world E) of
             Inl e \<Rightarrow> (Some (wrap ''failed to load TLS credentials'' e), t)
           | Inr creds \<Rightarrow>
               (case he_dial E of
                  Some e \<Rightarrow> (Some (wrap ''unable to establish connection with SpyreHealth gRPC server'' e), t\<lparr>conn := NoConn\<rparr>)
                | None \<Rightarrow>
                    (case he_stream E of
                       Some e \<Rightarrow> (Some (wrap ''error calling stream'' e), t\<lparr>conn := ConnClosed\<rparr>)
                     | None \<Rightarrow> (None, t\<lparr>conn := ConnOpen, running := True\<rparr>))))"

section \<open>Reports\<close>

text \<open>\<open>None\<close>: a device without an id, whose address the code reads through a nil pointer.\<close>

fun report_map :: "HealthDevice list \<Rightarrow> healths \<Rightarrow> healths option" where
  "report_map [] m = Some m"
| "report_map (d # ds) m =
     (case hd_DeviceID d of
        None \<Rightarrow> None
      | Some a \<Rightarrow> report_map ds (obj_set m a \<lparr>hs_state = hd_DeviceState d, hs_deviceType = hd_DeviceType d\<rparr>))"

definition setAndNotify :: "HealthDevice list \<Rightarrow> SpyreHealthClient \<Rightarrow> bool \<Rightarrow> err option \<times> SpyreHealthClient \<times> bool" where
  "setAndNotify devices t pending =
     (case report_map devices [] of
        None \<Rightarrow> (Some (GoPanic ''nil pointer dereference''), t, pending)
      | Some currentDeviceMap \<Rightarrow>
          if \<not> MapsEqual (healthInfoMap t) currentDeviceMap
          then (None, t\<lparr>healthInfoMap := currentDeviceMap\<rparr>, SafeTriggerUpdate pending)
          else (None, t, pending))"

datatype received = StreamEOF | StreamError err | Received "HealthDevice list"

datatype listen_end =
    Waiting           \<comment> \<open>blocked in \<open>Recv\<close>\<close>
  | Reconnects        \<comment> \<open>returned, after starting \<open>attemptReconnect\<close>\<close>
  | Quits             \<comment> \<open>returned, told to stop\<close>
  | Panicked          \<comment> \<open>left by a panic that \<open>recover\<close> catches\<close>

text \<open>
  The deferred clean-up, on whatever the client is by then: the reconnection that the loop has
  started may have run before it (HealthRaces).
\<close>

definition hang_up :: "SpyreHealthClient \<Rightarrow> SpyreHealthClient" where
  "hang_up t = t\<lparr>running := False, conn := (if conn t = NoConn then NoConn else ConnClosed)\<rparr>"

text \<open>
  The loop of the listener, up to the clean-up.  An event is what \<open>Recv\<close> returns, and whether the
  client is told to stop by then.
\<close>

fun listen :: "(bool \<times> received) list \<Rightarrow> SpyreHealthClient \<Rightarrow> bool \<Rightarrow> listen_end \<times> SpyreHealthClient \<times> bool" where
  "listen [] t pending = (Waiting, t, pending)"
| "listen ((stop, r) # es) t pending =
     (if r = StreamEOF then (Reconnects, t, pending)
      else if stop then (Quits, t, pending)
      else case r of
             Received devices \<Rightarrow>
               (case setAndNotify devices t pending of
                  (Some e, t1, pending1) \<Rightarrow> (Panicked, t1, pending1)
                | (None, t1, pending1) \<Rightarrow> listen es t1 pending1)
           | _ \<Rightarrow> (Reconnects, t, pending))"

section \<open>Reconnection\<close>

text \<open>
  What an attempt meets.  \<open>seen_running\<close> is the flag \<open>running\<close> as \<open>Register\<close> tests it: other
  goroutines may have set it, or not cleared it yet.
\<close>

record attempt_env =
  stop_before :: bool
  stop_waiting :: bool
  seen_running :: bool
  reg_env :: health_env

datatype reconnect_end = Skipped | Stopped | Reconnected | GaveUp

definition next_backoff :: "SpyreHealthClient \<Rightarrow> int \<Rightarrow> int" where
  "next_backoff t b = (let b' = backoffScale t b in if b' > maxBackoff t then maxBackoff t else b')"

text \<open>The waits in order, how it ended, and the client; \<open>left\<close> attempts are left.\<close>

fun reconnect_loop ::
    "nat \<Rightarrow> nat \<Rightarrow> int \<Rightarrow> (nat \<Rightarrow> attempt_env) \<Rightarrow> SpyreHealthClient \<Rightarrow> int list \<times> reconnect_end \<times> SpyreHealthClient" where
  "reconnect_loop 0 attempt backoff E t = ([], GaveUp, t)"
| "reconnect_loop (Suc left) attempt backoff E t =
     (if stop_before (E attempt) then ([], Stopped, t)
      else if attempt > 1 \<and> stop_waiting (E attempt) then ([], Stopped, t)
      else (let waits = (if attempt > 1 then [backoff] else []) in
            case Register (reg_env (E attempt)) (t\<lparr>running := seen_running (E attempt)\<rparr>) of
              (None, t1) \<Rightarrow> (waits, Reconnected, t1)
            | (Some e, t1) \<Rightarrow>
                (case reconnect_loop left (attempt + 1) (next_backoff t backoff) E t1 of
                   (ws, r, t2) \<Rightarrow> (waits @ ws, r, t2))))"

definition attemptReconnect ::
    "(nat \<Rightarrow> attempt_env) \<Rightarrow> SpyreHealthClient \<Rightarrow> int list \<times> reconnect_end \<times> SpyreHealthClient" where
  "attemptReconnect E t =
     (if reconnecting t then ([], Skipped, t)
      else case reconnect_loop (nat (maxReconnectAttempts t)) 1 (initialBackoff t) E (t\<lparr>reconnecting := True\<rparr>) of
             (ws, r, t1) \<Rightarrow> (ws, r, t1\<lparr>reconnecting := False\<rparr>))"

text \<open>\<open>Start\<close> always succeeds; its flag says whether it started \<open>attemptReconnect\<close>.\<close>

definition StartClient :: "health_env \<Rightarrow> SpyreHealthClient \<Rightarrow> err option \<times> bool \<times> SpyreHealthClient" where
  "StartClient E t = (case Register E t of (Some e, t1) \<Rightarrow> (None, True, t1) | (None, t1) \<Rightarrow> (None, False, t1))"

section \<open>Lemmas\<close>

lemma report_map_fold:
  "report_map ds m =
     (if \<forall>d \<in> set ds. hd_DeviceID d \<noteq> None
      then Some (fold (\<lambda>d m. obj_set m (the (hd_DeviceID d)) \<lparr>hs_state = hd_DeviceState d, hs_deviceType = hd_DeviceType d\<rparr>) ds m)
      else None)"
  by (induction ds arbitrary: m) (auto split: option.split)

lemma report_map_distinct: "report_map ds [] = Some m \<Longrightarrow> distinct (map fst m)"
  by (auto simp: report_map_fold fold_obj_set_distinct split: if_splits)

definition client_ok :: "SpyreHealthClient \<Rightarrow> bool" where
  "client_ok t \<longleftrightarrow> distinct (map fst (healthInfoMap t))"

text \<open>Storing a report: the map is the report's, and a notification is pending if that changed it.\<close>

lemma setAndNotify_ok:
  assumes "client_ok t" "setAndNotify ds t pending = (None, t', pending')"
  shows "client_ok t' \<and> (\<exists>m. report_map ds [] = Some m \<and> obj_get (healthInfoMap t') = obj_get m) \<and>
    pending' = (pending \<or> obj_get (healthInfoMap t') \<noteq> obj_get (healthInfoMap t)) \<and>
    t' = t\<lparr>healthInfoMap := healthInfoMap t'\<rparr>"
proof -
  obtain m where m: "report_map ds [] = Some m"
    using assms(2) by (auto simp: setAndNotify_def split: option.splits)
  note d = report_map_distinct [OF m]
  have eq: "MapsEqual (healthInfoMap t) m \<longleftrightarrow> obj_get (healthInfoMap t) = obj_get m"
    using assms(1) d unfolding client_ok_def by (rule MapsEqual_iff)
  show ?thesis
    using assms m d by (auto simp: setAndNotify_def client_ok_def eq split: if_splits)
qed

lemma setAndNotify_total:
  "(\<exists>t' pending'. setAndNotify ds t pending = (None, t', pending')) \<longleftrightarrow> (\<forall>d \<in> set ds. hd_DeviceID d \<noteq> None)"
  by (auto simp: setAndNotify_def report_map_fold)


text \<open>What a report says of an address: its last entry counts.\<close>

definition reported :: "HealthDevice list \<Rightarrow> string \<Rightarrow> DeviceHealthState option" where
  "reported ds = map_of (rev (map (\<lambda>d. (the (hd_DeviceID d), \<lparr>hs_state = hd_DeviceState d, hs_deviceType = hd_DeviceType d\<rparr>)) ds))"

lemma fold_obj_set_get:
  "obj_get (fold (\<lambda>d m. obj_set m (f d) (g d)) ds m) k =
     (case map_of (rev (map (\<lambda>d. (f d, g d)) ds)) k of None \<Rightarrow> obj_get m k | Some v \<Rightarrow> Some v)"
  by (induction ds arbitrary: m) (auto simp: map_add_def split: option.split)

lemma report_map_reported: "report_map ds [] = Some m \<Longrightarrow> obj_get m = reported ds"
  by (rule ext) (auto simp: report_map_fold fold_obj_set_get reported_def split: if_splits option.split)

definition reports :: "HealthDevice list list \<Rightarrow> (bool \<times> received) list" where
  "reports dss = map (\<lambda>ds. (False, Received ds)) dss"

lemma listen_reports:
  assumes "client_ok t" "\<forall>ds \<in> set dss. \<forall>d \<in> set ds. hd_DeviceID d \<noteq> None"
    and "listen (reports dss) t pending = (r, t', pending')"
  shows "r = Waiting \<and> client_ok t' \<and> t' = t\<lparr>healthInfoMap := healthInfoMap t'\<rparr> \<and>
    obj_get (healthInfoMap t') = (if dss = [] then obj_get (healthInfoMap t) else reported (last dss)) \<and>
    (pending' \<longleftrightarrow> pending \<or> (\<exists>ds \<in> set dss. reported ds \<noteq> obj_get (healthInfoMap t)))"
  using assms
proof (induction dss arbitrary: t pending)
  case Nil
  then show ?case by (simp add: reports_def)
next
  case (Cons ds dss)
  obtain t1 pend where t1: "setAndNotify ds t pending = (None, t1, pend)"
    using Cons.prems(2) setAndNotify_total [of ds t pending] by auto
  have a: "client_ok t1" "obj_get (healthInfoMap t1) = reported ds"
    "pend = (pending \<or> obj_get (healthInfoMap t1) \<noteq> obj_get (healthInfoMap t))"
    "t1 = t\<lparr>healthInfoMap := healthInfoMap t1\<rparr>"
    using setAndNotify_ok [OF Cons.prems(1) t1] report_map_reported by auto
  have l: "listen (reports dss) t1 pend = (r, t', pending')"
    using Cons.prems(3) t1 by (simp add: reports_def)
  have ih: "r = Waiting \<and> client_ok t' \<and> t' = t1\<lparr>healthInfoMap := healthInfoMap t'\<rparr> \<and>
    obj_get (healthInfoMap t') = (if dss = [] then obj_get (healthInfoMap t1) else reported (last dss)) \<and>
    (pending' \<longleftrightarrow> pend \<or> (\<exists>ds \<in> set dss. reported ds \<noteq> obj_get (healthInfoMap t1)))"
    using Cons.IH [OF a(1) _ l] Cons.prems(2) by simp
  have "t' = t\<lparr>healthInfoMap := healthInfoMap t'\<rparr>"
  proof -
    obtain x where "t1 = t\<lparr>healthInfoMap := x\<rparr>" using a(4) by blast
    then have "t1\<lparr>healthInfoMap := y\<rparr> = t\<lparr>healthInfoMap := y\<rparr>" for y by simp
    with ih show ?thesis by simp
  qed
  moreover have "pending' \<longleftrightarrow> pending \<or> (\<exists>x \<in> set (ds # dss). reported x \<noteq> obj_get (healthInfoMap t))"
    using ih a(2,3) by auto
  ultimately show ?case using ih a(2) by simp
qed

lemma hang_up_sel [simp]: "\<not> running (hang_up t)" "conn (hang_up t) \<noteq> ConnOpen" "reconnecting (hang_up t) = reconnecting t" "healthInfoMap (hang_up t) = healthInfoMap t"
  by (simp_all add: hang_up_def)

section \<open>Reconnection: lemmas\<close>

definition usable :: "health_env \<Rightarrow> bool" where
  "usable E \<longleftrightarrow> \<not> is_err (loadTLSCredentials (he_tls E) (he_world E)) \<and> he_dial E = None \<and> he_stream E = None"

definition told_to_stop :: "attempt_env \<Rightarrow> nat \<Rightarrow> bool" where
  "told_to_stop e attempt \<longleftrightarrow> stop_before e \<or> (attempt > 1 \<and> stop_waiting e)"

text \<open>\<open>Register\<close> returns no error also when it finds the client running.\<close>

definition succeeds :: "attempt_env \<Rightarrow> bool" where
  "succeeds e \<longleftrightarrow> seen_running e \<or> usable (reg_env e)"

lemma Register_result:
  assumes "Register E (t\<lparr>running := seen\<rparr>) = (r, t')"
  shows "(r = None \<longleftrightarrow> seen \<or> usable E) \<and> running t' = (r = None) \<and> (r = None \<and> \<not> seen \<longrightarrow> conn t' = ConnOpen) \<and>
    (seen \<longrightarrow> conn t' = conn t) \<and> t' = t\<lparr>conn := conn t', running := running t'\<rparr>"
  using assms
  by (cases seen) (auto simp: Register_def usable_def split: sum.splits option.splits)

lemma next_backoff_cong: "next_backoff (t\<lparr>conn := c, running := b\<rparr>) = next_backoff t"
  "next_backoff (t\<lparr>reconnecting := x\<rparr>) = next_backoff t"
  by (simp_all add: fun_eq_iff next_backoff_def Let_def)

definition waits_of :: "(int \<Rightarrow> int) \<Rightarrow> nat \<Rightarrow> int \<Rightarrow> nat \<Rightarrow> int list" where
  "waits_of f a b n = map (\<lambda>i. (f ^^ (i - a)) b) (filter (\<lambda>i. i > 1) [a ..< a + n])"

lemma waits_of_Suc: "waits_of f a b (Suc n) = (if a > 1 then [b] else []) @ waits_of f (Suc a) (f b) n"
proof -
  have "(f ^^ (i - a)) b = (f ^^ (i - Suc a)) (f b)" if "i \<in> set [Suc a ..< Suc a + n]" for i
  proof -
    have "i - a = Suc (i - Suc a)" using that by auto
    then show ?thesis by (simp only: funpow.simps o_apply funpow_swap1)
  qed
  moreover have "[a ..< a + Suc n] = a # [Suc a ..< Suc a + n]" by (simp add: upt_conv_Cons del: upt_Suc)
  ultimately show ?thesis by (simp add: waits_of_def del: upt_Suc)
qed

lemma reconnect_loop_result:
  assumes "reconnect_loop n a b E t = (ws, r, t')"
  shows "\<exists>j \<le> n. (\<forall>i \<in> {a ..< a + j}. \<not> told_to_stop (E i) i \<and> \<not> succeeds (E i)) \<and>
    (if j = n then r = GaveUp else if told_to_stop (E (a + j)) (a + j) then r = Stopped
     else succeeds (E (a + j)) \<and> r = Reconnected) \<and>
    ws = waits_of (next_backoff t) a b (j + (if r = Reconnected then 1 else 0)) \<and>
    (r = Reconnected \<longrightarrow> running t' \<and> (\<not> seen_running (E (a + j)) \<longrightarrow> conn t' = ConnOpen)) \<and>
    (r \<noteq> Reconnected \<longrightarrow> running t' = (j = 0 \<and> running t)) \<and>
    t' = t\<lparr>conn := conn t', running := running t'\<rparr>"
  using assms
proof (induction n arbitrary: a b t ws)
  case 0
  then show ?case by (auto simp: waits_of_def)
next
  case (Suc n)
  show ?case
  proof (cases "told_to_stop (E a) a")
    case True
    then have "ws = [] \<and> r = Stopped \<and> t' = t" using Suc.prems by (auto simp: told_to_stop_def split: if_splits)
    with True show ?thesis by (intro exI [of _ 0]) (simp add: waits_of_def)
  next
    case False
    obtain rr t1 where reg: "Register (reg_env (E a)) (t\<lparr>running := seen_running (E a)\<rparr>) = (rr, t1)" by fastforce
    note R = Register_result [OF reg]
    show ?thesis
    proof (cases rr)
      case None
      then have "ws = (if a > 1 then [b] else []) \<and> r = Reconnected \<and> t' = t1"
        using Suc.prems False reg by (auto simp: told_to_stop_def)
      with R None False show ?thesis
        by (intro exI [of _ 0]) (auto simp: waits_of_Suc waits_of_def [of _ _ _ 0] succeeds_def)
    next
      case (Some e)
      obtain ws' where l: "reconnect_loop n (Suc a) (next_backoff t b) E t1 = (ws', r, t')"
        and ws: "ws = (if a > 1 then [b] else []) @ ws'"
        using Suc.prems False reg Some by (auto simp: told_to_stop_def split: prod.splits)
      have nb: "next_backoff t1 = next_backoff t" using R next_backoff_cong(1) by metis
      have nr: "\<not> running t1" using R Some by simp
      from Suc.IH [OF l] obtain j where j: "j \<le> n"
        "\<forall>i \<in> {Suc a ..< Suc a + j}. \<not> told_to_stop (E i) i \<and> \<not> succeeds (E i)"
        "if j = n then r = GaveUp else if told_to_stop (E (Suc a + j)) (Suc a + j) then r = Stopped
         else succeeds (E (Suc a + j)) \<and> r = Reconnected"
        "ws' = waits_of (next_backoff t) (Suc a) (next_backoff t b) (j + (if r = Reconnected then 1 else 0))"
        "r = Reconnected \<longrightarrow> running t' \<and> (\<not> seen_running (E (Suc a + j)) \<longrightarrow> conn t' = ConnOpen)"
        "r \<noteq> Reconnected \<longrightarrow> running t' = (j = 0 \<and> running t1)"
        "t' = t1\<lparr>conn := conn t', running := running t'\<rparr>"
        unfolding nb by blast
      have t': "t' = t\<lparr>conn := conn t', running := running t'\<rparr>"
      proof -
        obtain x y where "t1 = t\<lparr>conn := x, running := y\<rparr>" using R by blast
        then have "t1\<lparr>conn := c, running := z\<rparr> = t\<lparr>conn := c, running := z\<rparr>" for c z by simp
        with j(7) show ?thesis by simp
      qed
      have "\<forall>i \<in> {a ..< a + Suc j}. \<not> told_to_stop (E i) i \<and> \<not> succeeds (E i)"
      proof
        fix i assume "i \<in> {a ..< a + Suc j}"
        then have "i = a \<or> i \<in> {Suc a ..< Suc a + j}" by auto
        with j(2) False R Some show "\<not> told_to_stop (E i) i \<and> \<not> succeeds (E i)" by (auto simp: succeeds_def)
      qed
      moreover have "ws = waits_of (next_backoff t) a b (Suc j + (if r = Reconnected then 1 else 0))"
        using waits_of_Suc [of "next_backoff t" a b "j + (if r = Reconnected then 1 else 0)"] ws j(4) by simp
      moreover have "if Suc j = Suc n then r = GaveUp else if told_to_stop (E (a + Suc j)) (a + Suc j) then r = Stopped
         else succeeds (E (a + Suc j)) \<and> r = Reconnected"
        using j(3) unfolding add_Suc add_Suc_right nat.inject .
      ultimately show ?thesis using j(1,5,6) t' nr by (intro exI [of _ "Suc j"] conjI) (assumption | simp)+
    qed
  qed
qed

lemma attemptReconnect_result:
  assumes "\<not> reconnecting t" "attemptReconnect E t = (ws, r, t')"
  shows "\<exists>j \<le> nat (maxReconnectAttempts t).
    (\<forall>i \<in> {1 ..< 1 + j}. \<not> told_to_stop (E i) i \<and> \<not> succeeds (E i)) \<and>
    (if j = nat (maxReconnectAttempts t) then r = GaveUp
     else if told_to_stop (E (1 + j)) (1 + j) then r = Stopped
     else succeeds (E (1 + j)) \<and> r = Reconnected) \<and>
    ws = waits_of (next_backoff t) 1 (initialBackoff t) (j + (if r = Reconnected then 1 else 0)) \<and>
    (r = Reconnected \<longrightarrow> running t' \<and> (\<not> seen_running (E (1 + j)) \<longrightarrow> conn t' = ConnOpen)) \<and>
    (r \<noteq> Reconnected \<longrightarrow> running t' = (j = 0 \<and> running t)) \<and> \<not> reconnecting t'"
proof -
  let ?t = "t\<lparr>reconnecting := True\<rparr>"
  obtain t1 where l: "reconnect_loop (nat (maxReconnectAttempts t)) 1 (initialBackoff t) E ?t = (ws, r, t1)"
    and t': "t' = t1\<lparr>reconnecting := False\<rparr>"
    using assms by (auto simp: attemptReconnect_def split: prod.splits)
  from reconnect_loop_result [OF l, unfolded next_backoff_cong] obtain j where
    "j \<le> nat (maxReconnectAttempts t)"
    "\<forall>i \<in> {1 ..< 1 + j}. \<not> told_to_stop (E i) i \<and> \<not> succeeds (E i)"
    "if j = nat (maxReconnectAttempts t) then r = GaveUp
     else if told_to_stop (E (1 + j)) (1 + j) then r = Stopped
     else succeeds (E (1 + j)) \<and> r = Reconnected"
    "ws = waits_of (next_backoff t) 1 (initialBackoff t) (j + (if r = Reconnected then 1 else 0))"
    "r = Reconnected \<longrightarrow> running t1 \<and> (\<not> seen_running (E (1 + j)) \<longrightarrow> conn t1 = ConnOpen)"
    "r \<noteq> Reconnected \<longrightarrow> running t1 = (j = 0 \<and> running ?t)"
    by (elim exE conjE) (rule that)
  then show ?thesis unfolding t' by (intro exI [of _ j]) simp
qed

lemma waits_of_first: "waits_of f 1 b n = map (\<lambda>i. (f ^^ i) b) [1 ..< n]"
proof -
  have "filter (\<lambda>i. i > 1) [1 ..< 1 + n] = map Suc [1 ..< n]"
  proof (cases n)
    case (Suc m)
    have "[1 ..< 1 + n] = 1 # [2 ..< Suc n]" using Suc by (simp add: upt_conv_Cons numeral_2_eq_2 del: upt_Suc)
    moreover have "filter (\<lambda>i. i > 1) [2 ..< Suc n] = [2 ..< Suc n]" by (rule filter_True) auto
    moreover have "[2 ..< Suc n] = map Suc [1 ..< n]" by (simp add: map_Suc_upt numeral_2_eq_2)
    ultimately show ?thesis by simp
  qed simp
  then show ?thesis by (simp add: waits_of_def)
qed

lemma next_backoff_le: "next_backoff t b \<le> maxBackoff t"
  by (simp add: next_backoff_def Let_def)

section \<open>Properties\<close>

text \<open>
  C28. After any number of reports in which every device has an id, the client holds exactly the
  last report (of several entries for an address the last), and a notification is pending unless
  there was nothing to tell: it is pending iff it was before or some report differed from what
  the client held at first.
\<close>

theorem listen_latest_report:
  assumes "client_ok t" "dss \<noteq> []" "\<forall>ds \<in> set dss. \<forall>d \<in> set ds. hd_DeviceID d \<noteq> None"
    and "listen (map (\<lambda>ds. (False, Received ds)) dss) t pending = (r, t', pending')"
  shows "r = Waiting \<and> obj_get (healthInfoMap t') = reported (last dss) \<and>
    (pending' \<longleftrightarrow> pending \<or> (\<exists>ds \<in> set dss. reported ds \<noteq> obj_get (healthInfoMap t)))"
  using listen_reports [OF assms(1,3)] assms(2,4) unfolding reports_def by simp

definition sample_client :: SpyreHealthClient where
  "sample_client = \<lparr>socketName = ''unix:///s'', healthInfoMap = [], conn = ConnOpen, running = True, quit_closed = False,
     reconnecting = False, maxReconnectAttempts = DefaultMaxReconnectAttempts, initialBackoff = DefaultInitialBackoff,
     maxBackoff = DefaultMaxBackoff, backoffScale = DefaultBackoffScale\<rparr>"

definition sample_report :: "enum \<Rightarrow> HealthDevice list" where
  "sample_report s = [\<lparr>hd_DeviceID = Some ''0000:1a:00.0'', hd_DeviceType = 1, hd_DeviceState = s\<rparr>]"

theorem listen_latest_report_witness:
  "\<exists>t' pending'. listen [(False, Received (sample_report 1)), (False, Received (sample_report 2))] sample_client False = (Waiting, t', pending') \<and>
     obj_get (healthInfoMap t') ''0000:1a:00.0'' = Some \<lparr>hs_state = 2, hs_deviceType = 1\<rparr> \<and> pending'"
proof -
  let ?dss = "[sample_report 1, sample_report 2]"
  obtain r t' pending' where l: "listen (map (\<lambda>ds. (False, Received ds)) ?dss) sample_client False = (r, t', pending')"
    by (metis prod.collapse)
  have ok: "client_ok sample_client" by (simp add: client_ok_def sample_client_def)
  have ids: "\<forall>ds \<in> set ?dss. \<forall>d \<in> set ds. hd_DeviceID d \<noteq> None" by (simp add: sample_report_def)
  have rep: "reported (sample_report s) ''0000:1a:00.0'' = Some \<lparr>hs_state = s, hs_deviceType = 1\<rparr>" for s
    by (simp add: reported_def sample_report_def)
  have "reported (sample_report 1) ''0000:1a:00.0'' \<noteq> obj_get (healthInfoMap sample_client) ''0000:1a:00.0''"
    by (simp add: rep sample_client_def)
  then have "reported (sample_report 1) \<noteq> obj_get (healthInfoMap sample_client)" by metis
  with listen_latest_report [OF ok _ ids l] l rep [of 2] show ?thesis by auto
qed




lemma default_schedule:
  "map (\<lambda>i. (next_backoff sample_client ^^ i) (1 * second)) [1 ..< 10] =
     map (\<lambda>s. s * second) [2, 4, 8, 16, 32, 60, 60, 60, 60]"
  by code_simp

text \<open>
  C31. Reconnecting waits between attempts only: the $k$-th wait is the initial back-off scaled
  $k$ times, each time capped; no wait exceeds the cap, and there are fewer waits than attempts.
  With the default settings the waits are an initial part of 2, 4, 8, 16, 32, 60, 60, 60, 60
  seconds, so the initial back-off of one second itself is never waited.
\<close>

theorem reconnect_schedule:
  assumes "attemptReconnect E t = (ws, r, t')"
  shows "(\<forall>k < length ws. ws ! k = (next_backoff t ^^ Suc k) (initialBackoff t) \<and> ws ! k \<le> maxBackoff t) \<and>
    length ws \<le> nat (maxReconnectAttempts t) - 1 \<and>
    (maxReconnectAttempts t = DefaultMaxReconnectAttempts \<and> initialBackoff t = DefaultInitialBackoff \<and>
     maxBackoff t = DefaultMaxBackoff \<and> backoffScale t = DefaultBackoffScale \<longrightarrow>
       ws = take (length ws) (map (\<lambda>s. s * 1000000000) [2, 4, 8, 16, 32, 60, 60, 60, 60]))"
proof (cases "reconnecting t")
  case True
  with assms show ?thesis by (simp add: attemptReconnect_def)
next
  case False
  from attemptReconnect_result [OF False assms] obtain j where j: "j \<le> nat (maxReconnectAttempts t)"
    "r = Reconnected \<longrightarrow> j \<noteq> nat (maxReconnectAttempts t)"
    "ws = waits_of (next_backoff t) 1 (initialBackoff t) (j + (if r = Reconnected then 1 else 0))"
    by (metis reconnect_end.distinct(11))
  define n where "n = j + (if r = Reconnected then 1 else 0 :: nat)"
  have n: "n \<le> nat (maxReconnectAttempts t)" using j(1,2) by (auto simp: n_def)
  have ws: "ws = map (\<lambda>i. (next_backoff t ^^ i) (initialBackoff t)) [1 ..< n]"
    unfolding n_def by (simp only: j(3) waits_of_first)
  have nth: "ws ! k = (next_backoff t ^^ Suc k) (initialBackoff t)" if "k < length ws" for k
    using that by (simp add: ws)
  moreover have "ws ! k \<le> maxBackoff t" if "k < length ws" for k
    using nth [OF that] next_backoff_le by simp
  moreover have "length ws \<le> nat (maxReconnectAttempts t) - 1" using n by (simp add: ws)
  moreover have "ws = take (length ws) (map (\<lambda>s. s * 1000000000) [2, 4, 8, 16, 32, 60, 60, 60, 60])"
    if d: "maxReconnectAttempts t = DefaultMaxReconnectAttempts \<and> initialBackoff t = DefaultInitialBackoff \<and>
      maxBackoff t = DefaultMaxBackoff \<and> backoffScale t = DefaultBackoffScale"
  proof -
    have nb: "next_backoff t = next_backoff sample_client"
      using d by (simp add: fun_eq_iff next_backoff_def sample_client_def Let_def)
    have "n \<le> 10" using n d by (simp add: DefaultMaxReconnectAttempts_def)
    then have "[1 ..< n] = take (n - 1) [1 ..< 10]" by (cases n) (simp_all del: upt_Suc)
    then have "ws = take (n - 1) (map (\<lambda>i. (next_backoff sample_client ^^ i) (1 * second)) [1 ..< 10])"
      using d by (simp only: ws nb take_map DefaultInitialBackoff_def)
    moreover have "length ws = n - 1" by (simp add: ws)
    ultimately show ?thesis unfolding default_schedule by (simp add: second_def)
  qed
  ultimately show ?thesis by blast
qed

definition bad_env :: health_env where
  "bad_env = \<lparr>he_world = sample_world, he_tls = \<lparr>X509KeyPair = (\<lambda>c k. None), AppendCertsFromPEM = (\<lambda>c. True)\<rparr>,
     he_dial = None, he_stream = None\<rparr>"

definition tls_world :: world where
  "tls_world = sample_world\<lparr>files := map (\<lambda>f. (comps f, File (Raw ''pem''))) [DefaultTLSCertPath, DefaultTLSKeyPath, DefaultTLSCAPath],
     faults := (\<lambda>op p. None)\<rparr>"

definition good_env :: health_env where
  "good_env = bad_env\<lparr>he_world := tls_world\<rparr>"

definition sample_attempts :: "nat \<Rightarrow> attempt_env" where
  "sample_attempts a = \<lparr>stop_before = False, stop_waiting = False, seen_running = False, reg_env = (if a < 3 then bad_env else good_env)\<rparr>"

theorem reconnect_schedule_witness:
  "\<exists>ws t'. attemptReconnect sample_attempts (hang_up sample_client) = (ws, Reconnected, t') \<and> ws = [2000000000, 4000000000]"
proof -
  have r: "fst (snd (attemptReconnect sample_attempts (hang_up sample_client))) = Reconnected"
    "length (fst (attemptReconnect sample_attempts (hang_up sample_client))) = 2"
    by code_simp+
  obtain ws t' where a: "attemptReconnect sample_attempts (hang_up sample_client) = (ws, Reconnected, t')"
    using r(1) by (metis prod.collapse)
  have "maxReconnectAttempts (hang_up sample_client) = DefaultMaxReconnectAttempts"
    "initialBackoff (hang_up sample_client) = DefaultInitialBackoff"
    "maxBackoff (hang_up sample_client) = DefaultMaxBackoff" "backoffScale (hang_up sample_client) = DefaultBackoffScale"
    by (simp_all add: hang_up_def sample_client_def)
  with reconnect_schedule [OF a] have "ws = take (length ws) (map (\<lambda>s. s * 1000000000) [2, 4, 8, 16, 32, 60, 60, 60, 60])"
    by blast
  moreover have "length ws = 2" using r(2) a by simp
  ultimately show ?thesis using a by simp
qed



end
