(* ===== verification/HealthMonitor.thy ===== *)
theory HealthMonitor
  imports HealthClient
begin

text \<open>
  \<^verbatim>\<open>internal/health/device_health.go\<close>: the monitor that turns the client's reports
  into one health map for the allocatable devices.  \<open>processUpdate\<close> is the loop of a goroutine
  of its own; its body is cut at the points where other goroutines can act
  (\<^verbatim>\<open>monitor_pc\<close>).
\<close>

section \<open>State\<close>

record DeviceHealthMonitor =
  mon_client :: SpyreHealthClient
  mon_initial :: "HealthDevice list"
  mon_base :: healths
  mon_updateChan :: bool          \<comment> \<open>a notification is in the channel\<close>
  mon_stopped :: bool             \<comment> \<open>\<open>stopChan\<close> is closed\<close>
  mon_healths :: healths

definition copyHealths :: "healths \<Rightarrow> healths" where
  "copyHealths m = fold (\<lambda>(k, v) out. obj_set out k v) m []"

text \<open>The two lists are the orders in which the two ranges over the map go.\<close>

definition NewDeviceHealthMonitor ::
    "health_proto \<Rightarrow> sysfs \<Rightarrow> (node \<Rightarrow> bool) \<Rightarrow> world \<Rightarrow> string list \<Rightarrow> string list \<Rightarrow> AllocatableDevices \<Rightarrow>
       err + DeviceHealthMonitor" where
  "NewDeviceHealthMonitor P S modeSocket w ord1 ord2 A =
     (case NewSpyreHealthClient modeSocket w of
        Inl e \<Rightarrow> Inl e
      | Inr client \<Rightarrow>
          (let base = InitHealthInfo P S ord1 A in
           Inr \<lparr>mon_client = client, mon_initial = InitialDevices P S ord2 A, mon_base = base,
                mon_updateChan = False, mon_stopped = False, mon_healths = copyHealths base\<rparr>))"

definition StartMonitor :: "health_env \<Rightarrow> DeviceHealthMonitor \<Rightarrow> err option \<times> bool \<times> DeviceHealthMonitor" where
  "StartMonitor E m = (case StartClient E (mon_client m) of (e, b, t) \<Rightarrow> (e, b, m\<lparr>mon_client := t\<rparr>))"

definition StopMonitor :: "DeviceHealthMonitor \<Rightarrow> err option \<times> DeviceHealthMonitor" where
  "StopMonitor m =
     (case StopClient (mon_client m) of
        (Some e, t) \<Rightarrow> (Some e, m\<lparr>mon_client := t\<rparr>)
      | (None, t) \<Rightarrow>
          if mon_stopped m then (Some (GoPanic ''close of closed channel''), m\<lparr>mon_client := t\<rparr>)
          else (None, m\<lparr>mon_client := t, mon_stopped := True\<rparr>))"

definition Healths :: "DeviceHealthMonitor \<Rightarrow> healths" where
  "Healths m = copyHealths (mon_healths m)"

section \<open>The loop\<close>

datatype monitor_pc =
    AtSelect                \<comment> \<open>waiting for a notification or the end\<close>
  | Signalled               \<comment> \<open>the notification is taken\<close>
  | Computed healths        \<comment> \<open>the map is built from the client's\<close>
  | Calling healths         \<comment> \<open>the map is stored, \<open>onChange\<close> is next\<close>
  | Returned                \<comment> \<open>the goroutine has ended\<close>

definition take_signal :: "DeviceHealthMonitor \<Rightarrow> monitor_pc \<times> DeviceHealthMonitor" where
  "take_signal m = (Signalled, m\<lparr>mon_updateChan := False\<rparr>)"

definition compute_healths :: "DeviceHealthMonitor \<Rightarrow> monitor_pc" where
  "compute_healths m = Computed (UpdateHealths (mon_client m) (copyHealths (mon_base m)))"

definition store_healths :: "healths \<Rightarrow> DeviceHealthMonitor \<Rightarrow> monitor_pc \<times> DeviceHealthMonitor" where
  "store_healths hs m = (Calling hs, m\<lparr>mon_healths := hs\<rparr>)"

text \<open>The client stores a report and notifies, in one critical section.\<close>

definition client_report :: "HealthDevice list \<Rightarrow> DeviceHealthMonitor \<Rightarrow> err option \<times> DeviceHealthMonitor" where
  "client_report ds m =
     (case setAndNotify ds (mon_client m) (mon_updateChan m) of
        (e, t, pending) \<Rightarrow> (e, m\<lparr>mon_client := t, mon_updateChan := pending\<rparr>))"

section \<open>Lemmas\<close>

lemma map_of_rev: "distinct (map fst m) \<Longrightarrow> map_of (rev m) = map_of m"
  by (rule map_of_inject_set [THEN iffD2]) (simp_all add: rev_map [symmetric])

lemma copyHealths_get: "distinct (map fst m) \<Longrightarrow> obj_get (copyHealths m) = obj_get m"
proof
  fix k assume d: "distinct (map fst m)"
  have "copyHealths m = fold (\<lambda>d m. obj_set m (fst d) (snd d)) m []"
    by (simp add: copyHealths_def case_prod_unfold)
  then show "obj_get (copyHealths m) k = obj_get m k"
    using fold_obj_set_get [of fst snd m "[]" k] map_of_rev [OF d]
    by (simp add: obj_get_def split: option.split)
qed

lemma copyHealths_distinct [simp]: "distinct (map fst (copyHealths m))"
proof -
  have "copyHealths m = fold (\<lambda>d m. obj_set m (fst d) (snd d)) m []"
    by (simp add: copyHealths_def case_prod_unfold)
  then show ?thesis using fold_obj_set_distinct [of "[]" fst snd m] by simp
qed

lemma UpdateHealths_get:
  assumes "client_ok t"
  shows "obj_get (UpdateHealths t hs) k =
    (case obj_get hs k of None \<Rightarrow> None
     | Some v \<Rightarrow> (case obj_get (healthInfoMap t) k of None \<Rightarrow> Some v | Some v' \<Rightarrow> Some v'))"
proof -
  let ?f = "\<lambda>(k, v) m. if obj_get m k \<noteq> None then obj_set m k v else m"
  have "obj_get (fold ?f m hs) k =
      (case obj_get hs k of None \<Rightarrow> None | Some v \<Rightarrow> (case obj_get m k of None \<Rightarrow> Some v | Some v' \<Rightarrow> Some v'))"
    if "distinct (map fst m)" for m
    using that
  proof (induction m arbitrary: hs)
    case Nil
    then show ?case by (simp split: option.split)
  next
    case (Cons kv m)
    obtain a v where kv: "kv = (a, v)" by (cases kv)
    have "obj_get m a = None" using Cons.prems by (simp add: kv obj_get_def map_of_eq_None_iff)
    with Cons show ?case by (cases "k = a") (auto simp: kv split: option.split)
  qed
  with assms show ?thesis by (simp add: UpdateHealths_def client_ok_def)
qed

lemma UpdateHealths_distinct: "distinct (map fst hs) \<Longrightarrow> distinct (map fst (UpdateHealths t hs))"
proof -
  let ?f = "\<lambda>(k, v) m. if obj_get m k \<noteq> None then obj_set m k v else m"
  have "distinct (map fst hs) \<Longrightarrow> distinct (map fst (fold ?f m hs))" for m
    by (induction m arbitrary: hs) auto
  then show "distinct (map fst hs) \<Longrightarrow> distinct (map fst (UpdateHealths t hs))" by (simp add: UpdateHealths_def)
qed

end
