(* ===== verification/HealthService.thy ===== *)
theory HealthService
  imports Configuration
begin

text \<open>
  \<^verbatim>\<open>internal/health/health.go\<close>: the gRPC health service of the plugin.  The answers
  of the network (listening on the port, making a client, the two probe calls) are arguments.  The
  escaping of \<^verbatim>\<open>net/url\<close> is modelled, since the socket paths come from flags.
\<close>

section \<open>Socket addresses\<close>

text \<open>The characters \<open>url.URL.String\<close> escapes in a path, and how.\<close>

definition url_keeps :: "char \<Rightarrow> bool" where
  "url_keeps c \<longleftrightarrow> (CHR ''a'' \<le> c \<and> c \<le> CHR ''z'') \<or> (CHR ''A'' \<le> c \<and> c \<le> CHR ''Z'') \<or> (CHR ''0'' \<le> c \<and> c \<le> CHR ''9'') \<or>
     c \<in> set ''-_.~$&+,/:;=@''"

definition url_escape :: "string \<Rightarrow> string" where
  "url_escape p = concat (map (\<lambda>c. if url_keeps c then [c]
     else [CHR ''%'', ''0123456789ABCDEF'' ! (of_char c div 16), ''0123456789ABCDEF'' ! (of_char c mod 16)]) p)"

definition unix_url :: "string \<Rightarrow> string" where
  "unix_url p = ''unix:'' @ (if p = [] then [] else ''//'' @ url_escape p)"

definition regSockPath :: "Flags \<Rightarrow> string" where
  "regSockPath config = unix_url (Join [KubeletRegistrarDirectoryPath config, DriverName @ ''-reg.sock''])"

definition draSockPath :: "Flags \<Rightarrow> string" where
  "draSockPath config = unix_url (Join [configDriverPluginPath config, ''dra.sock''])"

section \<open>Service\<close>

record HealthCheck =
  hc_addr :: string          \<comment> \<open>where the server listens\<close>
  hc_regConn :: string
  hc_draConn :: string
  hc_serving :: bool

definition StartHealthcheck ::
    "(string \<Rightarrow> err option) \<Rightarrow> (string \<Rightarrow> err option) \<Rightarrow> Flags \<Rightarrow> err + HealthCheck" where
  "StartHealthcheck listen newClient config =
     (let port = HealthCheckPort config in
      if port < 0 then Inl (Msg ''invalid port number'')
      else
        (let addr = CHR '':'' # Itoa port in
         case listen addr of
           Some e \<Rightarrow> Inl (wrap ''failed to listen for healthcheck service'' e)
         | None \<Rightarrow>
        (case newClient (regSockPath config) of
           Some e \<Rightarrow> Inl (wrap ''connect to registration socket'' e)
         | None \<Rightarrow>
        (case newClient (draSockPath config) of
           Some e \<Rightarrow> Inl (wrap ''connect to DRA socket'' e)
         | None \<Rightarrow> Inr \<lparr>hc_addr = addr, hc_regConn = regSockPath config, hc_draConn = draSockPath config, hc_serving = True\<rparr>))))"

definition StopHealthcheck :: "HealthCheck \<Rightarrow> HealthCheck" where
  "StopHealthcheck h = h\<lparr>hc_serving := False\<rparr>"

datatype serving_status = SERVING | NOT_SERVING

definition knownServices :: "string list" where "knownServices = [[], ''liveness'']"

text \<open>
  The calls that were made come with the answer: first \<open>GetInfo\<close> on the registration socket,
  then \<open>NodePrepareResources\<close> without claims on the plugin's own socket.
\<close>

datatype probe = GetInfo | NodePrepareResources

definition Check :: "err option \<Rightarrow> err option \<Rightarrow> string \<Rightarrow> (err + serving_status) \<times> probe list" where
  "Check getInfo nodePrepare service =
     (if service \<notin> set knownServices then (Inl (Msg ''unknown service''), [])
      else case getInfo of
             Some e \<Rightarrow> (Inr NOT_SERVING, [GetInfo])
           | None \<Rightarrow>
               (case nodePrepare of
                  Some e \<Rightarrow> (Inr NOT_SERVING, [GetInfo, NodePrepareResources])
                | None \<Rightarrow> (Inr SERVING, [GetInfo, NodePrepareResources])))"

section \<open>Lemmas\<close>

lemma Check_serving:
  "fst (Check getInfo nodePrepare service) = Inr SERVING \<longleftrightarrow>
     service \<in> {[], ''liveness''} \<and> getInfo = None \<and> nodePrepare = None"
  by (simp add: Check_def knownServices_def split: option.split)

text \<open>Escaping loses nothing: different socket paths have different addresses.\<close>

lemma percent_not_kept: "\<not> url_keeps CHR ''%''"
  by code_simp

lemma hex_inj: "(i::nat) < 16 \<Longrightarrow> j < 16 \<Longrightarrow> ''0123456789ABCDEF'' ! i = ''0123456789ABCDEF'' ! j \<Longrightarrow> i = j"
proof -
  have "distinct ''0123456789ABCDEF''" "length ''0123456789ABCDEF'' = 16" by code_simp+
  then show "i < 16 \<Longrightarrow> j < 16 \<Longrightarrow> ''0123456789ABCDEF'' ! i = ''0123456789ABCDEF'' ! j \<Longrightarrow> i = j"
    by (simp only: nth_eq_iff_index_eq)
qed

lemma url_escape_inj: "url_escape p = url_escape q \<Longrightarrow> p = q"
proof (induction p arbitrary: q)
  case Nil
  then show ?case by (cases q) (auto simp: url_escape_def split: if_splits)
next
  case (Cons c p)
  then obtain d q' where q: "q = d # q'" by (cases q) (auto simp: url_escape_def split: if_splits)
  have b: "(of_char c :: nat) < 256" "(of_char d :: nat) < 256" by simp_all
  have "c = d \<and> url_escape p = url_escape q'"
  proof (cases "url_keeps c")
    case True
    then show ?thesis using Cons.prems percent_not_kept by (auto simp: q url_escape_def split: if_splits)
  next
    case False
    then have "\<not> url_keeps d" using Cons.prems percent_not_kept by (auto simp: q url_escape_def split: if_splits)
    with False Cons.prems have h: "''0123456789ABCDEF'' ! (of_char c div 16) = ''0123456789ABCDEF'' ! (of_char d div 16)"
      "''0123456789ABCDEF'' ! (of_char c mod 16) = ''0123456789ABCDEF'' ! (of_char d mod 16)" "url_escape p = url_escape q'"
      by (simp_all add: q url_escape_def)
    have lt: "(of_char c :: nat) div 16 < 16" "(of_char d :: nat) div 16 < 16" using b by (simp_all add: less_mult_imp_div_less)
    have "(of_char c :: nat) div 16 = of_char d div 16" by (rule hex_inj [OF lt h(1)])
    moreover have "(of_char c :: nat) mod 16 = of_char d mod 16" by (rule hex_inj [OF _ _ h(2)]) simp_all
    ultimately have "(of_char c :: nat) = of_char d" by (metis div_mult_mod_eq)
    then show ?thesis using h(3) by simp
  qed
  then show ?case using Cons.IH q by simp
qed

end
