(* ===== verification/ClaimLife.thy ===== *)
theory ClaimLife
  imports DeviceState
begin

text \<open>
  What survives a crash.  \<open>Prepare\<close> and \<open>Unprepare\<close> are several writes to the disk and
  the checkpoint; the process may die between two of them.  \<^verbatim>\<open>claim_step\<close> is one such
  write, and the loss of the process.  The two methods are sequences of steps, and along every
  sequence of steps, hence also after a crash in the middle of a method, each recorded claim has
  a readable CDI spec that names its devices.
\<close>

section \<open>Steps\<close>

definition root_of :: "'s machine \<Rightarrow> string" where
  "root_of m = cdi_root (ds_CDI (dstate m))"

definition device_names :: "PreparedDevices \<Rightarrow> string list" where
  "device_names ds = map (\<lambda>d. DeviceName (pd_Device d)) (elems ds)"

definition own_mounts :: "config_vars \<Rightarrow> CdiSpec \<Rightarrow> bool" where
  "own_mounts v spec \<longleftrightarrow> (\<exists>n. plain_name n \<and> map mnt_HostPath (ce_Mounts (spec_ContainerEdits spec)) =
     [Join [configHostPath v, n], Join [metricsHostPath v, n]])"

lemma own_mounts_comps:
  assumes "own_mounts v spec" "configHostPath v \<noteq> []" "metricsHostPath v \<noteq> []" "mt \<in> set (ce_Mounts (spec_ContainerEdits spec))"
  obtains X n where "X = configHostPath v \<or> X = metricsHostPath v" "comps (mnt_HostPath mt) = comps X @ [n]"
proof -
  obtain n where n: "plain_name n" "map mnt_HostPath (ce_Mounts (spec_ContainerEdits spec)) =
      [Join [configHostPath v, n], Join [metricsHostPath v, n]]"
    using assms(1) by (auto simp: own_mounts_def)
  have "mnt_HostPath mt \<in> set (map mnt_HostPath (ce_Mounts (spec_ContainerEdits spec)))" using assms(4) by simp
  then have "mnt_HostPath mt = Join [configHostPath v, n] \<or> mnt_HostPath mt = Join [metricsHostPath v, n]"
    unfolding n(2) by simp
  then show thesis
    using that [of "configHostPath v" n] that [of "metricsHostPath v" n] n(1) assms(2,3) by (auto simp: comps_Join)
qed

text \<open>The file of a claim's spec, and what it says.\<close>

definition yaml :: "cdi_lib \<Rightarrow> string \<Rightarrow> string \<Rightarrow> string" where
  "yaml L r u = Join [r, spec_name L u] @ ''.yaml''"

definition spec_at :: "cdi_lib \<Rightarrow> string \<Rightarrow> world \<Rightarrow> string \<Rightarrow> CdiSpec \<Rightarrow> bool" where
  "spec_at L r w u spec \<longleftrightarrow> (\<exists>c. Stat w (yaml L r u) = Inr (File c)) \<and> LibReadSpec L (yaml L r u) w = Inr spec"

definition spec_for :: "'s deps \<Rightarrow> 's machine \<Rightarrow> string \<Rightarrow> PreparedDevices \<Rightarrow> bool" where
  "spec_for D m u ds \<longleftrightarrow> plain_name u \<and>
     (\<exists>spec. spec_at (libC D) (root_of m) (os m) u spec \<and> own_mounts (vars m) spec \<and>
        map cd_Name (spec_Devices spec) = device_names ds)"

definition stored :: "'s deps \<Rightarrow> 's machine \<Rightarrow> Checkpoint \<Rightarrow> PreparedClaims \<Rightarrow> bool" where
  "stored D m cp cs \<longleftrightarrow>
     GetCheckpoint (libK D) DriverPluginCheckpointFile newCheckpoint (store m) = Inr cp \<and>
     V1 cp = Some \<lparr>cp_PreparedClaims = Some cs\<rparr>"

inductive claim_step :: "'s deps \<Rightarrow> 's machine \<Rightarrow> 's machine \<Rightarrow> bool" for D where
  write_spec: "plain_name u \<Longrightarrow> recorded (libK D) (store m) u = None \<Longrightarrow>
    CreateClaimSpecFile (libC D) (vars m) (ds_CDI (dstate m)) (os m) u ds = (e, h, w) \<Longrightarrow>
    claim_step D m (m\<lparr>dstate := (dstate m)\<lparr>ds_CDI := h\<rparr>, os := w\<rparr>)"
| record_claim: "spec_for D m u ds \<Longrightarrow> stored D m cp cs \<Longrightarrow>
    CreateCheckpoint (libK D) DriverPluginCheckpointFile (with_claims cp (obj_set cs u ds)) (store m) = (e, s) \<Longrightarrow>
    claim_step D m (m\<lparr>store := s\<rparr>)"
| unmount: "recorded (libK D) (store m) u \<noteq> None \<Longrightarrow> claim_step D m (unprepareDevices D u m)"
| forget: "stored D m cp cs \<Longrightarrow>
    CreateCheckpoint (libK D) DriverPluginCheckpointFile (with_claims cp (obj_del cs u)) (store m) = (e, s) \<Longrightarrow>
    claim_step D m (m\<lparr>store := s\<rparr>)"
| remove_spec: "plain_name u \<Longrightarrow> recorded (libK D) (store m) u = None \<Longrightarrow>
    DeleteClaimSpec (libC D) (ds_CDI (dstate m)) (os m) u = (e, w) \<Longrightarrow>
    claim_step D m (m\<lparr>os := w\<rparr>)"
| crash: "cdi_root (ds_CDI s) = root_of m \<Longrightarrow> claim_step D m (m\<lparr>dstate := s\<rparr>)"

inductive claim_steps :: "'s deps \<Rightarrow> 's machine \<Rightarrow> 's machine \<Rightarrow> bool" for D where
  steps_refl [intro!]: "claim_steps D m m"
| steps_step: "claim_steps D m m' \<Longrightarrow> claim_step D m' m'' \<Longrightarrow> claim_steps D m m''"

inductive_cases claim_stepE: "claim_step D m m'"

lemma steps_one: "claim_step D m m' \<Longrightarrow> claim_steps D m m'"
  by (rule steps_step [OF steps_refl])

lemma steps_two: "claim_step D a b \<Longrightarrow> claim_step D b c \<Longrightarrow> claim_steps D a c"
  by (rule steps_step [OF steps_one])

lemma steps_trans: "claim_steps D a b \<Longrightarrow> claim_steps D b c \<Longrightarrow> claim_steps D a c"
  by (rotate_tac, induction rule: claim_steps.induct) (auto intro: steps_step)

section \<open>Frames of the disk writes\<close>

lemma Stat_only_writes:
  assumes "only_writes P w w'" "\<And>q. prefix q (comps s) \<Longrightarrow> q \<notin> P" "Stat w s = Inr n"
  shows "Stat w' s = Inr n \<and> ReadFile w' s = ReadFile w s"
proof -
  have so: "same_os w w'" using assms(1) by (simp add: only_writes_def)
  have "is_file (lookup w' q) = is_file (lookup w q)" if "prefix q (comps s)" for q
    using assms(1) assms(2) [OF that] unfolding only_writes_def by (metis is_file.simps(2,3))
  then have "file_above w' (comps s) = file_above w (comps s)"
    by (auto simp: file_above_def list_ex_iff take_is_prefix)
  moreover have "lookup w' (comps s) = Some n"
    using only_writesD [OF assms(1)] assms(2) Stat_Inr [OF assms(3)] by simp
  ultimately have "Stat w' s = Inr n"
    using assms(3) Stat_Inr [OF assms(3)] by (simp add: Stat_def stat_path_def same_osD [OF so] split: option.splits if_splits)
  with assms(3) show ?thesis by (simp add: ReadFile_def same_osD [OF so] split: option.split)
qed

text \<open>Whatever becomes of it, a call for the mounts writes strictly below the config directory only.\<close>

definition below :: "path \<Rightarrow> path set" where
  "below p = {q. strict_prefix p q}"

lemma comps_slash: "d \<noteq> [] \<Longrightarrow> plain_name n \<Longrightarrow> comps (d @ CHR ''/'' # n) = comps d @ [n]"
  by (cases d) (simp_all add: comps_def is_rooted_def clean_comps_append [of "_ # _", simplified])

lemma only_writes_mono: "only_writes P w w' \<Longrightarrow> P \<subseteq> Q \<Longrightarrow> only_writes Q w w'"
  unfolding only_writes_def by blast

lemma only_writes_comp: "only_writes P a b \<Longrightarrow> only_writes P b c \<Longrightarrow> only_writes P a c"
  using only_writes_trans [of P a b P c] by simp

lemma GetConfigMetricsMount_frame:
  assumes "GetConfigMetricsMount v h w p ids = (r, h', w')"
    and "configHostPath v \<noteq> []" "\<And>n. plain_name (uuid_src w n)" "plain_name (GetConfigFileName w)"
  shows "only_writes (below (comps (configHostPath v))) w w'"
proof -
  let ?B = "below (comps (configHostPath v))"
  obtain d w1 where d: "CreateNewConfigFolder w (configHostPath v) = (d, w1)" by fastforce
  note loop = new_folder_loop_ok [of uuidGenerateMaxRetry None w "configHostPath v" d w1]
  have s1: "grows w w1" using loop d by (simp add: CreateNewConfigFolder_def)
  show ?thesis
  proof (cases d)
    case (Inl e)
    with assms(1) d s1 show ?thesis by (auto simp: GetConfigMetricsMount_def intro: grows_only_writes)
  next
    case (Inr f)
    obtain k where f: "f = Join [configHostPath v, uuid_src w (uuid_next w + k)]"
      using loop d Inr by (auto simp: CreateNewConfigFolder_def)
    have cf: "comps f = comps (configHostPath v) @ [uuid_src w (uuid_next w + k)]" "f \<noteq> []"
      using comps_Join [OF assms(2,3)] f by (simp_all, metis comps_Nil snoc_eq_iff_butlast)
    obtain r2 w2 where w2: "CopyTopologyFile w1 f = (r2, w2)" by fastforce
    have tb: "comps (f @ ''/topo.json'') \<in> ?B"
      using comps_slash [OF cf(2), of "''topo.json''"] by (simp add: cf plain_name_def below_def strict_prefix_def)
    have "only_writes {comps (f @ ''/topo.json'')} w1 w2"
      using CopyFile_frame [of "f @ ''/topo.json''" w1 "GetTopologyFile w1"] w2 by (simp add: CopyTopologyFile_def)
    then have s2: "only_writes ?B w1 w2" by (rule only_writes_mono) (use tb in blast)
    obtain r3 w3 where w3: "GenerateConfigFile (senlibConfigGenerator v) w2 p ids f = (r3, w3)" by fastforce
    have "same_os w w2" using s1 s2 by (auto simp: grows_def only_writes_def same_os_def)
    then have "plain_name (GetConfigFileName w2)" using assms(4) GetConfigFileName_same by simp
    then have jb: "comps (Join [f, GetConfigFileName w2]) \<in> ?B"
      using comps_Join [OF cf(2)] by (simp add: cf below_def strict_prefix_def)
    have "only_writes {comps (Join [f, GetConfigFileName w2])} w2 w3"
      using GenerateConfigFile_frame [of f w2 "senlibConfigGenerator v" p ids] w3 by simp
    then have s3: "only_writes ?B w2 w3" by (rule only_writes_mono) (use jb in blast)
    obtain r4 w4 where w4: "CreateWritableFolderIfNotExists w3 (Join [metricsHostPath v, GetUuidFromPath f]) = (r4, w4)"
      by fastforce
    have s4: "grows w3 w4"
      using CreateFolder_grows [of w3 "Join [metricsHostPath v, GetUuidFromPath f]"] w4 by (simp add: CreateWritableFolder_eq)
    have "w' = w3 \<or> w' = w4"
      using assms(1) d Inr w2 w3 w4
      by (auto simp: GetConfigMetricsMount_def getSenlibConfigMount_def getMetricsMount_def CreateNewMetricsFolder_def Let_def
          split: option.splits)
    moreover have "only_writes ?B w w3"
      by (rule only_writes_comp [OF grows_only_writes [OF s1] only_writes_comp [OF s2 s3]])
    ultimately show ?thesis using only_writes_comp [OF _ grows_only_writes [OF s4]] by blast
  qed
qed

section \<open>Well-formed machines\<close>

text \<open>
  The disk answers, the directories of specs, configurations and metrics are separate, UUIDs and
  the configuration file's name are plain file names.
\<close>

definition wf_machine :: "'s machine \<Rightarrow> bool" where
  "wf_machine m \<longleftrightarrow> no_faults (os m) \<and> root_of m \<noteq> [] \<and> configHostPath (vars m) \<noteq> [] \<and> metricsHostPath (vars m) \<noteq> [] \<and>
     apart (comps (root_of m)) (comps (configHostPath (vars m))) \<and>
     apart (comps (root_of m)) (comps (metricsHostPath (vars m))) \<and>
     (\<forall>n. plain_name (uuid_src (os m) n)) \<and> plain_name (GetConfigFileName (os m))"

definition claims_have_specs :: "'s deps \<Rightarrow> 's machine \<Rightarrow> bool" where
  "claims_have_specs D m \<longleftrightarrow> (\<forall>u ds. recorded (libK D) (store m) u = Some ds \<longrightarrow> spec_for D m u (Some ds))"

lemma wf_machine_same:
  assumes "wf_machine m" "same_os (os m) (os m')" "root_of m' = root_of m" "vars m' = vars m"
  shows "wf_machine m'"
  using assms GetConfigFileName_same [OF assms(2)] no_faults_same [OF assms(2)] same_osD [OF assms(2)]
  by (simp add: wf_machine_def)

lemma apart_not_below:
  assumes "apart r X" "prefix q (r @ [x])"
  shows "q \<notin> below X"
proof
  assume "q \<in> below X"
  then have "prefix X (r @ [x])"
    using assms(2) prefix_order.trans by (auto simp: below_def strict_prefix_def)
  then have "prefix X r \<or> prefix r X" by (auto simp: prefix_snoc)
  with assms(1) show False by (simp add: apart_def)
qed

lemma apart_not_child: "apart r X \<Longrightarrow> prefix q (r @ [x]) \<Longrightarrow> \<not> prefix (X @ [n]) q"
  using apart_not_below [of r X q x] by (auto simp: below_def strict_prefix_def prefix_def)

section \<open>The spec of a claim under the writes of another\<close>

context cdi_library
begin

lemma comps_yaml: "r \<noteq> [] \<Longrightarrow> plain_name u \<Longrightarrow> comps (yaml L r u) = comps r @ [spec_name L u @ ''.yaml'']"
  by (simp add: yaml_def comps_spec_path name_plain)

lemma spec_at_ReadSpec: "spec_at L (cdi_root h) w u spec \<Longrightarrow> ReadSpec L h w u = Inr spec"
  by (auto simp: spec_at_def yaml_def ReadSpec_def getSpecFilePath_def extChoices_def)

lemma spec_at_only_writes:
  assumes "spec_at L r w u spec" "only_writes P w w'" "\<And>q. prefix q (comps (yaml L r u)) \<Longrightarrow> q \<notin> P"
  shows "spec_at L r w' u spec"
proof -
  obtain c where c: "Stat w (yaml L r u) = Inr (File c)" and l: "LibReadSpec L (yaml L r u) w = Inr spec"
    using assms(1) by (auto simp: spec_at_def)
  have "Stat w' (yaml L r u) = Inr (File c) \<and> ReadFile w' (yaml L r u) = ReadFile w (yaml L r u)"
    by (rule Stat_only_writes [OF assms(2,3) c])
  then show ?thesis using read_cong [of w' "yaml L r u" w] l by (simp add: spec_at_def)
qed

lemma spec_at_same:
  assumes "spec_at L r w u spec" "same_os w w'" "\<And>q. prefix q (comps (yaml L r u)) \<Longrightarrow> lookup w' q = lookup w q"
  shows "spec_at L r w' u spec"
proof -
  have "Stat w' (yaml L r u) = Stat w (yaml L r u)" by (rule Stat_cong [OF assms(2,3)])
  moreover have "LibReadSpec L (yaml L r u) w' = LibReadSpec L (yaml L r u) w"
    by (rule read_cong, rule ReadFile_cong [OF assms(2,3)])
  ultimately show ?thesis using assms(1) by (simp add: spec_at_def)
qed

lemma CreateClaimSpecFile_frame:
  assumes "CreateClaimSpecFile L v h w u ds = (e, h', w')" "configHostPath v \<noteq> []"
    and "\<And>n. plain_name (uuid_src w n)" "plain_name (GetConfigFileName w)" "cdi_root h \<noteq> []" "plain_name u"
  shows "only_writes (below (comps (configHostPath v)) \<union> {comps (yaml L (cdi_root h) u)}) w w' \<and> cdi_root h' = cdi_root h"
proof -
  obtain mnts e1 ch w1 where m: "GetConfigMetricsMount v (configHandler h) w (config_product ds) (GetDeviceIDs ds) = ((mnts, e1), ch, w1)"
    by (metis prod.collapse)
  have f1: "only_writes (below (comps (configHostPath v)) \<union> {comps (yaml L (cdi_root h) u)}) w w1"
    by (rule only_writes_mono [OF GetConfigMetricsMount_frame [OF m assms(2-4)]]) blast
  show ?thesis
  proof (cases "w' = w1 \<and> cdi_root h' = cdi_root h")
    case False
    then obtain s r where "WriteSpec L (cdi_root h) s (spec_name L u) w1 = (r, w')" and h': "cdi_root h' = cdi_root h"
      using assms(1) m by (auto simp: CreateClaimSpecFile_def Let_def split: option.splits sum.splits prod.splits)
    then have "only_writes {comps (yaml L (cdi_root h) u)} w1 w'"
      using write_frame [OF assms(5) name_plain [OF assms(6)]] comps_yaml [OF assms(5,6)] by simp
    then have "only_writes (below (comps (configHostPath v)) \<union> {comps (yaml L (cdi_root h) u)}) w1 w'"
      by (rule only_writes_mono) blast
    with f1 h' show ?thesis using only_writes_comp by blast
  qed (use f1 in simp)
qed

lemma spec_at_create:
  assumes "spec_at L (cdi_root h) w u' spec" "plain_name u'" "u' \<noteq> u"
    and "CreateClaimSpecFile L v h w u ds = (e, h', w')" "configHostPath v \<noteq> []"
    and "\<And>n. plain_name (uuid_src w n)" "plain_name (GetConfigFileName w)" "cdi_root h \<noteq> []" "plain_name u"
    and "apart (comps (cdi_root h)) (comps (configHostPath v))"
  shows "spec_at L (cdi_root h) w' u' spec"
proof (rule spec_at_only_writes [OF assms(1)])
  show "only_writes (below (comps (configHostPath v)) \<union> {comps (yaml L (cdi_root h) u)}) w w'"
    using CreateClaimSpecFile_frame [OF assms(4-9)] by simp
  fix q assume q: "prefix q (comps (yaml L (cdi_root h) u'))"
  have "q \<noteq> comps (yaml L (cdi_root h) u)"
  proof
    assume "q = comps (yaml L (cdi_root h) u)"
    with q have "spec_name L u' = spec_name L u" by (simp add: comps_yaml assms)
    from name_inj [OF _ _ this] assms show False by simp
  qed
  then show "q \<notin> below (comps (configHostPath v)) \<union> {comps (yaml L (cdi_root h) u)}"
    using apart_not_below [OF assms(10), of q] q by (simp add: comps_yaml assms)
qed

lemma spec_at_remove:
  assumes "spec_at L (cdi_root h) w u' spec" "plain_name u'" "u' \<noteq> u" "plain_name u" "cdi_root h \<noteq> []"
    and "DeleteClaimSpec L h w u = (e, w')"
  shows "spec_at L (cdi_root h) w' u' spec"
proof -
  have f: "same_os w w' \<and> (\<forall>q. \<not> prefix (comps (yaml L (cdi_root h) u)) q \<longrightarrow> lookup w' q = lookup w q)"
    using remove_frame [OF assms(5) name_plain [OF assms(4)]] assms(6) by (simp add: DeleteClaimSpec_def comps_yaml assms)
  have "\<not> prefix (comps (yaml L (cdi_root h) u)) q" if q: "prefix q (comps (yaml L (cdi_root h) u'))" for q
  proof
    assume "prefix (comps (yaml L (cdi_root h) u)) q"
    then have "prefix (comps (yaml L (cdi_root h) u)) (comps (yaml L (cdi_root h) u'))"
      using q prefix_order.trans by blast
    then have "spec_name L u' = spec_name L u" by (simp add: comps_yaml assms)
    from name_inj [OF _ _ this] assms show False by simp
  qed
  with f show ?thesis using spec_at_same [OF assms(1)] by blast
qed

end

lemma DeleteConfigFile_frame:
  "same_os w (DeleteConfigFile spec w) \<and>
   ((\<forall>mt \<in> set (ce_Mounts (spec_ContainerEdits spec)). \<not> prefix (comps (mnt_HostPath mt)) q) \<longrightarrow>
      lookup (DeleteConfigFile spec w) q = lookup w q)"
proof -
  have "same_os w (fold f ms w) \<and>
      ((\<forall>mt \<in> set ms. \<not> prefix (comps (mnt_HostPath mt)) q) \<longrightarrow> lookup (fold f ms w) q = lookup w q)"
    if "f = (\<lambda>m w'. if IsHostMountedFile w' (mnt_ContainerPath m) then deleteMountedPath (mnt_HostPath m) w' else w')" for f ms
  proof (induction ms arbitrary: w)
    case Nil
    then show ?case by simp
  next
    case (Cons mt ms)
    have "same_os w (f mt w)" by (simp add: that)
    moreover have "\<not> prefix (comps (mnt_HostPath mt)) q \<longrightarrow> lookup (f mt w) q = lookup w q"
      by (simp add: that lookup_deleteMountedPath)
    ultimately show ?case using Cons.IH [of "f mt w"] same_os_trans [of w "f mt w"] by simp
  qed
  from this [OF refl, of "ce_Mounts (spec_ContainerEdits spec)"] show ?thesis by (simp add: DeleteConfigFile_def)
qed

section \<open>The invariant\<close>

lemma spec_for_own:
  assumes "cdi_library (libC D)" "spec_for D m u ds" "root_of m \<noteq> []"
  obtains spec where "ReadSpec (libC D) (ds_CDI (dstate m)) (os m) u = Inr spec" "own_mounts (vars m) spec"
  using assms(2) cdi_library.spec_at_ReadSpec [OF assms(1)] by (auto simp: spec_for_def root_of_def)

lemma spec_for_cong:
  "root_of m' = root_of m \<Longrightarrow> os m' = os m \<Longrightarrow> vars m' = vars m \<Longrightarrow> spec_for D m' u ds = spec_for D m u ds"
  by (simp add: spec_for_def)

lemma spec_for_os:
  assumes "spec_for D m u ds" "root_of m' = root_of m" "vars m' = vars m"
    and "\<And>spec. spec_at (libC D) (root_of m) (os m) u spec \<Longrightarrow> spec_at (libC D) (root_of m) (os m') u spec"
  shows "spec_for D m' u ds"
  using assms by (auto simp: spec_for_def)

lemma unmount_frame:
  assumes "cdi_library (libC D)" "wf_machine m" "claims_have_specs D m" "recorded (libK D) (store m) u \<noteq> None"
  shows "same_os (os m) (os (unprepareDevices D u m)) \<and> vars (unprepareDevices D u m) = vars m \<and>
    (spec_for D m u' ds \<longrightarrow> spec_for D (unprepareDevices D u m) u' ds)"
proof -
  obtain spec where sp: "ReadSpec (libC D) (ds_CDI (dstate m)) (os m) u = Inr spec" "own_mounts (vars m) spec"
    using assms(2-4) spec_for_own [OF assms(1)] unfolding claims_have_specs_def wf_machine_def by blast
  then have m': "os (unprepareDevices D u m) = DeleteConfigFile spec (os m)"
    by (simp add: unprepareDevices_def)
  have so: "same_os (os m) (os (unprepareDevices D u m))" using DeleteConfigFile_frame by (simp add: m')
  have "spec_for D (unprepareDevices D u m) u' ds" if s: "spec_for D m u' ds"
  proof (rule spec_for_os [OF s])
    fix spec' assume at: "spec_at (libC D) (root_of m) (os m) u' spec'"
    show "spec_at (libC D) (root_of m) (os (unprepareDevices D u m)) u' spec'"
    proof (rule cdi_library.spec_at_same [OF assms(1) at so])
      fix q assume "prefix q (comps (yaml (libC D) (root_of m) u'))"
      then have q: "prefix q (comps (root_of m) @ [spec_name (libC D) u' @ ''.yaml''])"
        using s assms(2) by (simp add: cdi_library.comps_yaml [OF assms(1)] spec_for_def wf_machine_def)
      have "\<not> prefix (comps (mnt_HostPath mt)) q" if mt: "mt \<in> set (ce_Mounts (spec_ContainerEdits spec))" for mt
      proof -
        obtain X n where X: "X = configHostPath (vars m) \<or> X = metricsHostPath (vars m)" "comps (mnt_HostPath mt) = comps X @ [n]"
          using assms(2) by (auto simp: wf_machine_def intro: own_mounts_comps [OF sp(2) _ _ mt])
        have "apart (comps (root_of m)) (comps X)" using X(1) assms(2) by (auto simp: wf_machine_def)
        from apart_not_child [OF this q] show ?thesis by (simp add: X(2))
      qed
      then show "lookup (os (unprepareDevices D u m)) q = lookup (os m) q"
        using DeleteConfigFile_frame [of "os m" spec q] by (simp add: m')
    qed
  qed (simp_all add: root_of_def)
  with so show ?thesis by simp
qed

lemma stored_distinct: "checkpoint_store (libK D) \<Longrightarrow> stored D m cp cs \<Longrightarrow> distinct (map fst cs)"
  by (drule checkpoint_store.get_proper [where K = "libK D"]) (auto simp: stored_def proper_ckpt_iff)

lemma step_invariant:
  assumes "cdi_library (libC D)" "checkpoint_store (libK D)"
    and "claim_step D m m'" "wf_machine m" "claims_have_specs D m"
  shows "wf_machine m' \<and> claims_have_specs D m' \<and> root_of m' = root_of m \<and> vars m' = vars m"
  using assms(3)
proof (cases rule: claim_step.cases)
  case (write_spec u ds e h w)
  have root: "cdi_root (ds_CDI (dstate m)) = root_of m" by (simp add: root_of_def)
  note wf = assms(4) [unfolded wf_machine_def]
  have f: "only_writes (below (comps (configHostPath (vars m))) \<union> {comps (yaml (libC D) (root_of m) u)}) (os m) w"
    "cdi_root h = root_of m"
    using cdi_library.CreateClaimSpecFile_frame [OF assms(1) write_spec(4)] write_spec(2) wf by (simp_all add: root)
  then have so: "same_os (os m) (os m')" "root_of m' = root_of m" "vars m' = vars m" "store m' = store m"
    using write_spec(1) by (simp_all add: only_writes_def root_of_def)
  have "spec_for D m' u' (Some d)" if r: "recorded (libK D) (store m) u' = Some d" for u' d
  proof (rule spec_for_os [OF _ so(2,3)])
    show s: "spec_for D m u' (Some d)" using assms(5) r by (simp add: claims_have_specs_def)
    fix spec assume "spec_at (libC D) (root_of m) (os m) u' spec"
    moreover have "u' \<noteq> u" "plain_name u'" using r write_spec(3) s by (auto simp: spec_for_def)
    ultimately show "spec_at (libC D) (root_of m) (os m') u' spec"
      using cdi_library.spec_at_create [OF assms(1) _ _ _ write_spec(4)] write_spec(1,2) wf by (simp add: root)
  qed
  then show ?thesis using so wf_machine_same [OF assms(4) so(1-3)] by (simp add: claims_have_specs_def)
next
  case (record_claim u ds cp cs e s)
  have d: "distinct (map fst cs)"
    by (rule stored_distinct [OF assms(2) record_claim(3)])
  have old: "recorded (libK D) (store m) u' = claim_entry (Some cs) u'" for u'
    using record_claim(3) by (simp add: stored_def recorded_def)
  have "spec_for D m u' (Some x)" if "recorded (libK D) s u' = Some x" for u' x
  proof (cases e)
    case None
    have "recorded (libK D) s u' = (if u' = u then ds else claim_entry (Some cs) u')"
      using checkpoint_store.recorded_create [OF assms(2)] record_claim(4) d None by simp
    with that have "u' = u \<and> ds = Some x \<or> recorded (libK D) (store m) u' = Some x" by (simp add: old split: if_splits)
    then show ?thesis using record_claim(2) assms(5) by (auto simp: claims_have_specs_def)
  next
    case (Some e')
    then show ?thesis
      using checkpoint_store.recorded_fail [OF assms(2)] record_claim(4) that assms(5) by (auto simp: claims_have_specs_def)
  qed
  moreover have "spec_for D m' = spec_for D m" using record_claim(1) by (simp add: fun_eq_iff spec_for_def root_of_def)
  ultimately show ?thesis
    using record_claim(1) wf_machine_same [OF assms(4), of m'] by (simp add: claims_have_specs_def root_of_def)
next
  case (unmount u)
  note f = unmount_frame [OF assms(1,4,5) unmount(2)]
  have "root_of m' = root_of m" "store m' = store m" by (simp_all add: unmount(1) root_of_def)
  with f assms(5) wf_machine_same [OF assms(4), of m'] show ?thesis
    by (simp add: claims_have_specs_def unmount(1))
next
  case (forget cp cs u e s)
  have d: "distinct (map fst cs)"
    by (rule stored_distinct [OF assms(2) forget(2)])
  have old: "recorded (libK D) (store m) u' = claim_entry (Some cs) u'" for u'
    using forget(2) by (simp add: stored_def recorded_def)
  have "spec_for D m u' (Some x)" if "recorded (libK D) s u' = Some x" for u' x
  proof (cases e)
    case None
    have "recorded (libK D) s u' = (if u' = u then None else claim_entry (Some cs) u')"
      using checkpoint_store.recorded_create [OF assms(2)] forget(3) d None by simp
    with that have "recorded (libK D) (store m) u' = Some x" by (simp add: old split: if_splits)
    then show ?thesis using assms(5) by (simp add: claims_have_specs_def)
  next
    case (Some e')
    then show ?thesis
      using checkpoint_store.recorded_fail [OF assms(2)] forget(3) that assms(5) by (auto simp: claims_have_specs_def)
  qed
  moreover have "spec_for D m' = spec_for D m" using forget(1) by (simp add: fun_eq_iff spec_for_def root_of_def)
  ultimately show ?thesis
    using forget(1) wf_machine_same [OF assms(4), of m'] by (simp add: claims_have_specs_def root_of_def)
next
  case (remove_spec u e w)
  have root: "cdi_root (ds_CDI (dstate m)) = root_of m" by (simp add: root_of_def)
  note wf = assms(4) [unfolded wf_machine_def]
  have so: "same_os (os m) (os m')" "root_of m' = root_of m" "vars m' = vars m" "store m' = store m"
    using cdi_library.remove_frame [OF assms(1), of "root_of m" "spec_name (libC D) u" "os m" e w] wf remove_spec
      cdi_library.name_plain [OF assms(1) remove_spec(2)]
    by (simp_all add: root_of_def DeleteClaimSpec_def)
  have "spec_for D m' u' (Some d)" if r: "recorded (libK D) (store m) u' = Some d" for u' d
  proof (rule spec_for_os [OF _ so(2,3)])
    show s: "spec_for D m u' (Some d)" using assms(5) r by (simp add: claims_have_specs_def)
    fix spec assume "spec_at (libC D) (root_of m) (os m) u' spec"
    moreover have "u' \<noteq> u" "plain_name u'" using r remove_spec(3) s by (auto simp: spec_for_def)
    ultimately show "spec_at (libC D) (root_of m) (os m') u' spec"
      using cdi_library.spec_at_remove [OF assms(1) _ _ _ remove_spec(2) _ remove_spec(4)] remove_spec(1) wf by (simp add: root)
  qed
  then show ?thesis using so wf_machine_same [OF assms(4) so(1-3)] by (simp add: claims_have_specs_def)
next
  case (crash s)
  have "root_of m' = root_of m" "spec_for D m' = spec_for D m"
    using crash by (simp_all add: fun_eq_iff spec_for_def root_of_def)
  then show ?thesis using crash(1) assms(5) wf_machine_same [OF assms(4), of m'] by (simp add: claims_have_specs_def)
qed

lemma steps_invariant:
  assumes "claim_steps D m m'" "cdi_library (libC D)" "checkpoint_store (libK D)" "wf_machine m" "claims_have_specs D m"
  shows "wf_machine m' \<and> claims_have_specs D m' \<and> root_of m' = root_of m \<and> vars m' = vars m"
  using assms
proof (induction rule: claim_steps.induct)
  case (steps_step m m' m'')
  then show ?case using step_invariant [of D m' m''] by auto
qed simp

section \<open>The methods are sequences of steps\<close>

lemma comps_child: "X \<noteq> [] \<Longrightarrow> plain_name n \<Longrightarrow> comps (Join [X, n]) = comps X @ [n]"
  by (rule comps_Join)

lemma create_spec_for:
  assumes "cdi_library (libC D)" "wf_machine m" "plain_name u"
    and "CreateClaimSpecFile (libC D) (vars m) (ds_CDI (dstate m)) (os m) u ds = (None, h, w)"
  shows "spec_for D (m\<lparr>dstate := (dstate m)\<lparr>ds_CDI := h\<rparr>, os := w\<rparr>) u ds"
proof -
  note wf = assms(2) [unfolded wf_machine_def root_of_def]
  obtain mnts ch w1 ver where m: "GetConfigMetricsMount (vars m) (configHandler (ds_CDI (dstate m))) (os m) (config_product ds) (GetDeviceIDs ds) = ((mnts, None), ch, w1)"
    and h: "h = (ds_CDI (dstate m))\<lparr>configHandler := ch\<rparr>"
    and ws: "WriteSpec (libC D) (cdi_root (ds_CDI (dstate m))) ((claim_spec w1 ds mnts)\<lparr>spec_Version := ver\<rparr>) (spec_name (libC D) u) w1 = (None, w)"
    by (rule CreateClaimSpecFile_ok [OF assms(4)])
  let ?spec = "(claim_spec w1 ds mnts)\<lparr>spec_Version := ver\<rparr>"
  have "no_faults w1" using no_faults_same [OF GetConfigMetricsMount_same_os [OF m]] wf by simp
  then have at: "spec_at (libC D) (cdi_root h) w u ?spec"
    using cdi_library.write_ok [OF assms(1) _ cdi_library.name_plain [OF assms(1,3)] _ ws] wf
    by (simp add: spec_at_def yaml_def h)
  have "own_mounts (vars m) ?spec"
  proof -
    obtain d wa where d: "CreateNewConfigFolder (os m) (configHostPath (vars m)) = (Inr d, wa)"
      and mn: "mnts = [\<lparr>mnt_HostPath = d, mnt_ContainerPath = configContainerPath (vars m), mnt_Options = readOnlyMntOpts\<rparr>,
            \<lparr>mnt_HostPath = Join [metricsHostPath (vars m), GetUuidFromPath d], mnt_ContainerPath = metricsContainerPath (vars m),
             mnt_Options = readWriteMntOpts\<rparr>]"
      using GetConfigMetricsMount_ok [OF m] by blast
    obtain k where k: "d = Join [configHostPath (vars m), uuid_src (os m) (uuid_next (os m) + k)]"
      using new_folder_loop_ok [of uuidGenerateMaxRetry None "os m" "configHostPath (vars m)" "Inr d" wa] d
      by (auto simp: CreateNewConfigFolder_def)
    have u: "GetUuidFromPath d = uuid_src (os m) (uuid_next (os m) + k)"
      using wf unfolding GetUuidFromPath_def k by (simp add: Base_Join plain_name_def)
    then show ?thesis using wf by (auto simp: own_mounts_def claim_spec_devices mn u k)
  qed
  moreover have "map cd_Name (spec_Devices ?spec) = device_names ds"
    by (simp add: claim_spec_devices device_names_def)
  ultimately show ?thesis using at assms(3) by (auto simp: spec_for_def root_of_def)
qed

lemma Prepare_steps:
  assumes "cdi_library (libC D)" "wf_machine m" "plain_name (claim_UID c)" "Prepare D c m = (r, m')"
  shows "claim_steps D m m'"
proof (cases "m' = m")
  case False
  let ?u = "claim_UID c"
  from assms(4) False obtain cp where cp: "GetCheckpoint (libK D) DriverPluginCheckpointFile newCheckpoint (store m) = Inr cp"
    by (auto simp: Prepare_def Let_def split: sum.splits)
  with assms(4) False obtain v1 where v1: "V1 cp = Some v1"
    by (auto simp: Prepare_def Let_def split: option.splits)
  with assms(4) False cp have e: "claim_entry (cp_PreparedClaims v1) ?u = None"
    by (cases "claim_entry (cp_PreparedClaims v1) ?u") (auto simp: Prepare_def Let_def)
  with assms(4) False cp v1 obtain ds where ds: "prepareDevices D (dstate m) c = Inr ds"
    by (cases "prepareDevices D (dstate m) c") (auto simp: Prepare_def Let_def)
  obtain er h w where w: "CreateClaimSpecFile (libC D) (vars m) (ds_CDI (dstate m)) (os m) ?u ds = (er, h, w)"
    by (metis prod.collapse)
  let ?m1 = "m\<lparr>dstate := (dstate m)\<lparr>ds_CDI := h\<rparr>, os := w\<rparr>"
  have rec: "recorded (libK D) (store m) ?u = None" by (simp add: recorded_def cp v1 e)
  have s1: "claim_step D m ?m1" by (rule claim_step.write_spec [OF assms(3) rec w])
  show ?thesis
  proof (cases "er = None \<and> cp_PreparedClaims v1 \<noteq> None")
    case True
    then obtain cs where cs: "cp_PreparedClaims v1 = Some cs" by blast
    have "v1 = \<lparr>cp_PreparedClaims = Some cs\<rparr>" using cs by (cases v1) simp
    then have st: "stored D ?m1 cp cs" by (simp add: stored_def cp v1)
    obtain r2 s' where s': "CreateCheckpoint (libK D) DriverPluginCheckpointFile (with_claims cp (obj_set cs ?u ds)) (store m) = (r2, s')"
      by fastforce
    have "spec_for D ?m1 ?u ds" using create_spec_for [OF assms(1-3)] w True by simp
    then have "claim_step D ?m1 (?m1\<lparr>store := s'\<rparr>)"
      using st s' by (intro claim_step.record_claim [of D ?m1 ?u ds cp cs r2]) simp_all
    moreover have "m' = ?m1\<lparr>store := s'\<rparr>"
      using assms(4) cp v1 e ds w True cs s' by (simp add: Prepare_def Let_def split: option.splits)
    ultimately show ?thesis using steps_two [OF s1] by simp
  next
    case False
    then have "m' = ?m1"
      using assms(4) cp v1 e ds w by (simp add: Prepare_def Let_def split: option.splits)
    then show ?thesis using steps_one [OF s1] by simp
  qed
qed auto

lemma Unprepare_steps:
  assumes "checkpoint_store (libK D)" "plain_name u" "Unprepare D u m = (r, m')"
  shows "claim_steps D m m'"
proof (cases "m' = m")
  case False
  from assms(3) False obtain cp where cp: "GetCheckpoint (libK D) DriverPluginCheckpointFile newCheckpoint (store m) = Inr cp"
    by (auto simp: Unprepare_def Let_def split: sum.splits)
  with assms(3) False obtain v1 where v1: "V1 cp = Some v1"
    by (auto simp: Unprepare_def Let_def split: option.splits)
  with assms(3) False cp obtain cs where cs: "cp_PreparedClaims v1 = Some cs"
    by (auto simp: Unprepare_def Let_def split: option.splits)
  have v1': "v1 = \<lparr>cp_PreparedClaims = Some cs\<rparr>" using cs by (cases v1) simp
  with assms(3) False cp v1 have e: "claim_entry (Some cs) u \<noteq> None"
    by (auto simp: Unprepare_def Let_def split: if_splits)
  let ?m1 = "unprepareDevices D u m"
  have s1: "claim_step D m ?m1"
    by (rule claim_step.unmount) (use e in \<open>simp add: recorded_def cp v1 v1'\<close>)
  have st: "stored D ?m1 cp cs" by (simp add: stored_def cp v1 v1')
  obtain r2 s' where s': "CreateCheckpoint (libK D) DriverPluginCheckpointFile (with_claims cp (obj_del cs u)) (store m) = (r2, s')"
    by fastforce
  have s2: "claim_step D ?m1 (?m1\<lparr>store := s'\<rparr>)"
    using st s' by (intro claim_step.forget [of D ?m1 cp cs u r2]) simp_all
  show ?thesis
  proof (cases r2)
    case (Some e2)
    then have "m' = ?m1\<lparr>store := s'\<rparr>"
      using assms(3) cp v1 cs e s' by (auto simp: Unprepare_def Let_def)
    then show ?thesis using steps_two [OF s1 s2] by simp
  next
    case None
    obtain r3 w where w: "DeleteClaimSpec (libC D) (ds_CDI (dstate m)) (os ?m1) u = (r3, w)" by fastforce
    have "recorded (libK D) s' u = None"
      using checkpoint_store.recorded_create [OF assms(1)] s' None stored_distinct [OF assms(1) st] by simp
    then have s3: "claim_step D (?m1\<lparr>store := s'\<rparr>) (?m1\<lparr>store := s', os := w\<rparr>)"
      using claim_step.remove_spec [OF assms(2), of D "?m1\<lparr>store := s'\<rparr>" r3 w] w by simp
    have "m' = ?m1\<lparr>store := s', os := w\<rparr>"
      using assms(3) cp v1 cs e s' None w by (auto simp: Unprepare_def Let_def split: option.splits)
    then show ?thesis using steps_step [OF steps_two [OF s1 s2] s3] by simp
  qed
qed auto

section \<open>Records of other claims\<close>

lemma Prepare_error_store:
  assumes "Prepare D c m = (Inl e, m')"
  shows "store m' = store m \<or> (\<exists>cp e2. CreateCheckpoint (libK D) DriverPluginCheckpointFile cp (store m) = (Some e2, store m'))"
  using assms
  by (auto simp: Prepare_def Let_def split: sum.splits option.splits prod.splits)

lemma Unprepare_error_store:
  assumes "Unprepare D u m = (Some e, m')"
  shows "store m' = store m \<or> (\<exists>cp cs r. stored D m cp cs \<and>
     CreateCheckpoint (libK D) DriverPluginCheckpointFile (with_claims cp (obj_del cs u)) (store m) = (r, store m'))"
proof (cases "store m' = store m")
  case False
  from assms False obtain cp where cp: "GetCheckpoint (libK D) DriverPluginCheckpointFile newCheckpoint (store m) = Inr cp"
    by (auto simp: Unprepare_def Let_def split: sum.splits)
  with assms False obtain v1 where v1: "V1 cp = Some v1"
    by (auto simp: Unprepare_def Let_def split: option.splits)
  with assms False cp obtain cs where cs: "cp_PreparedClaims v1 = Some cs"
    by (auto simp: Unprepare_def Let_def split: option.splits)
  have v1': "v1 = \<lparr>cp_PreparedClaims = Some cs\<rparr>" using cs by (cases v1) simp
  obtain r s' where s': "CreateCheckpoint (libK D) DriverPluginCheckpointFile (with_claims cp (obj_del cs u)) (store m) = (r, s')"
    by fastforce
  have "store m' = s'"
    using assms False cp v1 cs s' by (auto simp: Unprepare_def Let_def split: if_splits option.splits prod.splits)
  then show ?thesis using s' cp v1 v1' by (auto simp: stored_def)
qed simp

lemma Prepare_records:
  assumes "checkpoint_store (libK D)" "Prepare D c m = (r, m')"
  shows "(u \<noteq> claim_UID c \<or> is_err r \<longrightarrow> recorded (libK D) (store m') u = recorded (libK D) (store m) u)"
proof (cases r)
  case (Inl e)
  with Prepare_error_store [of D c m e m'] assms(2) show ?thesis
    using checkpoint_store.recorded_fail [OF assms(1)] by auto
next
  case (Inr out)
  with assms(2) have p: "Prepare D c m = (Inr out, m')" by simp
  then show ?thesis
  proof (cases rule: Prepare_cases)
    case (fresh cp cs ds h w s')
    have st: "stored D m cp cs" using fresh(2,3) by (simp add: stored_def)
    have "recorded (libK D) (store m) u = claim_entry (Some cs) u" using fresh(2,3) by (simp add: recorded_def)
    then show ?thesis
      using checkpoint_store.recorded_create [OF assms(1) fresh(6)] stored_distinct [OF assms(1) st] Inr fresh(8) by simp
  qed (simp add: Inr)
qed

lemma Unprepare_absent: "recorded (libK D) (store m) u = None \<Longrightarrow> snd (Unprepare D u m) = m"
  by (auto simp: Unprepare_def recorded_def Let_def split: sum.splits option.splits)

lemma Unprepare_records:
  assumes "checkpoint_store (libK D)" "Unprepare D u m = (r, m')"
  shows "(u' \<noteq> u \<longrightarrow> recorded (libK D) (store m') u' = recorded (libK D) (store m) u') \<and>
    recorded (libK D) (store m') u' \<in> {recorded (libK D) (store m) u', None} \<and>
    (r = None \<longrightarrow> recorded (libK D) (store m') u = None)"
proof -
  have del: "(u' \<noteq> u \<longrightarrow> recorded (libK D) s' u' = recorded (libK D) (store m) u') \<and>
      recorded (libK D) s' u' \<in> {recorded (libK D) (store m) u', None} \<and> (e = None \<longrightarrow> recorded (libK D) s' u = None)"
    if "stored D m cp cs"
      and "CreateCheckpoint (libK D) DriverPluginCheckpointFile (with_claims cp (obj_del cs u)) (store m) = (e, s')" for cp cs e s'
  proof (cases e)
    case None
    have "recorded (libK D) (store m) u' = claim_entry (Some cs) u'" using that(1) by (simp add: stored_def recorded_def)
    with None that(2) show ?thesis
      using checkpoint_store.recorded_create [OF assms(1)] stored_distinct [OF assms(1) that(1)] by simp
  next
    case (Some e')
    with that(2) show ?thesis using checkpoint_store.recorded_fail [OF assms(1)] by simp
  qed
  show ?thesis
  proof (cases r)
    case (Some e)
    with assms(2) have "Unprepare D u m = (Some e, m')" by simp
    from Unprepare_error_store [OF this] show ?thesis using del Some by (elim disjE exE conjE) (simp, blast)
  next
    case None
    with assms(2) have "Unprepare D u m = (None, m')" by simp
    then show ?thesis
    proof (cases rule: Unprepare_cases)
      case (removed cp cs ds s' w)
      have "stored D m cp cs" using removed(2,3) by (simp add: stored_def)
      from del [OF this removed(4)] show ?thesis by (simp add: removed(6))
    qed simp
  qed
qed

section \<open>Preparing and unpreparing leaves no trace\<close>

definition vars_current :: "'s machine \<Rightarrow> bool" where
  "vars_current m \<longleftrightarrow> configContainerPath (vars m) = GetConfigContainerPath (os m) \<and>
     metricsContainerPath (vars m) = GetMetricsContainerPath (os m)"

lemma IsHostMountedFile_same: "same_os w w' \<Longrightarrow> IsHostMountedFile w' p = IsHostMountedFile w p"
  by (simp add: IsHostMountedFile_def GetConfigContainerPath_def GetMetricsContainerPath_def GetEnvOrDefault_def Getenv_def same_osD)

lemma delete_lookup:
  assumes "no_faults w" "comps p \<noteq> []"
  shows "q \<noteq> [''/''] \<Longrightarrow> lookup (deleteMountedPath p w) q = (if prefix (comps p) q then None else lookup w q)"
  using assms by (auto simp: lookup_deleteMountedPath stuck_def list_ex_iff no_faultsD)

text \<open>What one claim owns on the disk.\<close>

definition claim_paths :: "cdi_lib \<Rightarrow> 's machine \<Rightarrow> string \<Rightarrow> string \<Rightarrow> path set" where
  "claim_paths L m uuid u =
     {q. prefix (comps (configHostPath (vars m)) @ [uuid]) q \<or> prefix (comps (metricsHostPath (vars m)) @ [uuid]) q \<or>
         q = comps (yaml L (root_of m) u)}"

lemma prepared_disk:
  assumes "cdi_library (libC D)" "wf_machine m" "vars_current m" "plain_name u"
    and "CreateClaimSpecFile (libC D) (vars m) (ds_CDI (dstate m)) (os m) u ds = (None, h, w)"
  obtains k spec dc dm where "k < 10" "spec_at (libC D) (root_of m) w u spec" "cdi_root h = root_of m"
    "only_writes (claim_paths (libC D) m (uuid_src (os m) (uuid_next (os m) + k)) u) (os m) w"
    "ce_Mounts (spec_ContainerEdits spec) =
       [\<lparr>mnt_HostPath = dc, mnt_ContainerPath = configContainerPath (vars m), mnt_Options = readOnlyMntOpts\<rparr>,
        \<lparr>mnt_HostPath = dm, mnt_ContainerPath = metricsContainerPath (vars m), mnt_Options = readWriteMntOpts\<rparr>]"
    "comps dc = comps (configHostPath (vars m)) @ [uuid_src (os m) (uuid_next (os m) + k)]"
    "comps dm = comps (metricsHostPath (vars m)) @ [uuid_src (os m) (uuid_next (os m) + k)]"
proof -
  note wf = assms(2) [unfolded wf_machine_def]
  have root: "cdi_root (ds_CDI (dstate m)) = root_of m" by (simp add: root_of_def)
  obtain mnts ch w1 ver where m: "GetConfigMetricsMount (vars m) (configHandler (ds_CDI (dstate m))) (os m) (config_product ds) (GetDeviceIDs ds) = ((mnts, None), ch, w1)"
    and h: "h = (ds_CDI (dstate m))\<lparr>configHandler := ch\<rparr>"
    and ws: "WriteSpec (libC D) (root_of m) ((claim_spec w1 ds mnts)\<lparr>spec_Version := ver\<rparr>) (spec_name (libC D) u) w1 = (None, w)"
    by (rule CreateClaimSpecFile_ok [OF assms(5), unfolded root])
  let ?spec = "(claim_spec w1 ds mnts)\<lparr>spec_Version := ver\<rparr>"
  have "no_faults w1" using no_faults_same [OF GetConfigMetricsMount_same_os [OF m]] wf by simp
  then have at: "spec_at (libC D) (root_of m) w u ?spec"
    using cdi_library.write_ok [OF assms(1) _ cdi_library.name_plain [OF assms(1,4)] _ ws] wf
    by (simp add: spec_at_def yaml_def)
  obtain d wa wb content where st: "CreateNewConfigFolder (os m) (configHostPath (vars m)) = (Inr d, wa)"
    "only_writes {comps (d @ ''/topo.json'')} wa wb"
    "mnts = [\<lparr>mnt_HostPath = d, mnt_ContainerPath = configContainerPath (vars m), mnt_Options = readOnlyMntOpts\<rparr>,
            \<lparr>mnt_HostPath = Join [metricsHostPath (vars m), GetUuidFromPath d], mnt_ContainerPath = metricsContainerPath (vars m),
             mnt_Options = readWriteMntOpts\<rparr>]"
    "only_writes {comps (Join [d, GetConfigFileName (os m)])} wb w1"
    using GetConfigMetricsMount_ok [OF m] by blast
  obtain k where k: "k < 10" "d = Join [configHostPath (vars m), uuid_src (os m) (uuid_next (os m) + k)]" "grows (os m) wa"
    using new_folder_loop_ok [of uuidGenerateMaxRetry None "os m" "configHostPath (vars m)" "Inr d" wa] st(1)
    by (auto simp: CreateNewConfigFolder_def uuidGenerateMaxRetry_def)
  let ?u = "uuid_src (os m) (uuid_next (os m) + k)"
  have u: "GetUuidFromPath d = ?u"
    using wf unfolding GetUuidFromPath_def k by (simp add: Base_Join plain_name_def)
  have c: "comps d = comps (configHostPath (vars m)) @ [?u]"
    "comps (Join [metricsHostPath (vars m), GetUuidFromPath d]) = comps (metricsHostPath (vars m)) @ [?u]"
    using wf unfolding u by (simp_all add: k(2) comps_Join)
  have d: "d \<noteq> []" using c(1) by auto
  let ?P = "claim_paths (libC D) m ?u u"
  have inP: "comps (d @ ''/topo.json'') \<in> ?P" "comps (Join [d, GetConfigFileName (os m)]) \<in> ?P" "comps (yaml (libC D) (root_of m) u) \<in> ?P"
    using wf comps_slash [OF d, of "''topo.json''"] comps_Join [OF d, of "GetConfigFileName (os m)"]
    by (simp_all add: claim_paths_def c plain_name_def)
  have ye: "only_writes {comps (yaml (libC D) (root_of m) u)} w1 w"
    using cdi_library.write_frame [OF assms(1) _ cdi_library.name_plain [OF assms(1,4)] ws] wf assms(4)
    by (simp add: cdi_library.comps_yaml [OF assms(1)])
  have fa: "only_writes ?P wa wb" by (rule only_writes_mono [OF st(2)]) (use inP in blast)
  have fb: "only_writes ?P wb w1" by (rule only_writes_mono [OF st(4)]) (use inP in blast)
  have fc: "only_writes ?P w1 w" by (rule only_writes_mono [OF ye]) (use inP in blast)
  have fr: "only_writes ?P (os m) w"
    by (rule only_writes_comp [OF grows_only_writes [OF k(3)] only_writes_comp [OF fa only_writes_comp [OF fb fc]]])
  show ?thesis
    by (rule that [OF k(1) at _ fr _ c(1)]) (use st(3) c(2) in \<open>simp_all add: h root claim_spec_devices\<close>)
qed

lemma unprepare_disk:
  assumes "cdi_library (libC D)" "no_faults w" "r \<noteq> []" "plain_name u" "cdi_root h = r"
    and "spec_at (libC D) r w u spec"
    and "ce_Mounts (spec_ContainerEdits spec) =
       [\<lparr>mnt_HostPath = dc, mnt_ContainerPath = GetConfigContainerPath w, mnt_Options = o1\<rparr>,
        \<lparr>mnt_HostPath = dm, mnt_ContainerPath = GetMetricsContainerPath w, mnt_Options = o2\<rparr>]"
    and "comps dc \<noteq> []" "comps dm \<noteq> []"
    and "DeleteClaimSpec (libC D) h (DeleteConfigFile spec w) u = (None, w')" "q \<noteq> [''/'']"
  shows "(prefix (comps dc) q \<or> prefix (comps dm) q \<longrightarrow> prefix (comps (yaml (libC D) r u)) q \<or> lookup w' q = None) \<and>
    (q = comps (yaml (libC D) r u) \<longrightarrow> lookup w' q = None) \<and>
    (\<not> prefix (comps dc) q \<and> \<not> prefix (comps dm) q \<and> \<not> prefix (comps (yaml (libC D) r u)) q \<longrightarrow> lookup w' q = lookup w q)"
proof -
  let ?w1 = "deleteMountedPath dc w"
  let ?w2 = "deleteMountedPath dm ?w1"
  have nf: "no_faults ?w1" "no_faults ?w2"
    using assms(2) no_faults_same [of w ?w1] no_faults_same [of w ?w2] by simp_all
  have host: "IsHostMountedFile v (GetConfigContainerPath w)" "IsHostMountedFile v (GetMetricsContainerPath w)" if "same_os w v" for v
    using IsHostMountedFile_same [OF that] by (simp_all add: IsHostMountedFile_def)
  have w2: "DeleteConfigFile spec w = ?w2"
    using host by (simp add: DeleteConfigFile_def assms(7))
  have look: "lookup ?w2 q = (if prefix (comps dc) q \<or> prefix (comps dm) q then None else lookup w q)"
    using delete_lookup [OF nf(1) assms(9,11)] delete_lookup [OF assms(2,8,11)] by simp
  have del: "RemoveSpec (libC D) r (spec_name (libC D) u) ?w2 = (None, w')"
    using assms(10) by (simp add: DeleteClaimSpec_def w2 assms(5))
  note pn = cdi_library.name_plain [OF assms(1,4)]
  have "lookup w' (comps (yaml (libC D) r u)) = None"
    using cdi_library.remove_ok [OF assms(1,3) pn nf(2) del] by (simp add: cdi_library.comps_yaml [OF assms(1,3,4)])
  moreover have "\<not> prefix (comps (yaml (libC D) r u)) q \<longrightarrow> lookup w' q = lookup ?w2 q"
    using cdi_library.remove_frame [OF assms(1,3) pn del] by (simp add: cdi_library.comps_yaml [OF assms(1,3,4)])
  ultimately show ?thesis using look by auto
qed

section \<open>Properties\<close>

text \<open>
  C7. A claim's life touches no other claim: whatever \<open>Prepare\<close> and \<open>Unprepare\<close> answer, the
  records of the other claims stay; a failed \<open>Prepare\<close> leaves the claim's own record as it was;
  after a successful \<open>Unprepare\<close> the claim is not recorded, and unpreparing it again changes
  nothing.
\<close>

theorem claims_isolated:
  assumes "checkpoint_store (libK D)" "Prepare D c m = (r, m1)" "Unprepare D u m = (r', m2)"
  shows "(\<forall>u'. u' \<noteq> claim_UID c \<or> is_err r \<longrightarrow> recorded (libK D) (store m1) u' = recorded (libK D) (store m) u') \<and>
    (\<forall>u'. u' \<noteq> u \<longrightarrow> recorded (libK D) (store m2) u' = recorded (libK D) (store m) u') \<and>
    (r' = None \<longrightarrow> recorded (libK D) (store m2) u = None \<and> snd (Unprepare D u m2) = m2)"
  using Prepare_records [OF assms(1,2)] Unprepare_records [OF assms(1,3)] Unprepare_absent [of D m2 u] by auto

lemma sample_store: "checkpoint_store (libK sample_deps)"
  using dir_store.checkpoint_store_axioms by (simp add: sample_deps_def)

lemma sample_cdi: "cdi_library (libC sample_deps)"
  using file_lib.cdi_library_axioms by (simp add: sample_deps_def)

lemma sample_unrecorded: "recorded (libK sample_deps) (store sample_machine) u = None"
proof -
  have "fst (CreateCheckpoint dir_lib DriverPluginCheckpointFile newCheckpoint \<lparr>entries = [], disk_full = False\<rparr>) = None"
    by code_simp
  then show ?thesis
    using dir_store.recorded_new [of "\<lparr>entries = [], disk_full = False\<rparr>" "store sample_machine" u]
    by (simp add: sample_deps_def sample_machine_def prod_eq_iff)
qed

lemma sample_wf: "wf_machine sample_machine"
proof -
  have "comps ''/r'' = [''/'', ''r'']" "comps ''/c'' = [''/'', ''c'']" "comps ''/m'' = [''/'', ''m'']" by code_simp+
  moreover have "plain_name (GetConfigFileName mount_world)" by code_simp
  moreover have "no_faults mount_world" by (simp add: no_faults_def mount_world_def)
  ultimately show ?thesis
    using mount_world_uuid
    by (simp add: wf_machine_def sample_machine_def root_of_def sample_handler_def mount_vars_def apart_def)
qed

theorem claims_isolated_witness:
  "recorded (libK sample_deps) (store (snd (Prepare sample_deps sample_claim sample_machine))) ''other'' = None"
  using claims_isolated [OF sample_store prod.collapse [symmetric] prod.collapse [symmetric],
      of sample_claim sample_machine "''c1''"] sample_unrecorded
  by (auto simp: sample_claim_def)

text \<open>
  C4. Both methods are sequences of the steps above, on every branch: the CDI spec is written
  before the claim is recorded, and a claim is forgotten before its spec is removed.
\<close>

theorem methods_refine_steps:
  assumes "cdi_library (libC D)" "checkpoint_store (libK D)" "wf_machine m" "plain_name (claim_UID c)"
  shows "claim_steps D m (snd (Prepare D c m)) \<and> claim_steps D m (snd (Unprepare D (claim_UID c) m))"
  using Prepare_steps [OF assms(1,3,4) prod.collapse [symmetric]] Unprepare_steps [OF assms(2,4) prod.collapse [symmetric]]
  by blast

theorem methods_refine_steps_witness:
  "claim_steps sample_deps sample_machine (snd (Prepare sample_deps sample_claim sample_machine))"
  using methods_refine_steps [OF sample_cdi sample_store sample_wf, of sample_claim]
  by (simp add: sample_claim_def plain_name_def)

text \<open>
  C1. In every state reached by such steps, crashes included, and after any call of \<open>Prepare\<close> or
  \<open>Unprepare\<close> there, however it ends, each recorded claim has a CDI spec that can be read and
  names exactly the recorded devices.
\<close>

theorem recorded_claims_have_specs:
  assumes "cdi_library (libC D)" "checkpoint_store (libK D)" "wf_machine m" "claims_have_specs D m"
    and "claim_steps D m m1" "plain_name (claim_UID c)" "m' \<in> {m1, snd (Prepare D c m1), snd (Unprepare D (claim_UID c) m1)}"
    and "recorded (libK D) (store m') u = Some ds"
  shows "\<exists>spec. ReadSpec (libC D) (ds_CDI (dstate m')) (os m') u = Inr spec \<and>
    map cd_Name (spec_Devices spec) = map (\<lambda>d. DeviceName (pd_Device d)) ds"
proof -
  have "wf_machine m1" using steps_invariant [OF assms(5,1-4)] by simp
  then have "claim_steps D m1 m'"
    using assms(7) Prepare_steps [OF assms(1) _ assms(6) prod.collapse [symmetric], of m1]
      Unprepare_steps [OF assms(2,6) prod.collapse [symmetric], of m1] by auto
  from steps_trans [OF assms(5) this] have "claims_have_specs D m'" using steps_invariant [OF _ assms(1-4)] by blast
  then have "spec_for D m' u (Some ds)" using assms(8) by (simp add: claims_have_specs_def)
  then show ?thesis
    using cdi_library.spec_at_ReadSpec [OF assms(1)] by (auto simp: spec_for_def root_of_def device_names_def)
qed

lemma sample_prepare_run:
  obtains out m1 where "Prepare sample_deps sample_claim sample_machine = (Inr out, m1)" "out \<noteq> []"
  using sample_prepare by (metis list.distinct(1) prod.collapse)

theorem recorded_claims_have_specs_witness:
  "\<exists>m1 ds spec. snd (Prepare sample_deps sample_claim sample_machine) = m1 \<and>
     recorded (libK sample_deps) (store m1) ''c1'' = Some ds \<and>
     ReadSpec (libC sample_deps) (ds_CDI (dstate m1)) (os m1) ''c1'' = Inr spec \<and>
     map cd_Name (spec_Devices spec) = map (\<lambda>d. DeviceName (pd_Device d)) ds"
proof -
  let ?m1 = "snd (Prepare sample_deps sample_claim sample_machine)"
  have "recorded (libK sample_deps) (store ?m1) ''c1'' \<noteq> None" by code_simp
  then obtain ds where ds: "recorded (libK sample_deps) (store ?m1) ''c1'' = Some ds" by blast
  have inv: "claims_have_specs sample_deps sample_machine" by (simp add: claims_have_specs_def sample_unrecorded)
  have pl: "plain_name (claim_UID sample_claim)" by (simp add: sample_claim_def plain_name_def)
  from recorded_claims_have_specs [OF sample_cdi sample_store sample_wf inv steps_refl pl, of ?m1, OF _ ds] ds show ?thesis by blast
qed

text \<open>The disk after a claim was prepared afresh and unprepared.\<close>

lemma prepare_unprepare_disk:
  assumes "cdi_library (libC D)" "checkpoint_store (libK D)" "wf_machine m" "vars_current m" "plain_name (claim_UID c)"
    and "recorded (libK D) (store m) (claim_UID c) = None"
    and "Prepare D c m = (Inr out, m1)" "out \<noteq> []" "Unprepare D (claim_UID c) m1 = (None, m2)"
  obtains k w where "k < 10"
    "only_writes (claim_paths (libC D) m (uuid_src (os m) (uuid_next (os m) + k)) (claim_UID c)) (os m) w"
    "\<And>q. q \<noteq> [''/''] \<Longrightarrow>
      let own = prefix (comps (configHostPath (vars m)) @ [uuid_src (os m) (uuid_next (os m) + k)]) q \<or>
            prefix (comps (metricsHostPath (vars m)) @ [uuid_src (os m) (uuid_next (os m) + k)]) q;
          spec = comps (root_of m) @ [spec_name (libC D) (claim_UID c) @ ''.yaml'']
      in (own \<longrightarrow> prefix spec q \<or> lookup (os m2) q = None) \<and> (q = spec \<longrightarrow> lookup (os m2) q = None) \<and>
         (\<not> own \<and> \<not> prefix spec q \<longrightarrow> lookup (os m2) q = lookup w q)"
  using assms(7)
proof (cases rule: Prepare_cases)
  case (fresh cp cs ds h w s')
  let ?u = "claim_UID c"
  note wf = assms(3) [unfolded wf_machine_def]
  obtain k spec dc dm where k: "k < 10" and at: "spec_at (libC D) (root_of m) w ?u spec" and h: "cdi_root h = root_of m"
    and fr: "only_writes (claim_paths (libC D) m (uuid_src (os m) (uuid_next (os m) + k)) ?u) (os m) w"
    and mn: "ce_Mounts (spec_ContainerEdits spec) =
       [\<lparr>mnt_HostPath = dc, mnt_ContainerPath = configContainerPath (vars m), mnt_Options = readOnlyMntOpts\<rparr>,
        \<lparr>mnt_HostPath = dm, mnt_ContainerPath = metricsContainerPath (vars m), mnt_Options = readWriteMntOpts\<rparr>]"
    and dc: "comps dc = comps (configHostPath (vars m)) @ [uuid_src (os m) (uuid_next (os m) + k)]"
    and dm: "comps dm = comps (metricsHostPath (vars m)) @ [uuid_src (os m) (uuid_next (os m) + k)]"
    by (rule prepared_disk [OF assms(1,3,4,5) fresh(5)])
  let ?uuid = "uuid_src (os m) (uuid_next (os m) + k)"
  have so: "same_os (os m) w" using fr by (simp add: only_writes_def)
  then have cp: "GetConfigContainerPath w = configContainerPath (vars m)" "GetMetricsContainerPath w = metricsContainerPath (vars m)"
    using assms(4) by (simp_all add: vars_current_def GetConfigContainerPath_def GetMetricsContainerPath_def GetEnvOrDefault_def Getenv_def same_osD)
  have nf: "no_faults w" using no_faults_same [OF so] wf by simp
  have yc: "comps (yaml (libC D) (root_of m) ?u) = comps (root_of m) @ [spec_name (libC D) ?u @ ''.yaml'']"
    using wf assms(5) by (simp add: cdi_library.comps_yaml [OF assms(1)])
  have st: "stored D m cp cs" using fresh(2,3) by (simp add: stored_def)
  have "recorded (libK D) (store m1) ?u = ds"
    using checkpoint_store.recorded_create [OF assms(2) fresh(6)] stored_distinct [OF assms(2) st] fresh(8) by simp
  moreover have "ds \<noteq> None" using fresh(7) assms(8) by (cases ds) (simp_all add: GetPreparedDevices_def)
  ultimately have rec: "recorded (libK D) (store m1) ?u \<noteq> None" by simp
  have rd: "ReadSpec (libC D) (ds_CDI (dstate m1)) (os m1) ?u = Inr spec"
    using cdi_library.spec_at_ReadSpec [OF assms(1)] at h fresh(8) by simp
  have del: "DeleteClaimSpec (libC D) h (DeleteConfigFile spec w) ?u = (None, os m2)"
    using assms(9)
  proof (cases rule: Unprepare_cases)
    case (removed cp' cs' ds' s'' w')
    then show ?thesis using rd fresh(8) by (simp add: unprepareDevices_def)
  qed (use rec in simp)
  have mn': "ce_Mounts (spec_ContainerEdits spec) =
       [\<lparr>mnt_HostPath = dc, mnt_ContainerPath = GetConfigContainerPath w, mnt_Options = readOnlyMntOpts\<rparr>,
        \<lparr>mnt_HostPath = dm, mnt_ContainerPath = GetMetricsContainerPath w, mnt_Options = readWriteMntOpts\<rparr>]"
    by (simp add: mn cp)
  have un: "(prefix (comps dc) q \<or> prefix (comps dm) q \<longrightarrow> prefix (comps (yaml (libC D) (root_of m) ?u)) q \<or> lookup (os m2) q = None) \<and>
    (q = comps (yaml (libC D) (root_of m) ?u) \<longrightarrow> lookup (os m2) q = None) \<and>
    (\<not> prefix (comps dc) q \<and> \<not> prefix (comps dm) q \<and> \<not> prefix (comps (yaml (libC D) (root_of m) ?u)) q \<longrightarrow> lookup (os m2) q = lookup w q)"
    if "q \<noteq> [''/'']" for q
    using unprepare_disk [OF assms(1) nf _ assms(5) h at mn' _ _ del that] wf dc dm by simp
  show thesis by (rule that [OF k fr]) (use un dc dm yc in \<open>simp add: Let_def\<close>)
qed (use assms(6) in simp)

text \<open>
  C6. Preparing a claim and unpreparing it again leaves no trace but directories: the claim's
  config folder, its metrics folder and its CDI spec are gone with all that is in them, and every
  other path of the disk is as it was or is a new directory.
\<close>

theorem prepare_unprepare_clean:
  assumes "cdi_library (libC D)" "checkpoint_store (libK D)" "wf_machine m" "vars_current m" "plain_name (claim_UID c)"
    and "recorded (libK D) (store m) (claim_UID c) = None"
    and "Prepare D c m = (Inr out, m1)" "out \<noteq> []" "Unprepare D (claim_UID c) m1 = (None, m2)"
  shows "\<exists>k < 10. let uuid = uuid_src (os m) (uuid_next (os m) + k);
      own = (\<lambda>q. prefix (comps (configHostPath (vars m)) @ [uuid]) q \<or> prefix (comps (metricsHostPath (vars m)) @ [uuid]) q);
      spec = comps (root_of m) @ [spec_name (libC D) (claim_UID c) @ ''.yaml'']
    in (\<forall>q. own q \<or> q = spec \<longrightarrow> lookup (os m2) q = None) \<and>
       (\<forall>q. \<not> own q \<and> \<not> prefix spec q \<longrightarrow>
          lookup (os m2) q = lookup (os m) q \<or> (lookup (os m) q = None \<and> lookup (os m2) q = Some Dir))"
proof -
  let ?u = "claim_UID c"
  note wf = assms(3) [unfolded wf_machine_def]
  obtain k w where k: "k < 10"
    and fr: "only_writes (claim_paths (libC D) m (uuid_src (os m) (uuid_next (os m) + k)) ?u) (os m) w"
    and un: "\<And>q. q \<noteq> [''/''] \<Longrightarrow>
      let own = prefix (comps (configHostPath (vars m)) @ [uuid_src (os m) (uuid_next (os m) + k)]) q \<or>
            prefix (comps (metricsHostPath (vars m)) @ [uuid_src (os m) (uuid_next (os m) + k)]) q;
          spec = comps (root_of m) @ [spec_name (libC D) ?u @ ''.yaml'']
      in (own \<longrightarrow> prefix spec q \<or> lookup (os m2) q = None) \<and> (q = spec \<longrightarrow> lookup (os m2) q = None) \<and>
         (\<not> own \<and> \<not> prefix spec q \<longrightarrow> lookup (os m2) q = lookup w q)"
    by (rule prepare_unprepare_disk [OF assms]) blast
  note un = un [unfolded Let_def]
  let ?uuid = "uuid_src (os m) (uuid_next (os m) + k)"
  have yc: "comps (yaml (libC D) (root_of m) ?u) = comps (root_of m) @ [spec_name (libC D) ?u @ ''.yaml'']"
    using wf assms(5) by (simp add: cdi_library.comps_yaml [OF assms(1)])
  have ap: "\<not> prefix (comps (root_of m) @ [x]) q" if "prefix (comps X @ [?uuid]) q" "X = configHostPath (vars m) \<or> X = metricsHostPath (vars m)" for X x q
    using prefix_snoc_apart [OF that(1), of "comps (root_of m)" x] that(2) wf by (auto simp: apart_def)
  have len: "comps (root_of m) \<noteq> []" "comps (configHostPath (vars m)) \<noteq> []" "comps (metricsHostPath (vars m)) \<noteq> []"
    using wf by (auto simp: apart_def)
  have root: "q \<noteq> [''/'']" if "prefix (p @ [x]) q" "p \<noteq> []" for p x q
    using that by (auto simp: prefix_def append_eq_Cons_conv)
  let ?own = "\<lambda>q. prefix (comps (configHostPath (vars m)) @ [?uuid]) q \<or> prefix (comps (metricsHostPath (vars m)) @ [?uuid]) q"
  let ?spec = "comps (root_of m) @ [spec_name (libC D) ?u @ ''.yaml'']"
  have gone: "lookup (os m2) q = None" if q: "?own q \<or> q = ?spec" for q
  proof -
    have "q \<noteq> [''/'']" using q root len by (metis append_is_Nil_conv butlast.simps(2) butlast_snoc)
    from un [OF this] q ap show ?thesis by auto
  qed
  have kept: "lookup (os m2) q = lookup (os m) q \<or> (lookup (os m) q = None \<and> lookup (os m2) q = Some Dir)"
    if q: "\<not> ?own q" "\<not> prefix ?spec q" for q
  proof (cases "q = [''/'']")
    case False
    have "q \<notin> claim_paths (libC D) m ?uuid ?u" using q yc by (auto simp: claim_paths_def)
    then show ?thesis using un [OF False] q fr unfolding only_writes_def by simp
  qed simp
  show ?thesis unfolding Let_def using k gone kept by blast
qed

theorem prepare_unprepare_clean_witness:
  "\<exists>m1 m2 out. Prepare sample_deps sample_claim sample_machine = (Inr out, m1) \<and>
     Unprepare sample_deps ''c1'' m1 = (None, m2) \<and>
     lookup (os m2) [''/'', ''r'', ''k8s.spyre.ibm.com-spyre_c1.yaml''] = None \<and>
     lookup (os m2) [''/'', ''t''] = lookup mount_world [''/'', ''t'']"
proof -
  obtain out m1 where p: "Prepare sample_deps sample_claim sample_machine = (Inr out, m1)" "out \<noteq> []"
    by (rule sample_prepare_run)
  have "fst (Unprepare sample_deps ''c1'' (snd (Prepare sample_deps sample_claim sample_machine))) = None" by code_simp
  then obtain m2 where u: "Unprepare sample_deps ''c1'' m1 = (None, m2)"
    unfolding p(1) by (metis prod.collapse snd_conv)
  have c: "comps ''/r'' = [''/'', ''r'']" "comps ''/c'' = [''/'', ''c'']" "comps ''/m'' = [''/'', ''m'']" by code_simp+
  have vc: "vars_current sample_machine" by code_simp
  have uid: "claim_UID sample_claim = ''c1''" "plain_name (claim_UID sample_claim)"
    by (simp_all add: sample_claim_def plain_name_def)
  have sn: "spec_name (libC sample_deps) ''c1'' @ ''.yaml'' = ''k8s.spyre.ibm.com-spyre_c1.yaml''" by code_simp
  have ms: "root_of sample_machine = ''/r''" "configHostPath (vars sample_machine) = ''/c''"
    "metricsHostPath (vars sample_machine) = ''/m''" "os sample_machine = mount_world"
    by (simp_all add: root_of_def sample_machine_def sample_handler_def mount_vars_def)
  note P = prepare_unprepare_clean [OF sample_cdi sample_store sample_wf vc uid(2) sample_unrecorded p, unfolded uid(1), OF u]
  from P obtain k where g: "lookup (os m2) [''/'', ''r'', ''k8s.spyre.ibm.com-spyre_c1.yaml''] = None"
    and t: "lookup (os m2) [''/'', ''t''] = lookup mount_world [''/'', ''t''] \<or>
      (lookup mount_world [''/'', ''t''] = None \<and> lookup (os m2) [''/'', ''t''] = Some Dir)"
    by (auto simp: Let_def ms c sn)
  have "lookup mount_world [''/'', ''t''] \<noteq> None" by code_simp
  with g t p u show ?thesis by blast
qed

end
