(* ===== verification/Driver.thy ===== *)
theory Driver
  imports HealthMonitor HealthService ClaimLife
begin

text \<open>
  \<^verbatim>\<open>internal/driver/driver.go\<close>: the kubelet plugin's entry points.  What the kubelet
  plugin helper answers is an argument.  The ResourceSlice that was published last is kept beside
  the driver's state, because it is what the scheduler sees.
\<close>

section \<open>Batches of claims\<close>








section \<open>Publishing\<close>

text \<open>The pool of this node, and its devices in the last slice that was published.\<close>

type_synonym slices = "(string \<times> api_Device list) option"

definition publishResources ::
    "err option \<Rightarrow> string \<Rightarrow> string list \<Rightarrow> DeviceState \<Rightarrow> slices \<Rightarrow> err option \<times> slices" where
  "publishResources answer nodeName ord st pub =
     (case answer of None \<Rightarrow> (None, Some (nodeName, Devices_of ord st)) | Some e \<Rightarrow> (Some e, pub))"

definition onDeviceHealthChanged ::
    "health_proto \<Rightarrow> err option \<Rightarrow> string \<Rightarrow> string list \<Rightarrow> string list \<Rightarrow> healths \<Rightarrow> DeviceState \<Rightarrow> slices \<Rightarrow>
       DeviceState \<times> slices" where
  "onDeviceHealthChanged P answer nodeName ord1 ord2 hs st pub =
     (case UpdateDeviceStates ord1 (StateNames P hs Map.empty) st of
        (False, st') \<Rightarrow> (st', pub)
      | (True, st') \<Rightarrow> (st', snd (publishResources answer nodeName ord2 st' pub)))"

section \<open>Errors in the background\<close>

text \<open>The cause the main context is cancelled with, if it is; \<open>recoverable\<close> is \<open>errors.Is\<close>.\<close>

definition HandleError :: "(err \<Rightarrow> bool) \<Rightarrow> bool \<Rightarrow> err \<Rightarrow> err option" where
  "HandleError recoverable has_cancel e =
     (if \<not> recoverable e \<and> has_cancel then Some (Wrapped ''fatal background error'' e) else None)"

section \<open>Start and shutdown\<close>

record driver =
  d_state :: DeviceState
  d_healthcheck :: "HealthCheck option"
  d_deviceHealthy :: "DeviceHealthMonitor option"
  d_nodeName :: string
  d_published :: slices
  d_reconnecting :: bool     \<comment> \<open>a goroutine runs \<open>attemptReconnect\<close>\<close>

record driver_env =
  ext_start :: "err option"          \<comment> \<open>the answer of \<open>kubeletplugin.Start\<close>\<close>
  ext_listen :: "string \<Rightarrow> err option"        \<comment> \<open>the answer of \<open>net.Listen\<close> at an address\<close>
  ext_newClient :: "string \<Rightarrow> err option"     \<comment> \<open>the answer of \<open>grpc.NewClient\<close> for an address\<close>
  ext_publish :: "err option"        \<comment> \<open>the answer of \<open>PublishResources\<close>\<close>
  ext_proto :: health_proto
  ext_socket :: "node \<Rightarrow> bool"
  ext_orders :: "string list \<times> string list \<times> string list"
  ext_register :: health_env

definition NewDriver ::
    "'s deps \<Rightarrow> disc_env \<Rightarrow> driver_env \<Rightarrow> Flags \<Rightarrow> config_vars \<Rightarrow> 's \<Rightarrow> world \<Rightarrow>
       ((err + driver) \<times> config_vars \<times> 's \<times> world) option" where
  "NewDriver D E X config v s w =
     (case NewDeviceState D E config v s w of
        None \<Rightarrow> None
      | Some ((Some e, _), v1, s1, w1) \<Rightarrow> Some (Inl e, v1, s1, w1)
      | Some ((None, None), v1, s1, w1) \<Rightarrow> Some (Inl (GoPanic ''nil pointer dereference''), v1, s1, w1)
      | Some ((None, Some st), v1, s1, w1) \<Rightarrow>
     (case ext_start X of
        Some e \<Rightarrow> Some (Inl e, v1, s1, w1)
      | None \<Rightarrow>
     (case (if HealthCheckPort config \<ge> 0 then map_sum id Some (StartHealthcheck (ext_listen X) (ext_newClient X) config)
             else Inr None) of
        Inl e \<Rightarrow> Some (Inl (wrap ''start healthcheck'' e), v1, s1, w1)
      | Inr healthcheck \<Rightarrow>
     (case ext_orders X of
        (ord, ord1, ord2) \<Rightarrow>
     (case publishResources (ext_publish X) (NodeName config) ord st None of
        (Some e, _) \<Rightarrow> Some (Inl e, v1, s1, w1)
      | (None, pub) \<Rightarrow>
     (let d = \<lparr>d_state = st, d_healthcheck = healthcheck, d_deviceHealthy = None,
               d_nodeName = NodeName config, d_published = pub, d_reconnecting = False\<rparr> in
      case NewDeviceHealthMonitor (ext_proto X) (sys D) (ext_socket X) w1 ord1 ord2 (Allocatable st) of
        Inl e \<Rightarrow> Some (Inr d, v1, s1, w1)
      | Inr monitor \<Rightarrow>
          (case StartMonitor (ext_register X) monitor of
             (Some e, _, _) \<Rightarrow> Some (Inl (wrap ''start device health monitor'' e), v1, s1, w1)
           | (None, b, monitor1) \<Rightarrow>
               Some (Inr (d\<lparr>d_deviceHealthy := Some monitor1, d_reconnecting := b\<rparr>), v1, s1, w1))))))))"

text \<open>The parts are stopped in the order of the list.\<close>

datatype part = DeviceHealth | HealthService | KubeletHelper

definition Shutdown :: "driver \<Rightarrow> part list" where
  "Shutdown d = (if d_deviceHealthy d \<noteq> None then [DeviceHealth] else []) @
     (if d_healthcheck d \<noteq> None then [HealthService] else []) @ [KubeletHelper]"

section \<open>Batches: lemmas\<close>







section \<open>Properties\<close>



end
