(* ===== verification/HealthFlow.thy ===== *)
theory HealthFlow
  imports Driver
begin

text \<open>
  From a health report to the ResourceSlice.  Reports arrive in the client's goroutine at any
  time; the monitor's goroutine takes notifications and calls the driver.  \<^verbatim>\<open>flow\<close>
  is the state both share with the driver, \<^verbatim>\<open>consume\<close> one action of the monitor's
  goroutine, \<^verbatim>\<open>flow_step\<close> an action of either.
\<close>

section \<open>Steps\<close>

record flow =
  f_mon :: DeviceHealthMonitor
  f_pc :: monitor_pc
  f_state :: DeviceState
  f_slices :: slices
  f_failed :: bool       \<comment> \<open>the last attempt to publish failed\<close>

inductive consume :: "health_proto \<Rightarrow> string \<Rightarrow> flow \<Rightarrow> flow \<Rightarrow> bool" for P node where
  signal: "f_pc s = AtSelect \<Longrightarrow> mon_updateChan (f_mon s) \<Longrightarrow> take_signal (f_mon s) = (pc, m) \<Longrightarrow>
    consume P node s (s\<lparr>f_mon := m, f_pc := pc\<rparr>)"
| compute: "f_pc s = Signalled \<Longrightarrow> consume P node s (s\<lparr>f_pc := compute_healths (f_mon s)\<rparr>)"
| store: "f_pc s = Computed hs \<Longrightarrow> store_healths hs (f_mon s) = (pc, m) \<Longrightarrow>
    consume P node s (s\<lparr>f_mon := m, f_pc := pc\<rparr>)"
| change: "f_pc s = Calling hs \<Longrightarrow> range_order ord1 (Allocatable (f_state s)) \<Longrightarrow> range_order ord2 (Allocatable (f_state s)) \<Longrightarrow>
    onDeviceHealthChanged P answer node ord1 ord2 (copyHealths hs) (f_state s) (f_slices s) = (st, pub) \<Longrightarrow>
    consume P node s (s\<lparr>f_pc := AtSelect, f_state := st, f_slices := pub,
      f_failed := (if Allocatable st = Allocatable (f_state s) then f_failed s else answer \<noteq> None)\<rparr>)"

inductive flow_step :: "health_proto \<Rightarrow> string \<Rightarrow> flow \<Rightarrow> flow \<Rightarrow> bool" for P node where
  report: "client_report ds (f_mon s) = (None, m) \<Longrightarrow> flow_step P node s (s\<lparr>f_mon := m\<rparr>)"
| monitor: "consume P node s s' \<Longrightarrow> flow_step P node s s'"
| stop: "f_pc s = AtSelect \<Longrightarrow> flow_step P node s (s\<lparr>f_pc := Returned\<rparr>)"

inductive flow_steps :: "health_proto \<Rightarrow> string \<Rightarrow> flow \<Rightarrow> flow \<Rightarrow> bool" for P node where
  flow_refl: "flow_steps P node s s"
| flow_next: "flow_steps P node s s' \<Longrightarrow> flow_step P node s' s'' \<Longrightarrow> flow_steps P node s s''"

inductive_cases consumeE: "consume P node s s'"
inductive_cases flow_stepE: "flow_step P node s s'"

abbreviation dev_addr :: "SpyreDevice \<Rightarrow> string" where
  "dev_addr d \<equiv> GetPciAddr (sd_PciDevice d)"

abbreviation held :: "flow \<Rightarrow> healths" where
  "held s \<equiv> healthInfoMap (mon_client (f_mon s))"

definition quiescent :: "flow \<Rightarrow> bool" where
  "quiescent s \<longleftrightarrow> f_pc s = AtSelect \<and> \<not> mon_updateChan (f_mon s)"

text \<open>The state \<open>NewDriver\<close> leaves: every device ONLINE, and published.\<close>

definition flow_start :: "health_proto \<Rightarrow> sysfs \<Rightarrow> string list \<Rightarrow> string \<Rightarrow> flow \<Rightarrow> bool" where
  "flow_start P S ord node s \<longleftrightarrow>
     range_order ord (Allocatable (f_state s)) \<and> state_String P (STATE_ONLINE P) = ''ONLINE'' \<and>
     (\<forall>d \<in> ran (Allocatable (f_state s)). has_state d ''ONLINE'') \<and>
     healthInfoMap (mon_client (f_mon s)) = [] \<and> \<not> mon_updateChan (f_mon s) \<and>
     mon_base (f_mon s) = InitHealthInfo P S ord (Allocatable (f_state s)) \<and>
     f_pc s = AtSelect \<and> f_slices s = Some (node, Devices_of ord (f_state s)) \<and> \<not> f_failed s"

section \<open>Invariant\<close>

definition current :: "DeviceHealthMonitor \<Rightarrow> healths" where
  "current m = UpdateHealths (mon_client m) (copyHealths (mon_base m))"

definition shows_health :: "health_proto \<Rightarrow> (string \<Rightarrow> DeviceHealthState option) \<Rightarrow> DeviceState \<Rightarrow> bool" where
  "shows_health P hs st \<longleftrightarrow> (\<forall>d \<in> ran (Allocatable st). \<exists>h. hs (dev_addr d) = Some h \<and> has_state d (StateName P h))"

definition covers :: "(string \<Rightarrow> DeviceHealthState option) \<Rightarrow> DeviceState \<Rightarrow> bool" where
  "covers hs st \<longleftrightarrow> (\<forall>d \<in> ran (Allocatable st). hs (dev_addr d) \<noteq> None)"

fun pc_inv :: "health_proto \<Rightarrow> monitor_pc \<Rightarrow> flow \<Rightarrow> bool" where
  "pc_inv P AtSelect s = (mon_updateChan (f_mon s) \<or> shows_health P (obj_get (current (f_mon s))) (f_state s))"
| "pc_inv P (Computed hs) s = (distinct (map fst hs) \<and> covers (obj_get hs) (f_state s) \<and>
     (mon_updateChan (f_mon s) \<or> obj_get hs = obj_get (current (f_mon s))))"
| "pc_inv P (Calling hs) s = (distinct (map fst hs) \<and> covers (obj_get hs) (f_state s) \<and>
     (mon_updateChan (f_mon s) \<or> obj_get hs = obj_get (current (f_mon s))))"
| "pc_inv P _ s = True"

definition flow_inv :: "health_proto \<Rightarrow> string \<Rightarrow> flow \<Rightarrow> bool" where
  "flow_inv P node s \<longleftrightarrow> client_ok (mon_client (f_mon s)) \<and> distinct (map fst (mon_base (f_mon s))) \<and>
     finite (dom (Allocatable (f_state s))) \<and>
     (\<forall>k h. obj_get (mon_base (f_mon s)) k = Some h \<longrightarrow> StateName P h = ''ONLINE'') \<and>
     covers (obj_get (mon_base (f_mon s))) (f_state s) \<and> pc_inv P (f_pc s) s \<and>
     (f_failed s \<or> (\<exists>ds. f_slices s = Some (node, ds) \<and> set ds = DeepCopy ` ran (Allocatable (f_state s))))"

lemma current_get:
  assumes "client_ok (mon_client m)" "distinct (map fst (mon_base m))"
  shows "obj_get (current m) k =
    (case obj_get (mon_base m) k of None \<Rightarrow> None
     | Some v \<Rightarrow> (case obj_get (healthInfoMap (mon_client m)) k of None \<Rightarrow> Some v | Some v' \<Rightarrow> Some v'))"
  unfolding current_def UpdateHealths_get [OF assms(1)] copyHealths_get [OF assms(2)] ..

lemma client_report_ok:
  assumes "client_ok (mon_client m)" "client_report ds m = (None, m')"
  shows "client_ok (mon_client m') \<and> mon_base m' = mon_base m \<and>
    obj_get (healthInfoMap (mon_client m')) = reported ds \<and>
    mon_updateChan m' = (mon_updateChan m \<or> reported ds \<noteq> obj_get (healthInfoMap (mon_client m)))"
proof -
  obtain e t pend where s: "setAndNotify ds (mon_client m) (mon_updateChan m) = (e, t, pend)" by (metis prod.collapse)
  with assms(2) have e: "e = None" "m' = m\<lparr>mon_client := t, mon_updateChan := pend\<rparr>" by (auto simp: client_report_def)
  from setAndNotify_ok [OF assms(1) s [unfolded e(1)]] report_map_reported show ?thesis by (auto simp: e(2))
qed

lemma Devices_of_set: "range_order ord (Allocatable st) \<Longrightarrow> set (Devices_of ord st) = DeepCopy ` ran (Allocatable st)"
  using ranged_set [of ord "Allocatable st"] by (simp add: Devices_of_def ranged_def)

lemma shows_health_cong: "(\<And>k. k \<in> dev_addr ` ran (Allocatable st) \<Longrightarrow> hs k = hs' k) \<Longrightarrow> shows_health P hs st = shows_health P hs' st"
  by (simp add: shows_health_def)

lemma start_inv:
  assumes "flow_start P S ord node s"
  shows "flow_inv P node s"
proof -
  let ?A = "Allocatable (f_state s)"
  let ?g = "\<lambda>d. NewDeviceHealthState P (deviceTypeOf P S (sd_PciDevice d))"
  note a = assms [unfolded flow_start_def]
  have base: "distinct (map fst (InitHealthInfo P S ord ?A))"
    unfolding InitHealthInfo_def by (rule fold_obj_set_distinct) simp
  have dom: "dom (obj_get (InitHealthInfo P S ord ?A)) = dev_addr ` ran ?A"
    unfolding InitHealthInfo_def fold_obj_set_dom using a by (simp add: dom_def ranged_set)
  have online: "StateName P h = ''ONLINE''" if "obj_get (InitHealthInfo P S ord ?A) k = Some h" for k h
    using fold_obj_set_vals [of dev_addr ?g "ranged ord ?A" "[]" k h] that a
    by (auto simp: InitHealthInfo_def NewDeviceHealthState_def StateName_def)
  have ok: "client_ok (mon_client (f_mon s))" using a by (simp add: client_ok_def)
  have cur: "obj_get (current (f_mon s)) k = obj_get (InitHealthInfo P S ord ?A) k" for k
    using current_get [OF ok, of k] a base by (simp split: option.split)
  have "covers (obj_get (InitHealthInfo P S ord ?A)) (f_state s)"
    using dom by (auto simp: covers_def domIff [symmetric])
  moreover from this have "shows_health P (obj_get (current (f_mon s))) (f_state s)"
    using a online by (auto simp: shows_health_def covers_def cur)
  ultimately show ?thesis
    using a base ok online range_order_finite [of ord ?A] Devices_of_set [of ord "f_state s"]
    by (auto simp: flow_inv_def)
qed

lemma new_state_sel [simp]: "sd_PciDevice (new_state states d) = sd_PciDevice d"
  by (simp add: new_state_def set_state_def split: option.split)

lemma has_state_new: "states (dev_addr d) = Some x \<Longrightarrow> has_state (new_state states d) x"
  by (auto simp: new_state_def set_state_def has_state_def)

lemma ran_map_option: "ran (\<lambda>n. map_option f (A n)) = f ` ran A"
  by (auto simp: ran_def)

lemma change_result:
  assumes "onDeviceHealthChanged P answer node ord1 ord2 (copyHealths hs) st pub = (st', pub')"
    and "range_order ord1 (Allocatable st)" "range_order ord2 (Allocatable st)" "distinct (map fst hs)" "covers (obj_get hs) st"
  shows "ran (Allocatable st') = new_state (StateNames P (copyHealths hs) Map.empty) ` ran (Allocatable st) \<and>
    dom (Allocatable st') = dom (Allocatable st) \<and> shows_health P (obj_get hs) st' \<and>
    (if Allocatable st' = Allocatable st then pub' = pub
     else pub' = (if answer = None then Some (node, Devices_of ord2 st') else pub) \<and> range_order ord2 (Allocatable st'))"
proof -
  let ?n = "StateNames P (copyHealths hs) Map.empty"
  let ?c = "\<exists>n d. Allocatable st n = Some d \<and> stale ?n d"
  let ?A' = "\<lambda>n. map_option (new_state ?n) (Allocatable st n)"
  have u: "UpdateDeviceStates ord1 ?n st = (?c, st\<lparr>Allocatable := ?A'\<rparr>)"
    by (rule UpdateDeviceStates_value [OF assms(2)])
  have A': "Allocatable st' = ?A'"
    using assms(1) by (auto simp: onDeviceHealthChanged_def u split: bool.splits)
  have same: "?A' = Allocatable st" if "\<not> ?c"
  proof
    fix n show "?A' n = Allocatable st n"
      using that by (cases "Allocatable st n") (auto simp: new_state_def stale_def split: option.splits)
  qed
  have diff: "?A' \<noteq> Allocatable st" if c: ?c
  proof -
    from c obtain n d where nd: "Allocatable st n = Some d" "stale ?n d" by blast
    then obtain x where x: "?n (dev_addr d) = Some x" "\<not> has_state d x" by (auto simp: stale_def split: option.splits)
    have "new_state ?n d \<noteq> d" using has_state_new [of ?n d x] x by metis
    with nd(1) show ?thesis by (metis option.inject option.simps(9))
  qed
  have names: "?n a = map_option (StateName P) (obj_get hs a)" for a
    using StateNames_get [OF copyHealths_distinct, of P hs Map.empty a] copyHealths_get [OF assms(4)]
    by (simp split: option.split)
  have "shows_health P (obj_get hs) st'"
    unfolding shows_health_def A' ran_map_option
  proof
    fix d' assume "d' \<in> new_state ?n ` ran (Allocatable st)"
    then obtain d where d: "d \<in> ran (Allocatable st)" "d' = new_state ?n d" by blast
    with assms(5) obtain h where h: "obj_get hs (dev_addr d) = Some h" by (auto simp: covers_def)
    then have "?n (dev_addr d) = Some (StateName P h)" by (simp add: names)
    with has_state_new [of ?n d "StateName P h"] d(2) h show "\<exists>h. obj_get hs (dev_addr d') = Some h \<and> has_state d' (StateName P h)" by auto
  qed
  moreover have "dom ?A' = dom (Allocatable st)" by (auto simp: dom_def)
  moreover have "if Allocatable st' = Allocatable st then pub' = pub
     else pub' = (if answer = None then Some (node, Devices_of ord2 st') else pub) \<and> range_order ord2 (Allocatable st')"
  proof (cases ?c)
    case True
    then have st': "st' = st\<lparr>Allocatable := ?A'\<rparr>" "pub' = snd (publishResources answer node ord2 st' pub)"
      using assms(1) u by (auto simp: onDeviceHealthChanged_def)
    have "range_order ord2 ?A'" using assms(3) \<open>dom ?A' = dom (Allocatable st)\<close> by (simp add: range_order_def)
    then show ?thesis using diff [OF True] st'(2) unfolding A' by (simp add: publishResources_def split: option.split)
  next
    case False
    then have cF: "?c = False" by blast
    have "pub' = pub" using assms(1) unfolding onDeviceHealthChanged_def u [unfolded cF] by simp
    then show ?thesis using same [OF False] A' by simp
  qed
  ultimately show ?thesis by (simp add: A' ran_map_option)
qed

lemma covers_addr:
  "covers hs st \<Longrightarrow> ran (Allocatable st') = new_state states ` ran (Allocatable st) \<Longrightarrow> covers hs st'"
  by (auto simp: covers_def)

lemma consume_inv:
  assumes "consume P node s s'" "flow_inv P node s"
  shows "flow_inv P node s' \<and> mon_client (f_mon s') = mon_client (f_mon s)"
  using assms(1)
proof (cases rule: consume.cases)
  case (signal pc m)
  then show ?thesis using assms(2) by (auto simp: flow_inv_def take_signal_def)
next
  case compute
  note inv = assms(2) [unfolded flow_inv_def]
  have c: "compute_healths (f_mon s) = Computed (current (f_mon s))" by (simp add: compute_healths_def current_def)
  have "distinct (map fst (current (f_mon s)))" by (simp add: current_def UpdateHealths_distinct)
  moreover have "covers (obj_get (current (f_mon s))) (f_state s)"
    using inv current_get [of "f_mon s"] by (auto simp: covers_def split: option.split)
  ultimately show ?thesis using inv compute by (auto simp: flow_inv_def c)
next
  case (store hs pc m)
  have m: "pc = Calling hs" "mon_client m = mon_client (f_mon s)" "mon_base m = mon_base (f_mon s)"
    "mon_updateChan m = mon_updateChan (f_mon s)"
    using store(3) by (auto simp: store_healths_def)
  then have "current m = current (f_mon s)" by (simp add: current_def)
  with m store assms(2) show ?thesis by (simp add: flow_inv_def)
next
  case (change hs ord1 ord2 answer st pub)
  note inv = assms(2) [unfolded flow_inv_def]
  have hs: "distinct (map fst hs)" "covers (obj_get hs) (f_state s)"
    "mon_updateChan (f_mon s) \<or> obj_get hs = obj_get (current (f_mon s))"
    using inv change(2) by auto
  from change_result [OF change(5,3,4) hs(1,2)] have r:
    "ran (Allocatable st) = new_state (StateNames P (copyHealths hs) Map.empty) ` ran (Allocatable (f_state s))"
    "dom (Allocatable st) = dom (Allocatable (f_state s))" "shows_health P (obj_get hs) st"
    "if Allocatable st = Allocatable (f_state s) then pub = f_slices s
     else pub = (if answer = None then Some (node, Devices_of ord2 st) else f_slices s) \<and> range_order ord2 (Allocatable st)"
    by blast+
  have "covers (obj_get (mon_base (f_mon s))) st" by (rule covers_addr [OF _ r(1)]) (use inv in blast)
  moreover have "mon_updateChan (f_mon s) \<or> shows_health P (obj_get (current (f_mon s))) st" using hs(3) r(3) by auto
  moreover have "f_failed s' \<or> (\<exists>ds. f_slices s' = Some (node, ds) \<and> set ds = DeepCopy ` ran (Allocatable (f_state s')))"
    using inv r(4) change(1) Devices_of_set [of ord2 st] by (cases "Allocatable st = Allocatable (f_state s)") auto
  ultimately show ?thesis using inv r(2) change(1) by (auto simp: flow_inv_def)
qed

lemma report_inv:
  assumes "client_report ds (f_mon s) = (None, m)" "flow_inv P node s"
  shows "flow_inv P node (s\<lparr>f_mon := m\<rparr>)"
proof -
  note inv = assms(2) [unfolded flow_inv_def]
  have r: "client_ok (mon_client m)" "mon_base m = mon_base (f_mon s)" "obj_get (healthInfoMap (mon_client m)) = reported ds"
    "mon_updateChan m = (mon_updateChan (f_mon s) \<or> reported ds \<noteq> obj_get (held s))"
    using client_report_ok [OF _ assms(1)] inv by blast+
  have cur: "obj_get (current m) = obj_get (current (f_mon s))" if "\<not> mon_updateChan m"
  proof
    fix k show "obj_get (current m) k = obj_get (current (f_mon s)) k"
      using that r inv by (simp add: current_get split: option.split)
  qed
  have "pc_inv P (f_pc s) (s\<lparr>f_mon := m\<rparr>)"
    using inv cur r(4) by (cases "f_pc s") auto
  then show ?thesis using inv r(1,2) by (simp add: flow_inv_def)
qed

lemma flow_step_inv: "flow_step P node s s' \<Longrightarrow> flow_inv P node s \<Longrightarrow> flow_inv P node s'"
proof (erule flow_stepE)
  assume "flow_inv P node s" "s' = s\<lparr>f_pc := Returned\<rparr>"
  then show "flow_inv P node s'" by (simp add: flow_inv_def)
qed (auto dest: report_inv consume_inv)

lemma flow_steps_inv: "flow_steps P node s s' \<Longrightarrow> flow_inv P node s \<Longrightarrow> flow_inv P node s'"
  by (induction rule: flow_steps.induct) (auto dest: flow_step_inv)

section \<open>Work left\<close>

fun pc_work :: "monitor_pc \<Rightarrow> nat" where
  "pc_work Signalled = 3"
| "pc_work (Computed hs) = 2"
| "pc_work (Calling hs) = 1"
| "pc_work _ = 0"

definition work :: "flow \<Rightarrow> nat" where
  "work s = pc_work (f_pc s) + (if mon_updateChan (f_mon s) then 4 else 0)"

lemma consume_work: "consume P node s s' \<Longrightarrow> work s' < work s"
  by (erule consumeE) (auto simp: work_def take_signal_def compute_healths_def store_healths_def)

lemma consume_enabled:
  assumes "f_pc s \<noteq> Returned" "\<not> quiescent s" "finite (dom (Allocatable (f_state s)))"
  shows "\<exists>s'. consume P node s s'"
proof (cases "f_pc s")
  case AtSelect
  then have "mon_updateChan (f_mon s)" using assms(2) by (simp add: quiescent_def)
  from consume.signal [OF AtSelect this] show ?thesis by (auto simp: take_signal_def)
next
  case Signalled
  from consume.compute [OF this] show ?thesis by blast
next
  case (Computed hs)
  from consume.store [OF this] show ?thesis by (auto simp: store_healths_def)
next
  case (Calling hs)
  obtain ord where "range_order ord (Allocatable (f_state s))" using range_order_ex [OF assms(3)] by blast
  moreover obtain st pub where "onDeviceHealthChanged P None node ord ord (copyHealths hs) (f_state s) (f_slices s) = (st, pub)"
    by fastforce
  ultimately show ?thesis using consume.change [OF Calling] by blast
qed (use assms(1) in simp)

lemma consume_pc: "consume P node s s' \<Longrightarrow> f_pc s' \<noteq> Returned"
  by (erule consumeE) (auto simp: take_signal_def compute_healths_def store_healths_def)

lemma settles:
  assumes "flow_inv P node s" "f_pc s \<noteq> Returned"
  shows "\<exists>s' n. n \<le> work s \<and> (consume P node ^^ n) s s' \<and> quiescent s'"
  using assms
proof (induction "work s" arbitrary: s rule: less_induct)
  case less
  show ?case
  proof (cases "quiescent s")
    case True
    then show ?thesis by (intro exI [of _ s] exI [of _ 0]) simp
  next
    case False
    have "finite (dom (Allocatable (f_state s)))" using less.prems(1) by (simp add: flow_inv_def)
    then obtain s1 where s1: "consume P node s s1"
      using consume_enabled [OF less.prems(2) False] by blast
    obtain s' n where n: "n \<le> work s1" "(consume P node ^^ n) s1 s'" "quiescent s'"
      using less.hyps [OF consume_work [OF s1]] consume_inv [OF s1 less.prems(1)] consume_pc [OF s1] by blast
    have "(consume P node ^^ Suc n) s s'" using s1 n(2) by (rule relpowp_Suc_I2)
    with n consume_work [OF s1] show ?thesis by (intro exI [of _ s'] exI [of _ "Suc n"]) simp
  qed
qed

lemma run_bound:
  assumes "(consume P node ^^ n) s s'" "flow_inv P node s" "f_pc s \<noteq> Returned"
  shows "n + work s' \<le> work s \<and> held s' = held s \<and> flow_inv P node s' \<and> f_pc s' \<noteq> Returned"
  using assms(1)
proof (induction n arbitrary: s')
  case 0
  with assms(2,3) show ?case by simp
next
  case (Suc n)
  then obtain s1 where s1: "(consume P node ^^ n) s s1" "consume P node s1 s'" by auto
  with Suc.IH [OF s1(1)] consume_work [OF s1(2)] consume_inv [OF s1(2)] consume_pc [OF s1(2)] show ?case by auto
qed

lemma work_le: "work s \<le> 7"
  by (cases "f_pc s") (simp_all add: work_def)

section \<open>Properties\<close>

text \<open>
  C10. Whenever the monitor is waiting with no notification pending, in any interleaving of
  reports and its own actions since the start, every device carries the state of the last report,
  and ONLINE if that report does not mention it; unless the last attempt to publish failed, this
  is what the published slice of the node says.
\<close>

theorem quiescent_shows_report:
  assumes "flow_start P S ord node s0" "flow_steps P node s0 s" "f_pc s = AtSelect" "\<not> mon_updateChan (f_mon s)"
    and "Allocatable (f_state s) n = Some d"
  shows "has_state d (case obj_get (held s) (dev_addr d) of None \<Rightarrow> ''ONLINE'' | Some h \<Rightarrow> StateName P h) \<and>
    (f_failed s \<or> (\<exists>ds. f_slices s = Some (node, ds) \<and> DeepCopy d \<in> set ds))"
proof -
  have inv: "flow_inv P node s" by (rule flow_steps_inv [OF assms(2) start_inv [OF assms(1)]])
  note I = inv [unfolded flow_inv_def]
  have d: "d \<in> ran (Allocatable (f_state s))" using assms(5) by (rule ranI)
  have "shows_health P (obj_get (current (f_mon s))) (f_state s)" using I assms(3,4) by simp
  with d obtain h where h: "obj_get (current (f_mon s)) (dev_addr d) = Some h" "has_state d (StateName P h)"
    by (auto simp: shows_health_def)
  have c: "obj_get (current (f_mon s)) (dev_addr d) = (case obj_get (mon_base (f_mon s)) (dev_addr d) of None \<Rightarrow> None
     | Some v \<Rightarrow> (case obj_get (held s) (dev_addr d) of None \<Rightarrow> Some v | Some v' \<Rightarrow> Some v'))"
    using I by (intro current_get) blast+
  from I have online: "obj_get (mon_base (f_mon s)) k = Some v \<longrightarrow> StateName P v = ''ONLINE''" for k v by blast
  have "has_state d (case obj_get (held s) (dev_addr d) of None \<Rightarrow> ''ONLINE'' | Some h \<Rightarrow> StateName P h)"
    using h c online by (cases "obj_get (mon_base (f_mon s)) (dev_addr d)"; cases "obj_get (held s) (dev_addr d)") auto
  moreover have "f_failed s \<or> (\<exists>ds. f_slices s = Some (node, ds) \<and> DeepCopy d \<in> set ds)" using I d by auto
  ultimately show ?thesis by blast
qed

text \<open>
  C11. Once reports stop, the monitor settles: every run of its own actions has at most seven,
  cannot stop before the monitor waits with nothing pending, and keeps the report the client
  holds.
\<close>

theorem reports_settle:
  assumes "flow_start P S ord node s0" "flow_steps P node s0 s" "f_pc s \<noteq> Returned" "(consume P node ^^ n) s s'"
  shows "n \<le> 7 \<and> held s' = held s \<and> (quiescent s' \<or> (\<exists>s''. consume P node s' s''))"
proof -
  have inv: "flow_inv P node s" by (rule flow_steps_inv [OF assms(2) start_inv [OF assms(1)]])
  have r: "n + work s' \<le> work s" "held s' = held s" "flow_inv P node s'" "f_pc s' \<noteq> Returned"
    using run_bound [OF assms(4) inv assms(3)] by blast+
  have "n \<le> 7" using r(1) work_le [of s] by linarith
  moreover have "finite (dom (Allocatable (f_state s')))" using r(3) by (simp add: flow_inv_def)
  ultimately show ?thesis using r(2) consume_enabled [OF r(4)] by blast
qed

definition flow0 :: flow where
  "flow0 = \<lparr>f_mon = \<lparr>mon_client = sample_client, mon_initial = [],
       mon_base = InitHealthInfo sample_proto (sample_sysfs ''7'') [''0000-1a-00-0''] (Allocatable (dstate sample_machine)),
       mon_updateChan = False, mon_stopped = False, mon_healths = []\<rparr>,
     f_pc = AtSelect, f_state = dstate sample_machine,
     f_slices = Some (''node'', Devices_of [''0000-1a-00-0''] (dstate sample_machine)), f_failed = False\<rparr>"

definition sample_device :: SpyreDevice where
  "sample_device = sample_spyre ''0000-1a-00-0'' ''0000:1a:00.0''"

lemma flow0_start: "flow_start sample_proto (sample_sysfs ''7'') [''0000-1a-00-0''] ''node'' flow0"
proof -
  have "has_state sample_device ''ONLINE''" by code_simp
  then show ?thesis
    by (auto simp: flow_start_def flow0_def sample_client_def sample_proto_def sample_machine_def range_order_def sample_device_def)
qed

definition flow1 :: flow where
  "flow1 = flow0\<lparr>f_mon := snd (client_report (sample_report 2) (f_mon flow0))\<rparr>"
definition flow2 :: flow where
  "flow2 = flow1\<lparr>f_mon := snd (take_signal (f_mon flow1)), f_pc := Signalled\<rparr>"
definition hs3 :: healths where
  "hs3 = UpdateHealths (mon_client (f_mon flow2)) (copyHealths (mon_base (f_mon flow2)))"
definition flow3 :: flow where "flow3 = flow2\<lparr>f_pc := Computed hs3\<rparr>"
definition flow4 :: flow where
  "flow4 = flow3\<lparr>f_mon := snd (store_healths hs3 (f_mon flow3)), f_pc := Calling hs3\<rparr>"
definition changed :: "DeviceState \<times> slices" where
  "changed = onDeviceHealthChanged sample_proto None ''node'' [''0000-1a-00-0''] [''0000-1a-00-0''] (copyHealths hs3)
     (f_state flow4) (f_slices flow4)"
definition flow5 :: flow where
  "flow5 = flow4\<lparr>f_pc := AtSelect, f_state := fst changed, f_slices := snd changed, f_failed := False\<rparr>"

lemma flow4_sel: "f_state flow4 = dstate sample_machine" "f_pc flow4 = Calling hs3" "\<not> f_failed flow4"
  "range_order [''0000-1a-00-0''] (Allocatable (f_state flow4))"
  by (simp_all add: flow4_def flow3_def flow2_def flow1_def flow0_def range_order_def sample_machine_def)

lemma hs3_ok: "distinct (map fst hs3)" "obj_get hs3 ''0000:1a:00.0'' \<noteq> None"
  by code_simp+

lemma flow5_device:
  obtains d where "Allocatable (f_state flow5) ''0000-1a-00-0'' = Some d" "dev_addr d = ''0000:1a:00.0''"
proof -
  have ran: "ran (Allocatable (f_state flow4)) = {sample_device}"
    by (simp add: flow4_sel sample_machine_def sample_device_def)
  have addr: "dev_addr sample_device = ''0000:1a:00.0''" by code_simp
  have "covers (obj_get hs3) (f_state flow4)" using hs3_ok(2) by (simp add: covers_def ran addr)
  from change_result [OF prod.collapse [symmetric] flow4_sel(4,4) hs3_ok(1) this, of sample_proto None "''node''" "f_slices flow4"]
  have r: "ran (Allocatable (f_state flow5)) = new_state (StateNames sample_proto (copyHealths hs3) Map.empty) ` {sample_device}"
    "dom (Allocatable (f_state flow5)) = dom (Allocatable (f_state flow4))"
    by (simp_all add: flow5_def changed_def ran)
  have "''0000-1a-00-0'' \<in> dom (Allocatable (f_state flow5))"
    unfolding r(2) by (simp add: flow4_sel(1) sample_machine_def)
  then obtain d where d: "Allocatable (f_state flow5) ''0000-1a-00-0'' = Some d" by blast
  then have "d \<in> ran (Allocatable (f_state flow5))" by (rule ranI)
  then have "dev_addr d = ''0000:1a:00.0''" by (auto simp: r(1) addr)
  with d show thesis by (rule that)
qed

lemma flow_run:
  "flow_steps sample_proto ''node'' flow0 flow1" "(consume sample_proto ''node'' ^^ Suc (Suc (Suc (Suc 0)))) flow1 flow5"
proof -
  have "fst (client_report (sample_report 2) (f_mon flow0)) = None" by code_simp
  then have "flow_step sample_proto ''node'' flow0 flow1"
    unfolding flow1_def by (intro flow_step.report [of "sample_report 2"]) (metis prod.collapse)
  then show "flow_steps sample_proto ''node'' flow0 flow1" by (rule flow_next [OF flow_refl])
  have pc1: "f_pc flow1 = AtSelect" "mon_updateChan (f_mon flow1)" by code_simp+
  have c1: "consume sample_proto ''node'' flow1 flow2"
    unfolding flow2_def using pc1 by (intro consume.signal) (simp_all add: take_signal_def)
  have c2: "consume sample_proto ''node'' flow2 flow3"
    unfolding flow3_def hs3_def using consume.compute [of flow2 sample_proto "''node''"]
    by (simp add: compute_healths_def flow2_def)
  have c3: "consume sample_proto ''node'' flow3 flow4"
    unfolding flow4_def by (rule consume.store [of _ hs3]) (simp_all add: flow3_def store_healths_def)
  have c4: "consume sample_proto ''node'' flow4 flow5"
  proof -
    have f: "f_failed flow4 = False" using flow4_sel(3) by simp
    from consume.change [OF flow4_sel(2,4,4), of sample_proto None "''node''" "fst changed" "snd changed"]
    show ?thesis by (simp add: flow5_def changed_def f cong: if_cong)
  qed
  show "(consume sample_proto ''node'' ^^ Suc (Suc (Suc (Suc 0)))) flow1 flow5"
  proof -
    note I = relpowp_Suc_I2 [of "consume sample_proto ''node''"]
    have "(consume sample_proto ''node'' ^^ Suc 0) flow4 flow5"
      by (rule I [OF c4]) simp
    from I [OF c1 I [OF c2 I [OF c3 this]]] show ?thesis .
  qed
qed

theorem reports_settle_witness:
  "held flow5 = held flow1 \<and> (quiescent flow5 \<or> (\<exists>s''. consume sample_proto ''node'' flow5 s''))"
proof -
  have "f_pc flow1 \<noteq> Returned" by code_simp
  from reports_settle [OF flow0_start flow_run(1) this flow_run(2)] show ?thesis by blast
qed

theorem quiescent_shows_report_witness:
  "\<exists>d ds. Allocatable (f_state flow5) ''0000-1a-00-0'' = Some d \<and> has_state d ''IN_ERROR'' \<and>
     f_slices flow5 = Some (''node'', ds) \<and> DeepCopy d \<in> set ds"
proof -
  have steps: "flow_steps sample_proto ''node'' flow0 flow5"
  proof -
    have "flow_steps sample_proto ''node'' flow0 s'" if "(consume sample_proto ''node'' ^^ n) flow1 s'" for n s'
      using that
    proof (induction n arbitrary: s')
      case 0
      then show ?case using flow_run(1) by simp
    next
      case (Suc n)
      then show ?case by (auto intro: flow_next flow_step.monitor)
    qed
    then show ?thesis using flow_run(2) by blast
  qed
  have m: "f_mon flow5 = snd (take_signal (f_mon flow1))\<lparr>mon_healths := hs3\<rparr>"
    by (simp add: flow5_def flow4_def flow3_def flow2_def store_healths_def)
  have h1: "obj_get (held flow1) ''0000:1a:00.0'' = Some \<lparr>hs_state = 2, hs_deviceType = 1\<rparr>" by code_simp
  have s5: "f_pc flow5 = AtSelect" "\<not> mon_updateChan (f_mon flow5)"
    "obj_get (held flow5) ''0000:1a:00.0'' = Some \<lparr>hs_state = 2, hs_deviceType = 1\<rparr>"
    using h1 by (simp_all add: m take_signal_def) (simp add: flow5_def)
  have "\<not> f_failed flow5" by (simp add: flow5_def)
  moreover obtain d where d: "Allocatable (f_state flow5) ''0000-1a-00-0'' = Some d" "dev_addr d = ''0000:1a:00.0''"
    by (rule flow5_device)
  moreover have "StateName sample_proto \<lparr>hs_state = 2, hs_deviceType = 1\<rparr> = ''IN_ERROR''" by code_simp
  ultimately show ?thesis
    using quiescent_shows_report [OF flow0_start steps s5(1,2) d(1)] s5(3) by auto
qed

end
