(* ===== verification/HealthRaces.thy ===== *)
theory HealthRaces
  imports HealthFlow
begin

text \<open>
  The goroutines of the health client (\<^verbatim>\<open>internal/health/health_client.go\<close>):
  listeners, which end by starting a reconnection and then run their deferred clean-up, and
  reconnections, which may start a new listener.  A goroutine's position is a
  \<^verbatim>\<open>pc\<close>; a step is one access to the shared flags or the connection, so the steps
  of different goroutines interleave as in the code.  The functions of HealthClient describe one
  goroutine and take what it sees of the others as an argument.
\<close>

section \<open>State and steps\<close>

datatype pc =
    Listening nat      \<comment> \<open>in \<open>Recv\<close> on the stream of this connection\<close>
  | EndReset           \<comment> \<open>deferred: about to clear \<open>running\<close>\<close>
  | EndClose           \<comment> \<open>deferred: about to close the client's connection\<close>
  | Spawned            \<comment> \<open>at the first line of \<open>attemptReconnect\<close>\<close>
  | Trying nat         \<comment> \<open>in its loop, with so many attempts left\<close>
  | Dialing nat        \<comment> \<open>in \<open>Register\<close>, past the test of \<open>running\<close>\<close>
  | Streaming nat nat  \<comment> \<open>in \<open>Register\<close>, calling on its new connection\<close>
  | Finishing          \<comment> \<open>deferred: about to clear \<open>reconnecting\<close>\<close>

record races =
  r_running :: bool
  r_reconnecting :: bool
  r_conn :: "nat option"
  r_open :: "nat \<Rightarrow> bool"
  r_next :: nat
  r_told :: bool              \<comment> \<open>\<open>quit\<close> is closed or the context is done\<close>
  r_gave_up :: bool
  r_thr :: "nat \<rightharpoonup> pc"

definition close_conn :: "races \<Rightarrow> races" where
  "close_conn s = (case r_conn s of None \<Rightarrow> s | Some c \<Rightarrow> s\<lparr>r_open := (r_open s)(c := False)\<rparr>)"

inductive race_step :: "nat \<Rightarrow> races \<Rightarrow> races \<Rightarrow> bool" for maxAttempts where
  stream_end: "r_thr s t = Some (Listening c) \<Longrightarrow> r_thr s u = None \<Longrightarrow>
    race_step maxAttempts s (s\<lparr>r_thr := (r_thr s)(t \<mapsto> EndReset, u \<mapsto> Spawned)\<rparr>)"
| told_end: "r_thr s t = Some (Listening c) \<Longrightarrow> r_told s \<Longrightarrow>
    race_step maxAttempts s (s\<lparr>r_thr := (r_thr s)(t \<mapsto> EndReset)\<rparr>)"
| panic_end: "r_thr s t = Some (Listening c) \<Longrightarrow>
    race_step maxAttempts s (s\<lparr>r_thr := (r_thr s)(t \<mapsto> EndReset)\<rparr>)"
| reset: "r_thr s t = Some EndReset \<Longrightarrow>
    race_step maxAttempts s (s\<lparr>r_running := False, r_thr := (r_thr s)(t \<mapsto> EndClose)\<rparr>)"
| close: "r_thr s t = Some EndClose \<Longrightarrow>
    race_step maxAttempts s ((close_conn s)\<lparr>r_thr := (r_thr s)(t := None)\<rparr>)"
| cas_ok: "r_thr s t = Some Spawned \<Longrightarrow> \<not> r_reconnecting s \<Longrightarrow>
    race_step maxAttempts s (s\<lparr>r_reconnecting := True, r_thr := (r_thr s)(t \<mapsto> Trying maxAttempts)\<rparr>)"
| cas_fail: "r_thr s t = Some Spawned \<Longrightarrow> r_reconnecting s \<Longrightarrow>
    race_step maxAttempts s (s\<lparr>r_thr := (r_thr s)(t := None)\<rparr>)"
| told_try: "r_thr s t = Some (Trying (Suc n)) \<Longrightarrow> r_told s \<Longrightarrow>
    race_step maxAttempts s (s\<lparr>r_thr := (r_thr s)(t \<mapsto> Finishing)\<rparr>)"
| give_up: "r_thr s t = Some (Trying 0) \<Longrightarrow>
    race_step maxAttempts s (s\<lparr>r_gave_up := True, r_thr := (r_thr s)(t \<mapsto> Finishing)\<rparr>)"
| already_running: "r_thr s t = Some (Trying (Suc n)) \<Longrightarrow> r_running s \<Longrightarrow>
    race_step maxAttempts s (s\<lparr>r_thr := (r_thr s)(t \<mapsto> Finishing)\<rparr>)"
| not_running: "r_thr s t = Some (Trying (Suc n)) \<Longrightarrow> \<not> r_running s \<Longrightarrow>
    race_step maxAttempts s (s\<lparr>r_thr := (r_thr s)(t \<mapsto> Dialing n)\<rparr>)"
| tls_fail: "r_thr s t = Some (Dialing n) \<Longrightarrow>
    race_step maxAttempts s (s\<lparr>r_thr := (r_thr s)(t \<mapsto> Trying n)\<rparr>)"
| dial_fail: "r_thr s t = Some (Dialing n) \<Longrightarrow>
    race_step maxAttempts s (s\<lparr>r_conn := None, r_thr := (r_thr s)(t \<mapsto> Trying n)\<rparr>)"
| dial_ok: "r_thr s t = Some (Dialing n) \<Longrightarrow>
    race_step maxAttempts s (s\<lparr>r_conn := Some (r_next s), r_open := (r_open s)(r_next s := True), r_next := Suc (r_next s),
      r_thr := (r_thr s)(t \<mapsto> Streaming n (r_next s))\<rparr>)"
| stream_fail: "r_thr s t = Some (Streaming n c) \<Longrightarrow>
    race_step maxAttempts s ((close_conn s)\<lparr>r_thr := (r_thr s)(t \<mapsto> Trying n)\<rparr>)"
| stream_ok: "r_thr s t = Some (Streaming n c) \<Longrightarrow> r_thr s u = None \<Longrightarrow>
    race_step maxAttempts s (s\<lparr>r_running := True, r_thr := (r_thr s)(t \<mapsto> Finishing, u \<mapsto> Listening c)\<rparr>)"
| finish: "r_thr s t = Some Finishing \<Longrightarrow>
    race_step maxAttempts s (s\<lparr>r_reconnecting := False, r_thr := (r_thr s)(t := None)\<rparr>)"
| tell: "race_step maxAttempts s (s\<lparr>r_told := True\<rparr>)"

text \<open>
  After \<open>Start\<close>: registered and listening, or reconnecting in the background, where the failed
  registration has left no connection or one that it closed.
\<close>

definition started_ok :: races where
  "started_ok = \<lparr>r_running = True, r_reconnecting = False, r_conn = Some 0, r_open = (\<lambda>c. c = 0), r_next = 1,
     r_told = False, r_gave_up = False, r_thr = [0 \<mapsto> Listening 0]\<rparr>"

definition started_failed :: races where
  "started_failed = \<lparr>r_running = False, r_reconnecting = False, r_conn = None, r_open = (\<lambda>c. False), r_next = 0,
     r_told = False, r_gave_up = False, r_thr = [0 \<mapsto> Spawned]\<rparr>"

definition started_closed :: races where
  "started_closed = started_failed\<lparr>r_conn := Some 0, r_next := 1\<rparr>"

inductive race_reachable :: "nat \<Rightarrow> races \<Rightarrow> bool" for maxAttempts where
  start_ok: "race_reachable maxAttempts started_ok"
| start_failed: "race_reachable maxAttempts started_failed"
| start_closed: "race_reachable maxAttempts started_closed"
| next_step: "race_reachable maxAttempts s \<Longrightarrow> race_step maxAttempts s s' \<Longrightarrow> race_reachable maxAttempts s'"

inductive_cases race_stepE: "race_step maxAttempts s s'"

section \<open>Invariant\<close>

text \<open>A listener owns \<open>running\<close> until it clears it; a reconnection owns \<open>reconnecting\<close>.\<close>

fun owns_running :: "pc \<Rightarrow> bool" where
  "owns_running (Listening c) = True"
| "owns_running EndReset = True"
| "owns_running _ = False"

fun owns_reconnecting :: "pc \<Rightarrow> bool" where
  "owns_reconnecting (Trying n) = True"
| "owns_reconnecting (Dialing n) = True"
| "owns_reconnecting (Streaming n c) = True"
| "owns_reconnecting Finishing = True"
| "owns_reconnecting _ = False"

fun past_test :: "pc \<Rightarrow> bool" where
  "past_test (Dialing n) = True"
| "past_test (Streaming n c) = True"
| "past_test _ = False"

fun at :: "(pc \<Rightarrow> bool) \<Rightarrow> pc option \<Rightarrow> bool" where
  "at P None = False"
| "at P (Some p) = P p"

definition holds :: "(pc \<Rightarrow> bool) \<Rightarrow> races \<Rightarrow> nat \<Rightarrow> bool" where
  "holds P s t \<longleftrightarrow> at P (r_thr s t)"

definition race_inv :: "races \<Rightarrow> bool" where
  "race_inv s \<longleftrightarrow>
     (\<forall>t u. holds owns_running s t \<longrightarrow> holds owns_running s u \<longrightarrow> t = u) \<and>
     (r_running s \<longleftrightarrow> (\<exists>t. holds owns_running s t)) \<and>
     (\<forall>t u. holds owns_reconnecting s t \<longrightarrow> holds owns_reconnecting s u \<longrightarrow> t = u) \<and>
     (r_reconnecting s \<longleftrightarrow> (\<exists>t. holds owns_reconnecting s t)) \<and>
     (\<forall>t. holds past_test s t \<longrightarrow> \<not> r_running s)"

lemma past_test_owns: "past_test p \<Longrightarrow> owns_reconnecting p"
  by (cases p) simp_all

lemma holds_past_test: "holds past_test s t \<Longrightarrow> holds owns_reconnecting s t"
  by (cases "r_thr s t") (auto simp: holds_def past_test_owns)

lemma close_conn_sel [simp]: "r_running (close_conn s) = r_running s" "r_reconnecting (close_conn s) = r_reconnecting s"
  "r_thr (close_conn s) = r_thr s"
  by (simp_all add: close_conn_def split: option.split)

lemma holds_upd: "r_thr s' = (r_thr s)(t := x) \<Longrightarrow> holds P s' = (holds P s)(t := at P x)"
  by (simp add: holds_def fun_eq_iff)

lemma holds_same: "at P x = at P (r_thr s t) \<Longrightarrow> (holds P s)(t := at P x) = holds P s"
  by (simp add: holds_def fun_eq_iff)

text \<open>Replacing one position keeps the invariant when it keeps what the position owns.\<close>

lemma race_inv_move:
  assumes "race_inv s" "r_thr s' = (r_thr s)(t := x)"
    and "r_running s' = r_running s" "r_reconnecting s' = r_reconnecting s"
    and "at owns_running x = at owns_running (r_thr s t)" "at owns_reconnecting x = at owns_reconnecting (r_thr s t)"
    and "at past_test x \<Longrightarrow> \<not> r_running s"
  shows "race_inv s'"
proof -
  have "holds owns_running s' = holds owns_running s" "holds owns_reconnecting s' = holds owns_reconnecting s"
    using holds_upd [OF assms(2)] holds_same assms(5,6) by simp_all
  moreover have p: "holds past_test s v \<Longrightarrow> \<not> r_running s" for v
    using assms(1) unfolding race_inv_def by blast
  have "holds past_test s' v \<longrightarrow> \<not> r_running s'" for v
    using p [of v] assms(3,7) by (auto simp: holds_upd [OF assms(2)] split: if_splits)
  ultimately show ?thesis using assms(1,3,4) by (simp add: race_inv_def)
qed

lemma holds_Some: "r_thr s t = Some p \<Longrightarrow> holds P s t = P p"
  by (simp add: holds_def)

lemma step_inv:
  assumes "race_step M s s'" "race_inv s"
  shows "race_inv s'"
  using assms(1)
proof (cases rule: race_step.cases)
  case (stream_end t c u)
  have "race_inv (s\<lparr>r_thr := (r_thr s)(t \<mapsto> EndReset)\<rparr>)"
    by (rule race_inv_move [OF assms(2), of _ t "Some EndReset"]) (simp_all add: stream_end)
  then show ?thesis
    by (rule race_inv_move [of _ _ u "Some Spawned"]) (use stream_end in auto)
next
  case (told_end t c)
  show ?thesis by (rule race_inv_move [OF assms(2), of _ t "Some EndReset"]) (simp_all add: told_end)
next
  case (panic_end t c)
  show ?thesis by (rule race_inv_move [OF assms(2), of _ t "Some EndReset"]) (simp_all add: panic_end)
next
  case (reset t)
  note u1 = holds_upd [of s' s t "Some EndClose"]
  have h: "holds P s' = (holds P s)(t := P EndClose)" for P
    using u1 [of P] by (simp add: reset(1))
  have o: "holds owns_running s t" by (simp add: holds_Some [OF reset(2)])
  then have "holds owns_running s v \<Longrightarrow> v = t" for v using assms(2) unfolding race_inv_def by blast
  then have none: "\<not> holds owns_running s' v" for v by (auto simp: h)
  have r: "holds owns_reconnecting s' = holds owns_reconnecting s"
    using holds_Some [OF reset(2), of owns_reconnecting] by (auto simp: h fun_eq_iff)
  show ?thesis using assms(2) none r by (simp add: race_inv_def reset(1))
next
  case (close t)
  show ?thesis by (rule race_inv_move [OF assms(2), of _ t None]) (simp_all add: close)
next
  case (cas_ok t)
  have h: "holds P s' = (holds P s)(t := P (Trying M))" for P
    using holds_upd [of s' s t "Some (Trying M)" P] by (simp add: cas_ok(1))
  have n: "\<not> holds owns_reconnecting s v" for v using assms(2) cas_ok(3) unfolding race_inv_def by blast
  have r: "holds owns_running s' = holds owns_running s" "holds past_test s' = holds past_test s"
    using holds_Some [OF cas_ok(2), of owns_running] holds_Some [OF cas_ok(2), of past_test] by (auto simp: h fun_eq_iff)
  have o: "holds owns_reconnecting s' v \<longleftrightarrow> v = t" for v using n by (simp add: h)
  have f: "r_running s' = r_running s" "r_reconnecting s'" by (simp_all add: cas_ok(1))
  show ?thesis using assms(2) unfolding race_inv_def f(1) r o using f(2) by blast
next
  case (cas_fail t)
  show ?thesis by (rule race_inv_move [OF assms(2), of _ t None]) (simp_all add: cas_fail)
next
  case (told_try t n)
  show ?thesis by (rule race_inv_move [OF assms(2), of _ t "Some Finishing"]) (simp_all add: told_try)
next
  case (give_up t)
  show ?thesis by (rule race_inv_move [OF assms(2), of _ t "Some Finishing"]) (simp_all add: give_up)
next
  case (already_running t n)
  show ?thesis by (rule race_inv_move [OF assms(2), of _ t "Some Finishing"]) (simp_all add: already_running)
next
  case (not_running t n)
  show ?thesis by (rule race_inv_move [OF assms(2), of _ t "Some (Dialing n)"]) (simp_all add: not_running)
next
  case (tls_fail t n)
  show ?thesis by (rule race_inv_move [OF assms(2), of _ t "Some (Trying n)"]) (simp_all add: tls_fail)
next
  case (dial_fail t n)
  show ?thesis by (rule race_inv_move [OF assms(2), of _ t "Some (Trying n)"]) (simp_all add: dial_fail)
next
  case (dial_ok t n)
  have "\<not> r_running s" using assms(2) holds_Some [OF dial_ok(2), of past_test] by (auto simp: race_inv_def)
  then show ?thesis
    by (intro race_inv_move [OF assms(2), of _ t "Some (Streaming n (r_next s))"]) (simp_all add: dial_ok)
next
  case (stream_fail t n c)
  show ?thesis by (rule race_inv_move [OF assms(2), of _ t "Some (Trying n)"]) (simp_all add: stream_fail)
next
  case (stream_ok t n c u)
  have ut: "u \<noteq> t" using stream_ok(2,3) by auto
  have h: "holds P s' v = (if v = u then P (Listening c) else if v = t then P Finishing else holds P s v)" for P v
    by (simp add: stream_ok(1) holds_def)
  have nr: "\<not> r_running s" using assms(2) holds_Some [OF stream_ok(2), of past_test] by (auto simp: race_inv_def)
  then have n: "\<not> holds owns_running s v" for v using assms(2) unfolding race_inv_def by blast
  have rt: "holds owns_reconnecting s t" by (simp add: holds_Some [OF stream_ok(2)])
  then have only: "holds owns_reconnecting s v \<longleftrightarrow> v = t" for v using assms(2) unfolding race_inv_def by blast
  have "\<not> holds past_test s' v" for v
    using only [of v] holds_past_test [of s v] by (auto simp: h)
  moreover have "holds owns_running s' v \<longleftrightarrow> v = u" "holds owns_reconnecting s' v \<longleftrightarrow> v = t" for v
    using n only ut stream_ok(3) by (auto simp: h)
  moreover have "r_reconnecting s" using assms(2) rt unfolding race_inv_def by blast
  ultimately show ?thesis by (simp add: race_inv_def) (simp add: stream_ok(1))
next
  case (finish t)
  have h: "holds P s' = (holds P s)(t := False)" for P
    using holds_upd [of s' s t None P] by (simp add: finish(1))
  have "holds owns_reconnecting s t" by (simp add: holds_Some [OF finish(2)])
  then have "holds owns_reconnecting s v \<Longrightarrow> v = t" for v using assms(2) unfolding race_inv_def by blast
  then have none: "\<not> holds owns_reconnecting s' v" for v by (auto simp: h)
  have r: "holds owns_running s' = holds owns_running s" "holds past_test s' = holds past_test s"
    using holds_Some [OF finish(2), of owns_running] holds_Some [OF finish(2), of past_test] by (auto simp: h fun_eq_iff)
  have f: "r_running s' = r_running s" "\<not> r_reconnecting s'" by (simp_all add: finish(1))
  show ?thesis using assms(2) unfolding race_inv_def f(1) r using none f(2) by blast
next
  case tell
  then have h: "holds P s' = holds P s" for P by (simp add: holds_def fun_eq_iff)
  have f: "r_running s' = r_running s" "r_reconnecting s' = r_reconnecting s" using tell by simp_all
  show ?thesis using assms(2) unfolding race_inv_def h f .
qed

lemma races_start_inv:
  "race_inv started_ok" "race_inv started_failed" "race_inv started_closed"
  by (auto simp: race_inv_def started_ok_def started_failed_def started_closed_def holds_def split: if_splits)

lemma reachable_inv: "race_reachable M s \<Longrightarrow> race_inv s"
  by (induction rule: race_reachable.induct) (auto intro: races_start_inv step_inv)

section \<open>Properties\<close>

lemma reaches:
  "race_reachable M s \<Longrightarrow> race_step M s s' \<Longrightarrow> s' = s'' \<Longrightarrow> race_reachable M s''"
  by (auto intro: race_reachable.next_step)

lemma dead_stays:
  assumes "race_step M s s'" "r_thr s = Map.empty"
  shows "s' = s\<lparr>r_told := True\<rparr>"
  using assms(1) by (cases rule: race_stepE) (simp_all add: assms(2))

text \<open>
  A listener whose stream ended has spawned its reconnection and has yet to clean up.
\<close>

definition ended :: races where
  "ended = started_ok\<lparr>r_thr := [0 \<mapsto> EndReset, 1 \<mapsto> Spawned]\<rparr>"

lemma ended_reachable: "race_reachable M ended"
  by (rule reaches [OF start_ok stream_end [of _ 0 0 1]]) (simp_all add: started_ok_def ended_def)

lemma lost_run:
  "race_reachable (Suc M) (started_ok\<lparr>r_running := False, r_open := (\<lambda>c. False), r_thr := Map.empty\<rparr>)"
proof -
  have 1: "race_reachable (Suc M) (ended\<lparr>r_reconnecting := True, r_thr := [0 \<mapsto> EndReset, 1 \<mapsto> Trying (Suc M)]\<rparr>)"
    by (rule reaches [OF ended_reachable cas_ok [of _ 1]]) (auto simp: ended_def started_ok_def)
  have 2: "race_reachable (Suc M) (ended\<lparr>r_reconnecting := True, r_thr := [0 \<mapsto> EndReset, 1 \<mapsto> Finishing]\<rparr>)"
    by (rule reaches [OF 1 already_running [of _ 1 M]]) (auto simp: ended_def started_ok_def)
  have 3: "race_reachable (Suc M) (ended\<lparr>r_thr := [0 \<mapsto> EndReset]\<rparr>)"
    by (rule reaches [OF 2 finish [of _ 1]]) (auto simp: ended_def started_ok_def fun_eq_iff)
  have 4: "race_reachable (Suc M) (ended\<lparr>r_running := False, r_thr := [0 \<mapsto> EndClose]\<rparr>)"
    by (rule reaches [OF 3 reset [of _ 0]]) (auto simp: ended_def started_ok_def)
  show ?thesis
    by (rule reaches [OF 4 close [of _ 0]]) (auto simp: ended_def started_ok_def close_conn_def fun_eq_iff)
qed

lemma closed_run:
  "race_reachable (Suc M) (started_ok\<lparr>r_reconnecting := True, r_conn := Some 1, r_open := (\<lambda>c. c = 0), r_next := 2,
     r_thr := [1 \<mapsto> Finishing, 2 \<mapsto> Listening 1]\<rparr>)"
proof -
  have 1: "race_reachable (Suc M) (ended\<lparr>r_running := False, r_thr := [0 \<mapsto> EndClose, 1 \<mapsto> Spawned]\<rparr>)"
    by (rule reaches [OF ended_reachable reset [of _ 0]]) (auto simp: ended_def started_ok_def)
  have 2: "race_reachable (Suc M) (ended\<lparr>r_running := False, r_reconnecting := True, r_thr := [0 \<mapsto> EndClose, 1 \<mapsto> Trying (Suc M)]\<rparr>)"
    by (rule reaches [OF 1 cas_ok [of _ 1]]) (auto simp: ended_def started_ok_def)
  have 3: "race_reachable (Suc M) (ended\<lparr>r_running := False, r_reconnecting := True, r_thr := [0 \<mapsto> EndClose, 1 \<mapsto> Dialing M]\<rparr>)"
    by (rule reaches [OF 2 not_running [of _ 1 M]]) (auto simp: ended_def started_ok_def)
  have 4: "race_reachable (Suc M) (ended\<lparr>r_running := False, r_reconnecting := True, r_conn := Some 1, r_open := (\<lambda>c. c < 2),
      r_next := 2, r_thr := [0 \<mapsto> EndClose, 1 \<mapsto> Streaming M 1]\<rparr>)"
    by (rule reaches [OF 3 dial_ok [of _ 1 M]]) (auto simp: ended_def started_ok_def fun_eq_iff)
  have 5: "race_reachable (Suc M) (ended\<lparr>r_running := True, r_reconnecting := True, r_conn := Some 1, r_open := (\<lambda>c. c < 2),
      r_next := 2, r_thr := [0 \<mapsto> EndClose, 1 \<mapsto> Finishing, 2 \<mapsto> Listening 1]\<rparr>)"
    by (rule reaches [OF 4 stream_ok [of _ 1 M 1 2]]) (auto simp: ended_def started_ok_def fun_eq_iff)
  show ?thesis
    by (rule reaches [OF 5 close [of _ 0]]) (auto simp: ended_def started_ok_def close_conn_def fun_eq_iff)
qed

text \<open>
  C12. In every interleaving of the client's goroutines the two atomic flags are locks: \<open>running\<close>
  is set exactly while one goroutine, and no other, listens or has yet to clear it;
  \<open>reconnecting\<close> is set exactly while one goroutine, and no other, is in the reconnection loop; and
  no goroutine opens a stream while a listener runs.
\<close>
theorem flags_are_locks:
  assumes "race_reachable M s"
  shows "(if r_running s then \<exists>!t. holds owns_running s t else \<nexists>t. holds owns_running s t) \<and>
    (if r_reconnecting s then \<exists>!t. holds owns_reconnecting s t else \<nexists>t. holds owns_reconnecting s t) \<and>
    \<not> (r_running s \<and> (\<exists>t. holds past_test s t))"
  using reachable_inv [OF assms] unfolding race_inv_def by auto

theorem flags_are_locks_witness: "\<exists>!t. holds owns_running ended t"
  using flags_are_locks [OF ended_reachable [of 1]] by (simp add: ended_def started_ok_def)

text \<open>
  C27. What the flags do not prevent.  A listener starts its reconnection before its deferred clean-up
  runs, so there is a run, with nobody asked to stop and attempts left, after which no goroutine
  exists: the reconnection found \<open>running\<close> still set and took it for success, then the
  listener ended, and nothing but a stop request can ever happen.  And there is a run in
  which the clean-up closes the connection of the listener that replaced it.
\<close>
theorem clean_up_races:
  "(\<exists>s. race_reachable (Suc M) s \<and> r_thr s = Map.empty \<and> \<not> r_told s \<and> \<not> r_gave_up s \<and>
      \<not> (\<exists>s'. race_step (Suc M) s s' \<and> s' \<noteq> s\<lparr>r_told := True\<rparr>)) \<and>
   (\<exists>s t c. race_reachable (Suc M) s \<and> r_thr s t = Some (Listening c) \<and> \<not> r_open s c \<and> \<not> r_told s)"
proof (intro conjI)
  let ?s = "started_ok\<lparr>r_running := False, r_open := (\<lambda>c. False), r_thr := Map.empty\<rparr>"
  have "r_thr ?s = Map.empty \<and> \<not> r_told ?s \<and> \<not> r_gave_up ?s" by (simp add: started_ok_def)
  moreover have "\<not> (\<exists>s'. race_step (Suc M) ?s s' \<and> s' \<noteq> ?s\<lparr>r_told := True\<rparr>)"
    using dead_stays [of "Suc M" ?s] by fastforce
  ultimately show "\<exists>s. race_reachable (Suc M) s \<and> r_thr s = Map.empty \<and> \<not> r_told s \<and> \<not> r_gave_up s \<and>
      \<not> (\<exists>s'. race_step (Suc M) s s' \<and> s' \<noteq> s\<lparr>r_told := True\<rparr>)"
    using lost_run by blast
next
  show "\<exists>s t c. race_reachable (Suc M) s \<and> r_thr s t = Some (Listening c) \<and> \<not> r_open s c \<and> \<not> r_told s"
    by (intro exI conjI, rule closed_run) (simp_all add: started_ok_def, force+)
qed

end
