(* ===== verification/Restart.thy ===== *)
theory Restart
  imports ClaimLife
begin

text \<open>
  A restart of the driver.  \<open>NewDeviceState\<close> discovers the devices, reads the environment
  into the package variables, rewrites the common CDI spec, cleans up config folders and opens the
  checkpoint.  The lemmas follow its writes to the disk; the property says that a restart
  re-establishes the invariant of ClaimLife and touches neither the records nor the mounted
  folders of the recorded claims.
\<close>

section \<open>The writes of the start-up\<close>

definition topo_path :: "Flags \<Rightarrow> world \<Rightarrow> string" where
  "topo_path config w = (let tf = TopologyFilepath (DiscoveryFlags config) in if tf = [] then GetTopologyFile w else tf)"

lemma WriteTopo_frame: "only_writes {comps f} w (snd (WriteTopo w f t))"
  using Create_frame [of w f]
  by (auto simp: WriteTopo_def only_writes_def same_os_def lookup_put split: prod.split option.split sum.split)

lemma GetPciTopology_frame:
  "only_writes {comps (if f = [] then GetTopologyFile w else f)} w (snd (GetPciTopology C w f))"
proof -
  let ?f = "if f = [] then GetTopologyFile w else f"
  have "snd (GetPciTopology C w f) = w \<or> (\<exists>t. snd (GetPciTopology C w f) = snd (WriteTopo w ?f t))"
    by (auto simp: GetPciTopology_def Let_def split: prod.split option.split sum.split)
  then show ?thesis
    using WriteTopo_frame [of ?f w] grows_only_writes [OF grows_refl] by auto
qed

lemma GetAllocatableDevices_frame:
  assumes "GetAllocatableDevices C w S ord tord g l d = (r, w')" "topologyFile d = topo_path config w"
  shows "only_writes {comps (topo_path config w)} w w'"
proof -
  have "w' = snd (GetPciTopology C w (topologyFile d))"
    using assms(1) by (auto simp: GetAllocatableDevices_def split: prod.splits sum.splits if_splits)
  moreover have "(if topologyFile d = [] then GetTopologyFile w else topologyFile d) = topo_path config w"
    by (auto simp: assms(2) topo_path_def Let_def)
  ultimately show ?thesis using GetPciTopology_frame [of "topologyFile d" w C] by simp
qed

lemma NewCDIHandler_ok:
  assumes "NewCDIHandler L r v w = (Inr h, v', w')"
  shows "cdi_root h = r \<and> grows w w' \<and>
    configHostPath v' = GetConfigHostPath w \<and> configContainerPath v' = GetConfigContainerPath w \<and>
    metricsHostPath v' = GetMetricsHostPath w \<and> metricsContainerPath v' = GetMetricsContainerPath w"
proof -
  obtain w1 where w1: "CreateFolderIfNotExists w (GetMetricsHostPath w) = (None, w1)"
      "CreateFolderIfNotExists w1 (GetConfigHostPath w) = (None, w')"
    and v: "v' = v\<lparr>configHostPath := GetConfigHostPath w, configContainerPath := GetConfigContainerPath w,
      metricsHostPath := GetMetricsHostPath w, metricsContainerPath := GetMetricsContainerPath w,
      senlibConfigGenerator := NewSenlibConfigGenerator w1\<rparr>" and h: "cdi_root h = r"
    using assms
    by (auto simp: NewCDIHandler_def InitConfigMount_def InitMetricsMountPath_def Let_def split: prod.splits option.splits)
  have "grows w w1" "grows w1 w'"
    using CreateFolder_grows [of w "GetMetricsHostPath w"] CreateFolder_grows [of w1 "GetConfigHostPath w"] w1 by simp_all
  with grows_trans v h show ?thesis by auto
qed

lemma NewDeviceState_ok:
  assumes "NewDeviceState D E config v s w = Some ((None, Some st), v1, s1, w4)"
  obtains d A w1 cdi w2 w3 e sA cs where
    "topologyFile d = topo_path config w"
    "GetAllocatableDevices (floats w) w (sys D) (orders E) (tier_ords E) (goarch E) (listed E) d = (Some (Inr A), w1)"
    "NewCDIHandler (libC D) (CDIRoot config) v w1 = (Inr cdi, v1, w2)"
    "CreateCommonSpecFile (libC D) cdi w2 = (None, w3)" "CleanZombieConfigFolders (libC D) cdi w3 = (e, w4)"
    "NewCheckpointManager (libK D) DriverPluginPath s = (None, sA)" "ListCheckpoints (libK D) sA = Inr cs"
    "st = \<lparr>ds_CDI = cdi, Allocatable = A, deviceDiscovery = d\<rparr>"
    "DriverPluginCheckpointFile \<in> set cs \<and> s1 = sA \<or>
     DriverPluginCheckpointFile \<notin> set cs \<and> SetNewCheckPoint D sA = (None, s1)"
proof -
  define d where "d = \<lparr>topologyFile = topo_path config w,
    disableVirtualFunction = DisableVirtualFunction (DiscoveryFlags config)\<rparr>"
  note def = NewDeviceState_def [of D E config v s w, unfolded Let_def NewDeviceDiscovery_def sum.case, folded topo_path_def [unfolded Let_def], folded d_def]
  obtain r w1 where a: "GetAllocatableDevices (floats w) w (sys D) (orders E) (tier_ords E) (goarch E) (listed E) d = (r, w1)"
    by fastforce
  obtain A where r: "r = Some (Inr A)"
    using assms a unfolding def by (cases r) (auto split: sum.splits)
  obtain c v' w2 where c: "NewCDIHandler (libC D) (CDIRoot config) v w1 = (c, v', w2)" by (metis prod.collapse)
  obtain cdi where cdi: "c = Inr cdi"
    using assms a r c unfolding def by (cases c) auto
  obtain e3 w3 where e3: "CreateCommonSpecFile (libC D) cdi w2 = (e3, w3)" by fastforce
  have n3: "e3 = None" using assms a r c cdi e3 unfolding def by (cases e3) auto
  obtain e w4' where z: "CleanZombieConfigFolders (libC D) cdi w3 = (e, w4')" by fastforce
  obtain em sA where m: "NewCheckpointManager (libK D) DriverPluginPath s = (em, sA)" by fastforce
  have nm: "em = None" using assms a r c cdi e3 n3 z m unfolding def by (cases em) auto
  obtain cs where cs: "ListCheckpoints (libK D) sA = Inr cs"
    using assms a r c cdi e3 n3 z m nm unfolding def by (auto split: sum.splits)
  obtain e5 s2 where s2: "SetNewCheckPoint D sA = (e5, s2)" by fastforce
  note all = assms [unfolded def] a r c cdi e3 n3 z m nm cs s2
  show thesis
  proof (rule that [of d A w1 cdi w2 w3 e sA cs])
    show "topologyFile d = topo_path config w" by (simp add: d_def)
    show "NewCDIHandler (libC D) (CDIRoot config) v w1 = (Inr cdi, v1, w2)" using all by (auto split: if_splits)
    show "CleanZombieConfigFolders (libC D) cdi w3 = (e, w4)" using all by (auto split: if_splits)
    show "st = \<lparr>ds_CDI = cdi, Allocatable = A, deviceDiscovery = d\<rparr>" using all by (auto split: if_splits)
    show "DriverPluginCheckpointFile \<in> set cs \<and> s1 = sA \<or>
       DriverPluginCheckpointFile \<notin> set cs \<and> SetNewCheckPoint D sA = (None, s1)"
      using all by (auto split: if_splits)
  qed (use all in simp_all)
qed

section \<open>Records\<close>

text \<open>Whatever becomes of the start-up.\<close>

lemma start_records:
  assumes "checkpoint_store (libK D)" "NewDeviceState D E config v s w = Some (r, v1, s1, w1)"
  shows "recorded (libK D) s1 u = recorded (libK D) s u"
proof -
  obtain em sA where m: "NewCheckpointManager (libK D) DriverPluginPath s = (em, sA)" by fastforce
  obtain e s2 where n: "CreateCheckpoint (libK D) DriverPluginCheckpointFile newCheckpoint sA = (e, s2)" by fastforce
  have "s1 \<in> {s, sA} \<or> (s1 = s2 \<and> (\<exists>cs. ListCheckpoints (libK D) sA = Inr cs \<and> DriverPluginCheckpointFile \<notin> set cs))"
    using assms(2) m n
    by (auto simp: NewDeviceState_def NewDeviceDiscovery_def SetNewCheckPoint_def Let_def split: prod.splits option.splits sum.splits if_splits)
  moreover have g: "recorded (libK D) sA u = recorded (libK D) s u"
    using checkpoint_store.new_manager [OF assms(1) m] by (simp add: recorded_def)
  moreover have "recorded (libK D) s2 u = recorded (libK D) sA u"
    if cs: "ListCheckpoints (libK D) sA = Inr cs" "DriverPluginCheckpointFile \<notin> set cs" for cs
  proof (cases e)
    case None
    have "recorded (libK D) sA u = None"
      using checkpoint_store.list_complete [OF assms(1) cs(1)] cs(2) by (auto simp: recorded_def split: sum.split)
    then show ?thesis using checkpoint_store.recorded_new [OF assms(1)] n None by simp
  qed (use checkpoint_store.recorded_fail [OF assms(1)] n in simp)
  ultimately show ?thesis by auto
qed

section \<open>Specs and mounted folders\<close>

lemma Join_path_string:
  assumes "r \<noteq> []" "plain_name x"
  shows "Join [r, x] = path_string (comps r @ [x])"
proof -
  have rt: "is_rooted (r @ CHR ''/'' # x) = is_rooted r" using assms(1) by (cases r) (simp_all add: is_rooted_def)
  have ne: "JoinStr (clean_comps r @ [x]) ''/'' \<noteq> []" using assms(2) by (intro JoinStr_snoc_ne) (simp add: plain_name_def)
  have "hd (clean_comps r @ [x]) \<in> set (clean_comps r @ [x])" by (rule hd_in_set) simp
  then have "CHR ''/'' \<notin> set (hd (clean_comps r @ [x]))"
    using clean_comps_no_slash [of _ r] assms(2) by (auto simp: plain_name_def)
  then have hd: "hd (clean_comps r @ [x]) \<noteq> ''/''" by auto
  have "Join [r, x] = Clean (r @ CHR ''/'' # x)" using assms by (simp add: Join_two plain_name_def)
  also have "\<dots> = (if is_rooted r then ''/'' @ JoinStr (clean_comps r @ [x]) ''/'' else JoinStr (clean_comps r @ [x]) ''/'')"
    using ne by (simp add: Clean_def Let_def rt clean_comps_append [OF assms])
  also have "\<dots> = path_string (comps r @ [x])" using hd by (simp add: path_string_def comps_def)
  finally show ?thesis .
qed

lemma Walk_mem:
  assumes "Walk w r = Inr paths" "lookup w q = Some (File c)" "strict_prefix (comps r) q"
  shows "path_string q \<in> set paths"
proof -
  have "(q, File c) \<in> set (files w)"
    using assms(2) by (auto simp: lookup_def obj_get_def split: if_splits dest: map_of_SomeD)
  then show ?thesis using assms(1,3) by (force simp: Walk_def Let_def strict_prefix_def split: sum.splits if_splits)
qed

context cdi_library
begin

lemma yaml_string: "r \<noteq> [] \<Longrightarrow> plain_name u \<Longrightarrow> yaml L r u = path_string (comps r @ [spec_name L u @ ''.yaml''])"
  using Join_suffix [of r "spec_name L u" "''.yaml''"] Join_path_string [of r "spec_name L u @ ''.yaml''"]
  by (simp add: yaml_def name_plain plain_name_ext)

lemma mounted_exists:
  assumes "spec_at L (cdi_root h) w u spec" "cdi_root h \<noteq> []" "plain_name u" "Walk w (cdi_root h) = Inr paths"
    and "mt \<in> set (ce_Mounts (spec_ContainerEdits spec))"
  shows "mnt_HostPath mt \<in> set (existing_mounts L h w paths)"
proof -
  have c: "comps (yaml L (cdi_root h) u) = comps (cdi_root h) @ [spec_name L u @ ''.yaml'']"
    by (rule comps_yaml [OF assms(2,3)])
  obtain f where "Stat w (yaml L (cdi_root h) u) = Inr (File f)" and l: "LibReadSpec L (yaml L (cdi_root h) u) w = Inr spec"
    using assms(1) by (auto simp: spec_at_def)
  then have "lookup w (comps (cdi_root h) @ [spec_name L u @ ''.yaml'']) = Some (File f)" using Stat_Inr c by fastforce
  then have "yaml L (cdi_root h) u \<in> set paths"
    using Walk_mem [OF assms(4)] by (simp add: yaml_string [OF assms(2,3)] strict_prefix_def)
  moreover have "yaml L (cdi_root h) u \<noteq> cdi_root h" using c by force
  ultimately show ?thesis
    using assms(5) l by (auto simp: existing_mounts_def intro!: bexI [of _ "yaml L (cdi_root h) u"])
qed

lemma CreateCommonSpecFile_frame:
  assumes "CreateCommonSpecFile L h w = (None, w')" "cdi_root h \<noteq> []"
  shows "only_writes {comps (yaml L (cdi_root h) ''common'')} w w'"
proof -
  obtain s where "WriteSpec L (cdi_root h) s (spec_name L ''common'') w = (None, w')"
    using assms(1) common_name by (auto simp: CreateCommonSpecFile_def Let_def cdiCommonDeviceName_def split: sum.splits)
  moreover have "plain_name ''common''" by (simp add: plain_name_def)
  ultimately show ?thesis using write_frame [OF assms(2) name_plain] by (simp add: comps_yaml assms(2))
qed

end

lemma CleanZombieConfigFolders_same_os:
  assumes "CleanZombieConfigFolders L h w = (e, w')"
  shows "same_os w w' \<and> (e \<noteq> None \<longrightarrow> w' = w)"
proof -
  have "same_os w (fold (\<lambda>n w'. if keep n then w' else deleteMountedPath (g n) (deleteMountedPath (f n) w')) ns v) = same_os w v"
    for keep and f g :: "string \<Rightarrow> string" and ns v
    by (induction ns arbitrary: v) simp_all
  then show ?thesis using assms by (auto simp: CleanZombieConfigFolders_def split: sum.splits)
qed

lemma apart_prefix_snoc: "apart r X \<Longrightarrow> prefix q (r @ [x]) \<Longrightarrow> \<not> prefix X q"
  unfolding apart_def by (metis prefix_order.trans prefix_snoc prefixI)

lemma zombie_frame:
  assumes "CleanZombieConfigFolders L h w = (e, w')" "no_faults w"
    and "C = GetConfigHostPath w" "M = GetMetricsHostPath w" "apart (comps C) (comps M)"
    and "\<not> prefix (comps C) q" "\<not> prefix (comps M) q"
  shows "lookup w' q = lookup w q"
proof (cases e)
  case None
  have look: "lookup w' q = lookup w q" if "q \<noteq> [''/'']"
    using zombie_lookup [OF assms(1) [unfolded None] assms(2-5)] that assms(6,7) append_prefixD by metis
  show ?thesis by (cases "q = [''/'']") (use look in simp_all)
qed (use CleanZombieConfigFolders_same_os [OF assms(1)] in simp)

lemma zombie_spares:
  assumes "CleanZombieConfigFolders L h w = (e, w')" "no_faults w"
    and "C = GetConfigHostPath w" "M = GetMetricsHostPath w" "apart (comps C) (comps M)"
    and "\<And>paths. Walk w (cdi_root h) = Inr paths \<Longrightarrow> Join [C, n] \<in> set (existing_mounts L h w paths)"
    and "prefix (comps C @ [n]) q \<or> prefix (comps M @ [n]) q"
  shows "lookup w' q = lookup w q"
proof (cases e)
  case None
  obtain paths where p: "Walk w (cdi_root h) = Inr paths" and
    look: "\<And>q. q \<noteq> [''/''] \<Longrightarrow> lookup w' q = (if \<exists>n \<in> set (child_names w (comps C)).
      Join [C, n] \<notin> set (existing_mounts L h w paths) \<and> (prefix (comps C @ [n]) q \<or> prefix (comps M @ [n]) q)
      then None else lookup w q)"
    by (rule zombie_lookup [OF assms(1) [unfolded None] assms(2-5)]) blast
  have "comps C \<noteq> []" "comps M \<noteq> []" using assms(5) by (auto simp: apart_def)
  then have nr: "q \<noteq> [''/'']" using assms(7) by (cases "comps C"; cases "comps M") (auto simp: prefix_def)
  have "n' = n" if "prefix (comps C @ [n']) q \<or> prefix (comps M @ [n']) q" for n'
    using that assms(5,7) prefix_snoc_same [of _ n' q n] prefix_snoc_apart [of "comps C" _ q "comps M"]
    unfolding apart_def by blast
  then show ?thesis unfolding look [OF nr] using assms(6) [OF p] by auto
qed (use CleanZombieConfigFolders_same_os [OF assms(1)] in simp)

section \<open>A restart keeps the invariant\<close>

text \<open>The package variables are those \<open>InitConfigMount\<close> would read now.\<close>

definition vars_from_env :: "'s machine \<Rightarrow> bool" where
  "vars_from_env m \<longleftrightarrow> vars_current m \<and>
     configHostPath (vars m) = GetConfigHostPath (os m) \<and> metricsHostPath (vars m) = GetMetricsHostPath (os m)"

definition separate :: "'s machine \<Rightarrow> string \<Rightarrow> bool" where
  "separate m tf \<longleftrightarrow> apart (comps (configHostPath (vars m))) (comps (metricsHostPath (vars m))) \<and>
     apart (comps (root_of m)) (comps tf) \<and>
     \<not> prefix (comps (configHostPath (vars m))) (comps tf) \<and> \<not> prefix (comps (metricsHostPath (vars m))) (comps tf)"

lemma env_paths_same:
  assumes "same_os w w'"
  shows "GetConfigHostPath w' = GetConfigHostPath w" "GetMetricsHostPath w' = GetMetricsHostPath w"
    "GetConfigContainerPath w' = GetConfigContainerPath w" "GetMetricsContainerPath w' = GetMetricsContainerPath w"
  by (simp_all add: GetConfigHostPath_def GetMetricsHostPath_def GetConfigContainerPath_def GetMetricsContainerPath_def
      GetEnvOrDefault_def Getenv_def same_osD [OF assms])

text \<open>What the start-up leaves of a claim's spec and of the folders it mounts.\<close>

lemma restart_disk:
  assumes "cdi_library (libC D)" "NewDeviceState D E config v s (os m) = Some ((None, Some st), v1, s1, w4)"
    and "wf_machine m" "vars_from_env m" "separate m (topo_path config (os m))" "CDIRoot config = root_of m"
  shows "same_os (os m) w4 \<and> cdi_root (ds_CDI st) = root_of m \<and>
    configHostPath v1 = configHostPath (vars m) \<and> configContainerPath v1 = configContainerPath (vars m) \<and>
    metricsHostPath v1 = metricsHostPath (vars m) \<and> metricsContainerPath v1 = metricsContainerPath (vars m)"
    (is ?env)
    and "spec_at (libC D) (root_of m) (os m) u spec \<Longrightarrow> plain_name u \<Longrightarrow> u \<noteq> ''common'' \<Longrightarrow>
      spec_at (libC D) (root_of m) w4 u spec"
    and "spec_at (libC D) (root_of m) (os m) u spec \<Longrightarrow> plain_name u \<Longrightarrow> u \<noteq> ''common'' \<Longrightarrow> own_mounts (vars m) spec \<Longrightarrow>
      mt \<in> set (ce_Mounts (spec_ContainerEdits spec)) \<Longrightarrow> prefix (comps (mnt_HostPath mt)) q \<Longrightarrow>
      lookup w4 q = lookup (os m) q \<or> (lookup (os m) q = None \<and> lookup w4 q = Some Dir)"
proof -
  let ?tf = "topo_path config (os m)" and ?C = "configHostPath (vars m)" and ?M = "metricsHostPath (vars m)"
  let ?common = "comps (yaml (libC D) (root_of m) ''common'')"
  note wf = assms(3) [unfolded wf_machine_def]
  obtain d A w1 cdi w2 w3 e sA cs where tf: "topologyFile d = ?tf"
    and a: "GetAllocatableDevices (floats (os m)) (os m) (sys D) (orders E) (tier_ords E) (goarch E) (listed E) d = (Some (Inr A), w1)"
    and c: "NewCDIHandler (libC D) (CDIRoot config) v w1 = (Inr cdi, v1, w2)"
    and common: "CreateCommonSpecFile (libC D) cdi w2 = (None, w3)" and z: "CleanZombieConfigFolders (libC D) cdi w3 = (e, w4)"
    and st: "st = \<lparr>ds_CDI = cdi, Allocatable = A, deviceDiscovery = d\<rparr>"
    by (rule NewDeviceState_ok [OF assms(2)])
  note h = NewCDIHandler_ok [OF c]
  have root: "cdi_root cdi = root_of m" using h assms(6) by simp
  have f1: "only_writes {comps ?tf} (os m) w1" by (rule GetAllocatableDevices_frame [OF a tf])
  have f3: "only_writes {?common} w2 w3"
    using cdi_library.CreateCommonSpecFile_frame [OF assms(1) common] wf by (simp add: root)
  have f: "only_writes {comps ?tf, ?common} (os m) w3"
    using only_writes_trans [OF f1 only_writes_trans [OF grows_only_writes [of w1 w2 "{}"] f3]] h by (simp add: insert_commute)
  have so: "same_os (os m) w3" "same_os (os m) w1" using f f1 by (simp_all add: only_writes_def)
  have so4: "same_os (os m) w4" using CleanZombieConfigFolders_same_os [OF z] same_os_trans [OF so(1)] by blast
  have nf: "no_faults w3" using no_faults_same [OF so(1)] wf by simp
  have env3: "?C = GetConfigHostPath w3" "?M = GetMetricsHostPath w3"
    using assms(4) env_paths_same [OF so(1)] by (simp_all add: vars_from_env_def)
  show ?env using h assms(4) so4 root env_paths_same [OF so(2)] st by (simp add: vars_from_env_def vars_current_def)
  have ap: "apart (comps ?C) (comps ?M)" "apart (comps (root_of m)) (comps ?tf)"
    using assms(5) by (simp_all add: separate_def)
  have yc: "comps (yaml (libC D) (root_of m) u) = comps (root_of m) @ [spec_name (libC D) u @ ''.yaml'']" if "plain_name u" for u
    using cdi_library.comps_yaml [OF assms(1)] wf that by simp
  have cy: "?common = comps (root_of m) @ [spec_name (libC D) ''common'' @ ''.yaml'']" by (rule yc) (simp add: plain_name_def)
  have at3: "spec_at (libC D) (root_of m) w3 u spec"
    if s: "spec_at (libC D) (root_of m) (os m) u spec" and u: "plain_name u" "u \<noteq> ''common''"
  proof (rule cdi_library.spec_at_only_writes [OF assms(1) s f])
    fix q assume q: "prefix q (comps (yaml (libC D) (root_of m) u))"
    have "q \<noteq> comps ?tf" using apart_prefix_snoc [OF ap(2)] q by (auto simp: yc [OF u(1)])
    moreover have "q \<noteq> ?common"
      using q u(2) cdi_library.name_inj [OF assms(1), of u "''common''"] u(1) by (auto simp: yc [OF u(1)] cy plain_name_def)
    ultimately show "q \<notin> {comps ?tf, ?common}" by simp
  qed
  show "spec_at (libC D) (root_of m) w4 u spec"
    if s: "spec_at (libC D) (root_of m) (os m) u spec" and u: "plain_name u" "u \<noteq> ''common''"
  proof (rule cdi_library.spec_at_same [OF assms(1) at3 [OF s u]])
    show "same_os w3 w4" using CleanZombieConfigFolders_same_os [OF z] by blast
    fix q assume "prefix q (comps (yaml (libC D) (root_of m) u))"
    then have "\<not> prefix (comps ?C) q" "\<not> prefix (comps ?M) q"
      using wf apart_prefix_snoc unfolding yc [OF u(1)] by blast+
    then show "lookup w4 q = lookup w3 q" by (rule zombie_frame [OF z nf env3 ap(1)])
  qed
  show "lookup w4 q = lookup (os m) q \<or> (lookup (os m) q = None \<and> lookup w4 q = Some Dir)"
    if s: "spec_at (libC D) (root_of m) (os m) u spec" and u: "plain_name u" "u \<noteq> ''common''"
      and own: "own_mounts (vars m) spec" and mt: "mt \<in> set (ce_Mounts (spec_ContainerEdits spec))"
      and q: "prefix (comps (mnt_HostPath mt)) q"
  proof -
    obtain n where n: "plain_name n" "map mnt_HostPath (ce_Mounts (spec_ContainerEdits spec)) = [Join [?C, n], Join [?M, n]]"
      using own by (auto simp: own_mounts_def)
    have "mnt_HostPath mt \<in> set (map mnt_HostPath (ce_Mounts (spec_ContainerEdits spec)))" using mt by simp
    then have pq: "prefix (comps ?C @ [n]) q \<or> prefix (comps ?M @ [n]) q"
      using q wf n(1) unfolding n(2) by (auto simp: comps_Join)
    have "Join [?C, n] \<in> set (map mnt_HostPath (ce_Mounts (spec_ContainerEdits spec)))" unfolding n(2) by simp
    then obtain mc where "mc \<in> set (ce_Mounts (spec_ContainerEdits spec))" "mnt_HostPath mc = Join [?C, n]" by auto
    then have "Join [?C, n] \<in> set (existing_mounts (libC D) cdi w3 paths)" if "Walk w3 (cdi_root cdi) = Inr paths" for paths
      using cdi_library.mounted_exists [OF assms(1) _ _ u(1) that] at3 [OF s u] wf root by fastforce
    then have "lookup w4 q = lookup w3 q" by (rule zombie_spares [OF z nf env3 ap(1) _ pq])
    moreover have "q \<notin> {comps ?tf, ?common}"
      using pq assms(5) wf unfolding cy separate_def by (auto dest: apart_not_child append_prefixD)
    ultimately show ?thesis using f unfolding only_writes_def by metis
  qed
qed

lemma restart_invariant:
  assumes "cdi_library (libC D)" "checkpoint_store (libK D)"
    and "NewDeviceState D E config v (store m) (os m) = Some ((None, Some st), v1, s1, w1)"
    and "wf_machine m" "vars_from_env m" "separate m (topo_path config (os m))" "CDIRoot config = root_of m"
    and "claims_have_specs D m" "recorded (libK D) (store m) ''common'' = None"
  shows "wf_machine \<lparr>dstate = st, vars = v1, store = s1, os = w1\<rparr> \<and>
    vars_from_env \<lparr>dstate = st, vars = v1, store = s1, os = w1\<rparr> \<and>
    claims_have_specs D \<lparr>dstate = st, vars = v1, store = s1, os = w1\<rparr>"
proof -
  let ?m = "\<lparr>dstate = st, vars = v1, store = s1, os = w1\<rparr>"
  note disk = restart_disk [OF assms(1,3-7)]
  have so: "same_os (os m) w1" and root: "root_of ?m = root_of m" using disk(1) by (simp_all add: root_of_def)
  have wf: "wf_machine ?m"
    using disk(1) assms(4) root no_faults_same [OF so] GetConfigFileName_same [OF so] same_osD [OF so]
    by (simp add: wf_machine_def)
  have env: "vars_from_env ?m"
    using disk(1) assms(5) env_paths_same [OF so] by (simp add: vars_from_env_def vars_current_def)
  have own: "own_mounts v1 spec = own_mounts (vars m) spec" for spec using disk(1) by (simp add: own_mounts_def)
  have "spec_for D ?m u (Some ds)" if r: "recorded (libK D) (store m) u = Some ds" for u ds
  proof -
    have "u \<noteq> ''common''" using r assms(9) by auto
    moreover have "spec_for D m u (Some ds)" using r assms(8) by (simp add: claims_have_specs_def)
    ultimately show ?thesis using disk(2) by (fastforce simp: spec_for_def own root)
  qed
  then have "claims_have_specs D ?m" by (simp add: claims_have_specs_def start_records [OF assms(2,3)])
  with wf env show ?thesis by simp
qed

section \<open>Property\<close>

text \<open>
  C2. A restart loses nothing: when a new process starts over the checkpoint and disk of an old one,
  in the same environment, the records are the same, every recorded claim still has its spec and
  names its devices, whatever the clean-up of config folders does the folders mounted by a
  recorded claim keep their content, and the new process is in a state from which the guarantees
  above hold again.
\<close>

theorem restart_keeps_claims:
  assumes "cdi_library (libC D)" "checkpoint_store (libK D)"
    and "NewDeviceState D E config v (store m) (os m) = Some ((None, Some st), v1, s1, w1)"
    and "wf_machine m" "vars_from_env m" "separate m (topo_path config (os m))" "CDIRoot config = root_of m"
    and "claims_have_specs D m" "recorded (libK D) (store m) ''common'' = None"
  shows "let m' = \<lparr>dstate = st, vars = v1, store = s1, os = w1\<rparr> in
    wf_machine m' \<and> vars_from_env m' \<and> claims_have_specs D m' \<and> recorded (libK D) s1 = recorded (libK D) (store m) \<and>
    (\<forall>u spec mt q. recorded (libK D) (store m) u \<noteq> None \<and> ReadSpec (libC D) (ds_CDI (dstate m)) (os m) u = Inr spec \<and>
       mt \<in> set (ce_Mounts (spec_ContainerEdits spec)) \<and> prefix (comps (mnt_HostPath mt)) q \<longrightarrow>
         lookup w1 q = lookup (os m) q \<or> (lookup (os m) q = None \<and> lookup w1 q = Some Dir))"
proof -
  have kept: "lookup w1 q = lookup (os m) q \<or> (lookup (os m) q = None \<and> lookup w1 q = Some Dir)"
    if r: "recorded (libK D) (store m) u \<noteq> None" and rd: "ReadSpec (libC D) (ds_CDI (dstate m)) (os m) u = Inr spec"
      and mt: "mt \<in> set (ce_Mounts (spec_ContainerEdits spec))" "prefix (comps (mnt_HostPath mt)) q" for u spec mt q
  proof -
    have "u \<noteq> ''common''" using r assms(9) by auto
    moreover obtain ds where "spec_for D m u ds" using r assms(8) by (auto simp: claims_have_specs_def)
    then obtain spec' where s: "spec_at (libC D) (root_of m) (os m) u spec'" "own_mounts (vars m) spec'" "plain_name u"
      by (auto simp: spec_for_def)
    moreover have "spec' = spec" using cdi_library.spec_at_ReadSpec [OF assms(1)] s(1) rd by (auto simp: root_of_def)
    ultimately show ?thesis using restart_disk(3) [OF assms(1,3-7), of u spec mt q] mt by simp
  qed
  have "recorded (libK D) s1 = recorded (libK D) (store m)"
    using start_records [OF assms(2,3)] by (simp add: fun_eq_iff)
  then show ?thesis unfolding Let_def using restart_invariant [OF assms] kept by simp blast
qed

definition restart_machine :: "ckpt_dir machine" where
  "restart_machine = sample_machine\<lparr>os := mount_world\<lparr>
     environ := [''CONFIG_HOSTPATH'' \<mapsto> ''/c'', ''SENTIENT_MAP_HOSTPATH'' \<mapsto> ''/m'']\<rparr>\<rparr>"

definition prepared_machine :: "ckpt_dir machine" where
  "prepared_machine = snd (Prepare sample_deps sample_claim restart_machine)"

definition restart_flags :: Flags where
  "restart_flags = \<lparr>DiscoveryFlags = \<lparr>TopologyFilepath = ''/none'', DisableVirtualFunction = False\<rparr>, NodeName = ''node'',
     CDIRoot = ''/r'', KubeletRegistrarDirectoryPath = ''/reg'', KubeletPluginsDirectoryPath = ''/plugins'', HealthCheckPort = -1\<rparr>"

definition restart_env :: disc_env where
  "restart_env = \<lparr>
     orders = sample_disc_orders, tier_ords = sample_orders [], goarch = ''amd64'', listed = Inr []\<rparr>"

lemma restart_facts:
  "recorded (libK sample_deps) (store prepared_machine) ''c1'' \<noteq> None"
  "recorded (libK sample_deps) (store prepared_machine) ''common'' = None"
  "vars_from_env prepared_machine" "separate prepared_machine (topo_path restart_flags (os prepared_machine))"
  "CDIRoot restart_flags = root_of prepared_machine"
  by code_simp+

lemma restart_succeeds:
  "(case NewDeviceState sample_deps restart_env restart_flags mount_vars (store prepared_machine) (os prepared_machine) of
      Some ((None, Some st), v1, s1, w1) \<Rightarrow> True | _ \<Rightarrow> False)"
  by code_simp

lemma prepared_wf: "wf_machine prepared_machine"
  and prepared_inv: "claims_have_specs sample_deps prepared_machine"
proof -
  have sel: "store restart_machine = store sample_machine" "dstate restart_machine = dstate sample_machine"
    "vars restart_machine = vars sample_machine"
    by (simp_all add: restart_machine_def)
  have "no_faults (os restart_machine)" "GetConfigFileName (os restart_machine) = GetConfigFileName mount_world"
    by (simp_all add: restart_machine_def mount_world_def no_faults_def GetConfigFileName_def GetEnvOrDefault_def Getenv_def sample_world_def)
  then have wf: "wf_machine restart_machine"
    using sample_wf by (simp add: wf_machine_def root_of_def sel restart_machine_def sample_machine_def)
  have inv: "claims_have_specs sample_deps restart_machine" by (simp add: claims_have_specs_def sel sample_unrecorded)
  have "claim_steps sample_deps restart_machine prepared_machine"
    unfolding prepared_machine_def
    using Prepare_steps [OF sample_cdi wf _ prod.collapse [symmetric], of sample_claim]
    by (simp add: sample_claim_def plain_name_def)
  from steps_invariant [OF this sample_cdi sample_store wf inv]
  show "wf_machine prepared_machine" "claims_have_specs sample_deps prepared_machine" by simp_all
qed

theorem restart_keeps_claims_witness:
  "\<exists>st v1 s1 w1. NewDeviceState sample_deps restart_env restart_flags mount_vars (store prepared_machine) (os prepared_machine) =
       Some ((None, Some st), v1, s1, w1) \<and>
     recorded (libK sample_deps) s1 ''c1'' \<noteq> None \<and>
     claims_have_specs sample_deps \<lparr>dstate = st, vars = v1, store = s1, os = w1\<rparr>"
proof -
  let ?r = "NewDeviceState sample_deps restart_env restart_flags mount_vars (store prepared_machine) (os prepared_machine)"
  obtain st v1 s1 w1 where r: "?r = Some ((None, Some st), v1, s1, w1)"
    using restart_succeeds by (auto split: option.splits prod.splits)
  from restart_keeps_claims [OF sample_cdi sample_store r prepared_wf restart_facts(3-5) prepared_inv restart_facts(2)] restart_facts(1)
  have "claims_have_specs sample_deps \<lparr>dstate = st, vars = v1, store = s1, os = w1\<rparr>" "recorded (libK sample_deps) s1 ''c1'' \<noteq> None"
    by (simp_all add: Let_def)
  with r show ?thesis by blast
qed

end
