(* ===== verification/Plugin.thy ===== *)
theory Plugin
  imports Driver Restart "HOL-Library.Multiset"
begin

text \<open>
  \<^verbatim>\<open>cmd/spyre-dra-plugin/main.go\<close>, from \<open>RunPlugin\<close> on: the directories, the
  driver, the wait for the end of the context and the shutdown.  The command-line parser and the
  Kubernetes client it configures are libraries; their outcome is the configuration.  The property
  carries the guarantees of Restart to the whole process.
\<close>

section \<open>RunPlugin\<close>

definition make_directories :: "Flags \<Rightarrow> world \<Rightarrow> err option \<times> world" where
  "make_directories config w =
     (case MkdirAll w (configDriverPluginPath config) of
        (Some e, w1) \<Rightarrow> (Some e, w1)
      | (None, w1) \<Rightarrow>
          (case Stat w1 (CDIRoot config) of
             Inl NotExist \<Rightarrow> MkdirAll w1 (CDIRoot config)
           | Inl e \<Rightarrow> (Some e, w1)
           | Inr (File c) \<Rightarrow> (Some (Msg ''path for cdi file generation is not a directory''), w1)
           | Inr Dir \<Rightarrow> (None, w1)))"

text \<open>
  The error, and the driver that ran with the parts stopped at its end.  The cause of the
  context's end is only logged.
\<close>

definition RunPlugin ::
    "'s deps \<Rightarrow> disc_env \<Rightarrow> driver_env \<Rightarrow> Flags \<Rightarrow> config_vars \<Rightarrow> 's \<Rightarrow> world \<Rightarrow>
       ((err option \<times> (driver \<times> part list) option) \<times> config_vars \<times> 's \<times> world) option" where
  "RunPlugin D E X config v s w =
     (case make_directories config w of
        (Some e, w1) \<Rightarrow> Some ((Some e, None), v, s, w1)
      | (None, w1) \<Rightarrow>
          (case NewDriver D E X config v s w1 of
             None \<Rightarrow> None
           | Some (Inl e, v2, s2, w2) \<Rightarrow> Some ((Some e, None), v2, s2, w2)
           | Some (Inr d, v2, s2, w2) \<Rightarrow> Some ((None, Some (d, Shutdown d)), v2, s2, w2)))"

section \<open>Lemmas\<close>

lemma make_directories_grows: "grows w (snd (make_directories config w))"
proof -
  obtain e w1 where m: "MkdirAll w (configDriverPluginPath config) = (e, w1)" by fastforce
  have "grows w w1" using MkdirAll_grows [of w "configDriverPluginPath config"] m by simp
  moreover have "grows w1 (snd (MkdirAll w1 (CDIRoot config)))" by (rule MkdirAll_grows)
  ultimately show ?thesis
    using grows_trans m by (auto simp: make_directories_def split: option.split sum.split err.split node.split)
qed

lemma NewDriver_ok:
  assumes "NewDriver D E X config v s w = Some (Inr d, v1, s1, w1)"
  obtains ord ord1 ord2 where "NewDeviceState D E config v s w = Some ((None, Some (d_state d)), v1, s1, w1)"
    "ext_orders X = (ord, ord1, ord2)" "ext_start X = None" "ext_publish X = None"
    "d_published d = Some (NodeName config, Devices_of ord (d_state d))"
    "d_healthcheck d \<noteq> None \<longleftrightarrow> HealthCheckPort config \<ge> 0"
    "d_deviceHealthy d \<noteq> None \<longleftrightarrow>
       \<not> is_err (NewDeviceHealthMonitor (ext_proto X) (sys D) (ext_socket X) w1 ord1 ord2 (Allocatable (d_state d)))"
proof -
  obtain ord ord1 ord2 where X: "ext_orders X = (ord, ord1, ord2)" by (metis prod.collapse)
  obtain e st v' s' w' where n: "NewDeviceState D E config v s w = Some ((e, st), v', s', w')"
    using assms by (cases "NewDeviceState D E config v s w") (auto simp: NewDriver_def)
  obtain st' where st: "e = None" "st = Some st'"
    using assms n by (cases e; cases st) (simp_all add: NewDriver_def)
  have start: "ext_start X = None" using assms n st by (cases "ext_start X") (simp_all add: NewDriver_def)
  let ?h = "if HealthCheckPort config \<ge> 0 then map_sum id Some (StartHealthcheck (ext_listen X) (ext_newClient X) config)
             else Inr None"
  obtain hc where hc: "?h = Inr hc"
    using assms n st start by (cases ?h) (simp_all only: NewDriver_def option.case prod.case sum.case option.inject prod.inject sum.distinct simp_thms)
  have hp: "hc \<noteq> None \<longleftrightarrow> HealthCheckPort config \<ge> 0"
    using hc by (cases "StartHealthcheck (ext_listen X) (ext_newClient X) config") (auto split: if_splits)
  have pub: "ext_publish X = None"
    using assms n st start hc X by (cases "ext_publish X") (simp_all add: NewDriver_def publishResources_def)
  note run = assms [unfolded NewDriver_def, simplified n st start X option.case prod.case hc sum.case, simplified publishResources_def pub option.case prod.case Let_def]
  show thesis
  proof (cases "NewDeviceHealthMonitor (ext_proto X) (sys D) (ext_socket X) w' ord1 ord2 (Allocatable st')")
    case (Inl x)
    with run have "d = \<lparr>d_state = st', d_healthcheck = hc, d_deviceHealthy = None, d_nodeName = NodeName config,
        d_published = Some (NodeName config, Devices_of ord st'), d_reconnecting = False\<rparr>" "v' = v1" "s' = s1" "w' = w1"
      by auto
    then show thesis using n st X start pub hp Inl by (intro that [of ord ord1 ord2]) simp_all
  next
    case (Inr monitor)
    obtain e2 b monitor1 where m: "StartMonitor (ext_register X) monitor = (e2, b, monitor1)" by (metis prod.collapse)
    with run Inr have "d = \<lparr>d_state = st', d_healthcheck = hc, d_deviceHealthy = Some monitor1, d_nodeName = NodeName config,
        d_published = Some (NodeName config, Devices_of ord st'), d_reconnecting = b\<rparr>" "v' = v1" "s' = s1" "w' = w1"
      by (cases e2; simp)+
    then show thesis using n st X start pub hp Inr by (intro that [of ord ord1 ord2]) simp_all
  qed
qed

lemma NewDriver_records:
  assumes "checkpoint_store (libK D)" "NewDriver D E X config v s w = Some (r, v1, s1, w1)"
  shows "recorded (libK D) s1 u = recorded (libK D) s u"
proof -
  obtain q v' s' w' where n: "NewDeviceState D E config v s w = Some (q, v', s', w')"
    using assms(2) by (cases "NewDeviceState D E config v s w") (auto simp: NewDriver_def)
  have "s1 = s'"
    using assms(2) n
    by (auto simp: NewDriver_def publishResources_def Let_def split: prod.splits option.splits sum.splits)
  then show ?thesis using start_records [OF assms(1) n] by simp
qed

text \<open>
  The files the topology may be read from, or written to in pseudo mode: the configured one, or
  where none is configured those that \<open>GetTopologyFile\<close> chooses from.
\<close>

definition topo_candidates :: "Flags \<Rightarrow> world \<Rightarrow> string list" where
  "topo_candidates config w = (let tf = TopologyFilepath (DiscoveryFlags config) in
     if tf \<noteq> [] then [tf]
     else [MetadataTopologyFilepath, GeneratedTopologyFilepath, Join [DefaultTopologyFolder, GetNodeName w]])"

lemma topo_path_candidate:
  assumes "same_os w w'"
  shows "topo_path config w' \<in> set (topo_candidates config w)"
proof -
  have "GetNodeName w' = GetNodeName w" by (simp add: GetNodeName_def LookupEnv_def same_osD [OF assms] split: option.split)
  then show ?thesis by (simp add: topo_path_def topo_candidates_def GetTopologyFile_def Let_def)
qed

lemma Devices_of_mset:
  assumes "range_order ord (Allocatable st)"
  shows "mset (Devices_of ord st) = {#DeepCopy (the (Allocatable st k)). k \<in># mset_set (dom (Allocatable st))#}"
proof -
  have "List.map_filter (Allocatable st) ord = map (the \<circ> Allocatable st) ord"
    using range_orderD(1) [OF assms] by (auto simp: List.map_filter_def filter_True dom_def)
  moreover have "mset ord = mset_set (dom (Allocatable st))"
    using range_orderD [OF assms] mset_set_set by metis
  ultimately show ?thesis by (simp add: Devices_of_def comp_def flip: multiset.map_comp)
qed

lemma machine_grows:
  assumes "cdi_library (libC D)" "wf_machine m" "vars_from_env m" "claims_have_specs D m" "grows (os m) w"
  shows "wf_machine (m\<lparr>os := w\<rparr>) \<and> vars_from_env (m\<lparr>os := w\<rparr>) \<and> claims_have_specs D (m\<lparr>os := w\<rparr>)"
proof -
  have so: "same_os (os m) w" using assms(5) by (simp add: grows_def)
  have "spec_for D (m\<lparr>os := w\<rparr>) u ds" if "spec_for D m u ds" for u ds
    by (rule spec_for_os [OF that])
      (auto simp: root_of_def intro: cdi_library.spec_at_only_writes [OF assms(1) _ grows_only_writes [OF assms(5), of "{}"]])
  then show ?thesis
    using wf_machine_same [OF assms(2), of "m\<lparr>os := w\<rparr>"] assms(3,4) so env_paths_same [OF so]
    by (simp add: root_of_def vars_from_env_def vars_current_def claims_have_specs_def)
qed

section \<open>Property\<close>

text \<open>
  C3. The plugin as a process.  However a run ends, in an error or a shutdown, its start leaves
  the checkpoint's records as they were.  A start over the disk of an earlier process that
  succeeds leaves every recorded claim with its spec and the machine well formed, publishes each
  allocatable device exactly once under the node's name before anything reports health, runs the
  health service iff its port is not negative, and ends by stopping the device health monitor and
  the health service, where they run, before the kubelet helper.  The order in which the devices
  are published is that of a range over the map, so any order of its keys; the file the topology
  may be read from lies outside the folders of the claims.
\<close>

theorem plugin_start:
  assumes "cdi_library (libC D)" "checkpoint_store (libK D)"
    and "RunPlugin D E X config v (store m) (os m) = Some ((r, outcome), v1, s1, w1)"
    and "wf_machine m" "vars_from_env m" "list_all (separate m) (topo_candidates config (os m))"
    and "CDIRoot config = root_of m" "claims_have_specs D m" "recorded (libK D) (store m) ''common'' = None"
    and "\<forall>d parts. outcome = Some (d, parts) \<longrightarrow> range_order (fst (ext_orders X)) (Allocatable (d_state d))"
  shows "recorded (libK D) s1 = recorded (libK D) (store m) \<and>
    (case outcome of
       None \<Rightarrow> r \<noteq> None
     | Some (d, parts) \<Rightarrow>
         let m' = \<lparr>dstate = d_state d, vars = v1, store = s1, os = w1\<rparr> in
         r = None \<and> wf_machine m' \<and> vars_from_env m' \<and> claims_have_specs D m' \<and>
         (\<exists>devs. d_published d = Some (NodeName config, devs) \<and>
            mset devs = {#DeepCopy (the (Allocatable (d_state d) k)). k \<in># mset_set (dom (Allocatable (d_state d)))#}) \<and>
         parts = (if d_deviceHealthy d = None then [] else [DeviceHealth]) @
           (if HealthCheckPort config < 0 then [] else [HealthService]) @ [KubeletHelper])"
proof -
  obtain e w0 where w0: "make_directories config (os m) = (e, w0)" by fastforce
  have g: "grows (os m) w0" using make_directories_grows [of "os m" config] w0 by simp
  show ?thesis
  proof (cases e)
    case (Some x)
    then show ?thesis using assms(3) w0 by (auto simp: RunPlugin_def)
  next
    case None
    obtain q v2 s2 w2 where q: "NewDriver D E X config v (store m) w0 = Some (q, v2, s2, w2)"
      using assms(3) w0 None by (cases "NewDriver D E X config v (store m) w0") (auto simp: RunPlugin_def)
    have out: "s1 = s2" "v1 = v2" "w1 = w2" "r = (case q of Inl e \<Rightarrow> Some e | Inr d \<Rightarrow> None)"
      "outcome = (case q of Inl e \<Rightarrow> None | Inr d \<Rightarrow> Some (d, Shutdown d))"
      using assms(3) w0 None q by (auto simp: RunPlugin_def split: sum.splits)
    have rec: "recorded (libK D) s1 = recorded (libK D) (store m)"
      using NewDriver_records [OF assms(2) q] out(1) by (simp add: fun_eq_iff)
    show ?thesis
    proof (cases q)
      case (Inl x)
      then show ?thesis using out rec by simp
    next
      case (Inr d)
      obtain ord ord1 ord2 where n: "NewDeviceState D E config v (store m) w0 = Some ((None, Some (d_state d)), v2, s2, w2)"
        and X: "ext_orders X = (ord, ord1, ord2)"
        and d: "d_published d = Some (NodeName config, Devices_of ord (d_state d))"
          "d_healthcheck d \<noteq> None \<longleftrightarrow> HealthCheckPort config \<ge> 0"
        by (rule NewDriver_ok [OF q [unfolded Inr]])
      let ?m = "m\<lparr>os := w0\<rparr>"
      have sep: "separate ?m (topo_path config w0)"
        using assms(6) topo_path_candidate [of "os m" w0 config] g
        by (auto simp: list_all_iff grows_def separate_def root_of_def)
      note wf = machine_grows [OF assms(1,4,5,8) g]
      have n': "NewDeviceState D E config v (store ?m) (os ?m) = Some ((None, Some (d_state d)), v2, s2, w2)" using n by simp
      note inv = restart_invariant [OF assms(1,2) n' _ _ _ _ _ _]
      have "let m' = \<lparr>dstate = d_state d, vars = v1, store = s1, os = w1\<rparr> in
          wf_machine m' \<and> vars_from_env m' \<and> claims_have_specs D m'"
        using inv wf sep assms(7,9) out by (simp add: root_of_def Let_def)
      moreover have "Shutdown d = (if d_deviceHealthy d = None then [] else [DeviceHealth]) @
           (if HealthCheckPort config < 0 then [] else [HealthService]) @ [KubeletHelper]"
        using d(2) by (auto simp: Shutdown_def)
      moreover have "mset (Devices_of ord (d_state d)) =
          {#DeepCopy (the (Allocatable (d_state d) k)). k \<in># mset_set (dom (Allocatable (d_state d)))#}"
        using assms(10) out(5) Inr X by (intro Devices_of_mset) simp
      ultimately show ?thesis using rec d(1) out Inr by (simp add: Let_def)
    qed
  qed
qed

definition plugin_flags :: Flags where
  "plugin_flags = restart_flags\<lparr>DiscoveryFlags := \<lparr>TopologyFilepath = [], DisableVirtualFunction = False\<rparr>\<rparr>"

definition plugin_disc :: disc_env where
  "plugin_disc = restart_env\<lparr>listed := Inr [hw_device]\<rparr>"

definition plugin_env :: driver_env where
  "plugin_env = \<lparr>ext_start = None, ext_listen = (\<lambda>a. None), ext_newClient = (\<lambda>a. None), ext_publish = None,
     ext_proto = sample_proto, ext_socket = (\<lambda>n. False),
     ext_orders = ([''0000-1a-00-0''], [''0000-1a-00-0''], [''0000-1a-00-0'']), ext_register = bad_env\<rparr>"

text \<open>A host with one device bound to \<open>vfio-pci\<close>; the topology file is not configured.\<close>

definition plugin_deps :: "ckpt_dir deps" where
  "plugin_deps = sample_deps\<lparr>sys := (sample_sysfs ''7'')\<lparr>Readlink := (\<lambda>p.
     if p = ''/sys/bus/pci/devices/0000:1a:00.0/driver'' then Inr ''/sys/bus/pci/drivers/vfio-pci'' else Inl NotExist)\<rparr>\<rparr>"

definition plugin_run :: "((err option \<times> (driver \<times> part list) option) \<times> config_vars \<times> ckpt_dir \<times> world) option" where
  "plugin_run = RunPlugin plugin_deps plugin_disc plugin_env plugin_flags mount_vars (store prepared_machine) (os prepared_machine)"

text \<open>The outcome of the sample run, evaluated: it succeeds, with that one device.\<close>

lemma plugin_runs:
  "(case plugin_run of
      Some ((None, Some (d, parts)), r) \<Rightarrow> \<not> Option.is_none (Allocatable (d_state d) k) \<longleftrightarrow> k = ''0000-1a-00-0''
    | _ \<Rightarrow> False)"
  by code_simp simp

lemma plugin_facts:
  "cdi_library (libC plugin_deps)" "checkpoint_store (libK plugin_deps)" "claims_have_specs plugin_deps prepared_machine"
  "recorded (libK plugin_deps) = recorded (libK sample_deps)"
  using sample_cdi sample_store prepared_inv
  by (simp_all add: plugin_deps_def claims_have_specs_def spec_for_def)

lemma plugin_separate:
  "list_all (separate prepared_machine) (topo_candidates plugin_flags (os prepared_machine))"
  "CDIRoot plugin_flags = root_of prepared_machine"
  by code_simp+

theorem plugin_start_witness:
  "\<exists>d parts v1 s1 w1 devs. plugin_run = Some ((None, Some (d, parts)), v1, s1, w1) \<and>
     claims_have_specs plugin_deps \<lparr>dstate = d_state d, vars = v1, store = s1, os = w1\<rparr> \<and>
     recorded (libK plugin_deps) s1 ''c1'' \<noteq> None \<and> last parts = KubeletHelper \<and>
     d_published d = Some (''node'', devs) \<and> size (mset devs) = 1"
proof -
  obtain d parts v1 s1 w1 where r: "plugin_run = Some ((None, Some (d, parts)), v1, s1, w1)"
    using plugin_runs [of "[]"] by (auto split: option.splits prod.splits)
  have A: "dom (Allocatable (d_state d)) = {''0000-1a-00-0''}"
    using plugin_runs [unfolded r] by (auto simp: Option.is_none_def dom_def)
  have order: "\<forall>d' parts'. Some (d, parts) = Some (d', parts') \<longrightarrow> range_order (fst (ext_orders plugin_env)) (Allocatable (d_state d'))"
    using A by (simp add: plugin_env_def range_order_def)
  have rec: "recorded (libK plugin_deps) (store prepared_machine) ''common'' = None"
    using restart_facts(2) plugin_facts(4) by simp
  obtain devs where devs: "d_published d = Some (''node'', devs)"
      "mset devs = {#DeepCopy (the (Allocatable (d_state d) k)). k \<in># mset_set (dom (Allocatable (d_state d)))#}"
    and inv: "claims_have_specs plugin_deps \<lparr>dstate = d_state d, vars = v1, store = s1, os = w1\<rparr>"
      "recorded (libK plugin_deps) s1 = recorded (libK plugin_deps) (store prepared_machine)" "last parts = KubeletHelper"
    using plugin_start [OF plugin_facts(1,2) r [unfolded plugin_run_def] prepared_wf restart_facts(3) plugin_separate plugin_facts(3) rec order]
    by (auto simp: Let_def plugin_flags_def restart_flags_def simp del: mset_map)
  have "size (mset devs) = 1" using devs(2) A by simp
  moreover have "recorded (libK plugin_deps) s1 ''c1'' \<noteq> None" using inv(2) restart_facts(1) plugin_facts(4) by simp
  ultimately show ?thesis using r inv(1,3) devs(1) by blast
qed

end
