(* ===== verification/CliFlags.thy ===== *)
theory CliFlags
  imports Plugin
begin

text \<open>
  The command line: \<^verbatim>\<open>cmd/spyre-dra-plugin/main.go\<close> up to \<open>RunPlugin\<close>, and the
  flag lists and client configuration of \<^verbatim>\<open>pkg/flags\<close>.  Parsing is the CLI library's and
  making clients is client-go's; what they answer are arguments.
\<close>

section \<open>Flags\<close>

datatype flag_value = StrFlag string | IntFlag int | FloatFlag int | BoolFlag bool | GenericFlag   \<comment> \<open>the default; floats here are whole\<close>

record cli_flag =
  fl_name :: string
  fl_env :: "string list"
  fl_default :: flag_value
  fl_required :: bool

definition flag :: "string \<Rightarrow> string \<Rightarrow> flag_value \<Rightarrow> cli_flag" where
  "flag n e d = \<lparr>fl_name = n, fl_env = [e], fl_default = d, fl_required = False\<rparr>"

definition KubeClientFlags :: "cli_flag list" where
  "KubeClientFlags = [flag ''kubeconfig'' ''KUBECONFIG'' (StrFlag []), flag ''kube-api-qps'' ''KUBE_API_QPS'' (FloatFlag 5),
     flag ''kube-api-burst'' ''KUBE_API_BURST'' (IntFlag 10)]"

definition DiscoveryConfigFlags :: "cli_flag list" where
  "DiscoveryConfigFlags = [flag ''topology-file'' ''TOPOLOGY_FILE'' (StrFlag []),
     flag ''disable-virtual-function'' ''DISABLE_VIRTUAL_FUNCTION'' (BoolFlag False)]"

text \<open>Of the logging library's flags only the names matter here.\<close>

definition env_name :: "string \<Rightarrow> string" where
  "env_name n = map (\<lambda>c. upper (if c = CHR ''-'' then CHR ''_'' else c)) n"

definition pflagToCLI :: "string \<Rightarrow> cli_flag" where
  "pflagToCLI n = \<lparr>fl_name = n, fl_env = [env_name n], fl_default = GenericFlag, fl_required = False\<rparr>"

definition LoggingFlags :: "string list \<Rightarrow> cli_flag list" where
  "LoggingFlags libraryFlags = map pflagToCLI (libraryFlags @ [''feature-gates''])"

definition newAppFlags :: "string \<Rightarrow> string \<Rightarrow> string list \<Rightarrow> cli_flag list" where
  "newAppFlags registryDir pluginsDir loggingFlags =
     [(flag ''node-name'' ''NODE_NAME'' (StrFlag []))\<lparr>fl_required := True\<rparr>,
      flag ''cdi-root'' ''CDI_ROOT'' (StrFlag ''/etc/cdi''),
      flag ''kubelet-registrar-directory-path'' ''KUBELET_REGISTRAR_DIRECTORY_PATH'' (StrFlag registryDir),
      flag ''kubelet-plugins-directory-path'' ''KUBELET_PLUGINS_DIRECTORY_PATH'' (StrFlag pluginsDir),
      flag ''healthcheck-port'' ''HEALTHCHECK_PORT'' (IntFlag (-1))] @
     KubeClientFlags @ LoggingFlags loggingFlags @ DiscoveryConfigFlags"

section \<open>Logging\<close>

text \<open>
  The feature gate and the logging library are arguments; a gate is a value, and changing it
  returns the changed one.  \<open>Must\<close> panics on an error.
\<close>

record ('f, 'l) logs_lib =
  NewFeatureGate :: 'f
  NewLoggingConfiguration :: 'l
  AddFeatureGates :: "'f \<Rightarrow> err option \<times> 'f"
  SetFromMap :: "(string \<times> bool) list \<Rightarrow> 'f \<Rightarrow> err option \<times> 'f"
  ContextualLogging :: string
  ValidateAndApply :: "'l \<Rightarrow> 'f \<Rightarrow> err option"

record ('f, 'l) LoggingConfig =
  featureGate :: 'f
  lc_config :: 'l

definition Must :: "err option \<times> 'f \<Rightarrow> err + 'f" where
  "Must r = (case r of (Some e, g) \<Rightarrow> Inl (GoPanic ''error in initialization'') | (None, g) \<Rightarrow> Inr g)"

definition NewLoggingConfig :: "('f, 'l) logs_lib \<Rightarrow> err + ('f, 'l) LoggingConfig" where
  "NewLoggingConfig G =
     (case Must (AddFeatureGates G (NewFeatureGate G)) of
        Inl e \<Rightarrow> Inl e
      | Inr fg \<Rightarrow>
     (case Must (SetFromMap G [(ContextualLogging G, True)] fg) of
        Inl e \<Rightarrow> Inl e
      | Inr fg' \<Rightarrow> Inr \<lparr>featureGate = fg', lc_config = NewLoggingConfiguration G\<rparr>))"

definition Apply :: "('f, 'l) logs_lib \<Rightarrow> ('f, 'l) LoggingConfig \<Rightarrow> err option" where
  "Apply G l = ValidateAndApply G (lc_config l) (featureGate l)"

section \<open>Clients\<close>

record 'f KubeClientConfig =
  KubeConfig :: string
  KubeAPIQPS :: 'f
  KubeAPIBurst :: int

text \<open>A \<open>rest.Config\<close> is opaque but for the two limits; client-go and the float conversion are arguments.\<close>

record ('r, 'g) rest_config =
  rest_rest :: 'r
  rest_QPS :: 'g
  rest_Burst :: int

definition NewClientSetConfig ::
    "(err + ('r, 'g) rest_config) \<Rightarrow> (string \<Rightarrow> err + ('r, 'g) rest_config) \<Rightarrow> ('f \<Rightarrow> 'g) \<Rightarrow> 'f KubeClientConfig \<Rightarrow>
       err + ('r, 'g) rest_config" where
  "NewClientSetConfig inCluster fromFlags float32 k =
     (case (if KubeConfig k = [] then map_sum (Wrapped ''create in-cluster client configuration'') id inCluster
            else map_sum (Wrapped ''create out-of-cluster client configuration'') id (fromFlags (KubeConfig k))) of
        Inl e \<Rightarrow> Inl e
      | Inr c \<Rightarrow> Inr (c\<lparr>rest_QPS := float32 (KubeAPIQPS k), rest_Burst := KubeAPIBurst k\<rparr>))"

definition NewClientSets ::
    "(err + ('r, 'g) rest_config) \<Rightarrow> (string \<Rightarrow> err + ('r, 'g) rest_config) \<Rightarrow> ('f \<Rightarrow> 'g) \<Rightarrow>
       (('r, 'g) rest_config \<Rightarrow> err + 'c) \<Rightarrow> 'f KubeClientConfig \<Rightarrow> err + 'c" where
  "NewClientSets inCluster fromFlags float32 newForConfig k =
     (case NewClientSetConfig inCluster fromFlags float32 k of
        Inl e \<Rightarrow> Inl (Wrapped ''create client configuration'' e)
      | Inr c \<Rightarrow> map_sum (Wrapped ''create core client'') id (newForConfig c))"

section \<open>The application\<close>

text \<open>
  \<open>Before\<close> and \<open>Action\<close>, once the library has parsed the flags; the client goes into the
  configuration and is used by the kubelet plugin helper only.
\<close>

definition app_run ::
    "('f, 'l) logs_lib \<Rightarrow> ('f, 'l) LoggingConfig \<Rightarrow> (err + 'c) \<Rightarrow> string list \<Rightarrow>
       's deps \<Rightarrow> disc_env \<Rightarrow> ('c \<Rightarrow> driver_env) \<Rightarrow> Flags \<Rightarrow> config_vars \<Rightarrow> 's \<Rightarrow> world \<Rightarrow>
       ((err option \<times> (driver \<times> part list) option) \<times> config_vars \<times> 's \<times> world) option" where
  "app_run G logging clientSets args D E X config v s w =
     (if args \<noteq> [] then Some ((Some (Msg ''arguments not supported''), None), v, s, w)
      else case Apply G logging of
             Some e \<Rightarrow> Some ((Some e, None), v, s, w)
           | None \<Rightarrow>
               (case clientSets of
                  Inl e \<Rightarrow> Some ((Some (Wrapped ''create client'' e), None), v, s, w)
                | Inr core \<Rightarrow> RunPlugin D E (X core) config v s w))"

definition exit_code :: "(err option \<times> 'd) \<Rightarrow> int" where
  "exit_code r = (case fst r of None \<Rightarrow> 0 | Some e \<Rightarrow> if is_panic e then 2 else 1)"

section \<open>Lemmas\<close>

text \<open>Every flag's environment variable is its name in upper case with underscores.\<close>

lemma env_convention: "list_all (\<lambda>f. fl_env f = [env_name (fl_name f)]) (newAppFlags r p logging)"
proof -
  have "list_all (\<lambda>f. fl_env f = [env_name (fl_name f)]) (KubeClientFlags @ DiscoveryConfigFlags)"
    "list_all (\<lambda>f. fl_env f = [env_name (fl_name f)]) (take 5 (newAppFlags [] [] []))"
    by code_simp+
  moreover have "list_all (\<lambda>f. fl_env f = [env_name (fl_name f)]) (LoggingFlags logging)"
    by (simp add: LoggingFlags_def pflagToCLI_def list_all_iff)
  ultimately show ?thesis by (simp add: newAppFlags_def flag_def)
qed

lemma exit_code_zero:
  assumes "app_run G logging clientSets args D E X config v s w = Some (r, v1, s1, w1)"
  shows "exit_code r = 0 \<longleftrightarrow> (\<exists>core d. args = [] \<and> Apply G logging = None \<and> clientSets = Inr core \<and>
     RunPlugin D E (X core) config v s w = Some ((None, d), v1, s1, w1) \<and> r = (None, d))"
  using assms by (cases r) (auto simp: app_run_def exit_code_def split: if_splits option.splits sum.splits)

end
