(* ===== verification/PseudoMode.thy ===== *)
theory PseudoMode
  imports Discovery SenlibConfig
begin

text \<open>
  A driver in pseudo mode on a machine without a topology file: the compiled-in topology is read,
  written out and found again at the next start, and its devices are offered with the tier groups
  of its switches and sockets.  The lemmas say which devices the topology has
  (\<^verbatim>\<open>pseudo_doms\<close>) and who is connected to whom (\<^verbatim>\<open>pseudo_conn\<close>).
\<close>

section \<open>The devices of the compiled-in topology\<close>

abbreviation pseudo_pf_addrs :: "string list" where
  "pseudo_pf_addrs \<equiv> concat pf_switches"

abbreviation pseudo_vf_addrs :: "string list" where
  "pseudo_vf_addrs \<equiv> concat vf_switches"

lemma concat_switches:
  "pseudo_pf_addrs = pf_switches ! 0 @ pf_switches ! 1"
  "pseudo_vf_addrs = vf_switches ! 0 @ vf_switches ! 1 @ vf_switches ! 2 @ vf_switches ! 3"
  by (simp_all add: pf_switches_def vf_switches_def)

lemma pseudo_doms:
  "dom (pf_devices pseudo_topo) = set pseudo_pf_addrs" "dom (vf_devices pseudo_topo) = set pseudo_vf_addrs"
  unfolding concat_switches by (auto simp: pseudo_topo_def Let_def nil_map_def split: if_splits)

lemma distances_ok: "(\<And>a. Atoi (dist a) \<noteq> None) \<Longrightarrow> go_map int64 (distances dist as)"
proof -
  assume a: "\<And>a. Atoi (dist a) \<noteq> None"
  have "dom (distances dist as) \<subseteq> set as" by (auto simp: distances_def split: if_splits)
  moreover have "int64 (the (Atoi (dist a)))" for a using a [of a] Atoi_int64 by fastforce
  ultimately show ?thesis by (auto simp: go_map_def distances_def finite_subset split: if_splits)
qed

lemma pseudo_values_ok:
  "device_ok F (pf_value sw far a)" "int64 n \<Longrightarrow> device_ok F (vf_value n sw far away a)"
  by (auto simp: device_ok_def pf_value_def vf_value_def zeroDevice_def noPeers_def peers_ok_def int64_def
      card_distance_def intro!: distances_ok)

lemma table_map: "go_map P f \<Longrightarrow> (\<And>g as a. (g, as) \<in> set ts \<Longrightarrow> P (g a)) \<Longrightarrow> go_map P (table ts f)"
proof (induction ts f rule: table.induct)
  case (2 g as ts f)
  have "dom (\<lambda>a. if a \<in> set as then Some (g a) else f a) \<subseteq> set as \<union> dom f" by (auto split: if_splits)
  then have "go_map P (\<lambda>a. if a \<in> set as then Some (g a) else f a)"
    using 2(2) 2(3) [of g as] by (auto simp: go_map_def finite_subset split: if_splits)
  then have "go_map P (table ts (\<lambda>a. if a \<in> set as then Some (g a) else f a))"
    using 2(1,3) by (metis list.set_intros(2))
  then show ?case by simp
qed simp

lemma pseudo_topo_ok: "topo_ok F pseudo_topo"
  by (auto simp: topo_ok_def pseudo_topo_def Let_def emptyTopo_def int64_def pseudo_values_ok simp del: table.simps intro!: table_map)

lemma no_metadata:
  "td_Metadata (pf_value sw far a) = None" "td_Metadata (vf_value n sw far away a) = None"
  by (simp_all add: pf_value_def vf_value_def zeroDevice_def)

lemma canon_pseudo_topo: "canon_topo pseudo_topo = pseudo_topo"
proof -
  have md: "canon_device d = d" if "td_Metadata d = None" for d using that by (simp add: canon_device_def)
  have "go_map (\<lambda>d. td_Metadata d = None) f \<Longrightarrow> map_option canon_device \<circ> f = f" for f
    by (auto simp: go_map_def fun_eq_iff md) (metis md option.exhaust option.simps(8) option.simps(9))
  then have cd: "canon_devices (Some f) = Some f" if "go_map (\<lambda>d. td_Metadata d = None) f" "f a \<noteq> None" for f a
    using that by (auto simp: canon_devices_def)
  obtain p v where pv: "Devices pseudo_topo = Some p" "SpyreVfDevices pseudo_topo = Some v"
    by (simp add: pseudo_topo_def Let_def)
  have "go_map (\<lambda>d. td_Metadata d = None) p" "go_map (\<lambda>d. td_Metadata d = None) v"
    using pv by (auto simp: pseudo_topo_def Let_def no_metadata simp del: table.simps intro!: table_map)
  moreover have "''0000:1a:00.0'' \<in> dom p" "''0000:2a:00.2'' \<in> dom v"
    using pseudo_doms pv by (simp_all add: nil_map_def pf_switches_def vf_switches_def)
  ultimately have "canon_devices (Some p) = Some p" "canon_devices (Some v) = Some v" using cd by blast+
  then show ?thesis
    using pv by (simp add: canon_topo_def) (simp add: pseudo_topo_def Let_def emptyTopo_def zero_text_def)
qed

section \<open>Connections\<close>

text \<open>The groups of the compiled-in topology at each tier: switches, sockets, the machine.\<close>

definition pseudo_classes :: "int \<Rightarrow> string list list" where
  "pseudo_classes t =
     (if t = 0 then [pf_switches ! 0, pf_switches ! 1, vf_switches ! 0, vf_switches ! 1, vf_switches ! 2, vf_switches ! 3]
      else if t = 1 then [concat pf_switches, vf_switches ! 0 @ vf_switches ! 1, vf_switches ! 2 @ vf_switches ! 3]
      else [concat pf_switches, concat vf_switches])"

definition same_class :: "int \<Rightarrow> string \<Rightarrow> string \<Rightarrow> bool" where
  "same_class t a b \<longleftrightarrow> list_ex (\<lambda>c. a \<in> set c \<and> b \<in> set c) (pseudo_classes t)"

text \<open>Connectivity is a given equivalence when the edges are its pairs of distinct elements.\<close>

lemma conn_classes:
  assumes "equiv A R" "\<And>a b. a \<in> A \<Longrightarrow> b \<in> A \<Longrightarrow> (a, b) \<in> E \<longleftrightarrow> a \<noteq> b \<and> (a, b) \<in> R"
  shows "conn A E = R"
proof
  have "(a, b) \<in> R" if "(a, b) \<in> ((E \<union> E\<inverse>) \<inter> A \<times> A)\<^sup>*" "a \<in> A" for a b
    using that
  proof (induction rule: rtrancl_induct)
    case base
    then show ?case using assms(1) by (auto simp: equiv_def refl_on_def)
  next
    case (step y z)
    then have "(y, z) \<in> R" using assms by (auto simp: equiv_def dest: symD)
    then show ?case using step assms(1) by (auto simp: equiv_def dest: transD)
  qed
  then show "conn A E \<subseteq> R" by (auto simp: conn_def)
  show "R \<subseteq> conn A E"
  proof
    fix x assume x: "x \<in> R"
    obtain a b where ab: "x = (a, b)" by fastforce
    have "a \<in> A" "b \<in> A" using assms(1) x ab by (auto simp: equiv_def)
    then show "x \<in> conn A E"
      using conn_edge [of a b E A] assms(2) [of a b] x ab by (cases "a = b") (auto simp: conn_def)
  qed
qed

lemma dom_distances [simp]: "dom (distances dist as) = set as"
  by (auto simp: distances_def split: if_splits)

lemma distances_member: "distances dist as x = Some y \<Longrightarrow> x \<in> set as"
  by (simp add: distances_def split: if_splits)

lemma set_others [simp]: "set (others a as) = set as - {a}"
  by (auto simp: others_def)

text \<open>The six switches have no device in common.\<close>

lemma disjoint_switches:
  "distinct (pf_switches ! 0 @ pf_switches ! 1 @ vf_switches ! 0 @ vf_switches ! 1 @ vf_switches ! 2 @ vf_switches ! 3)"
  by code_simp

lemma pseudo_adjacency:
  defines "adj \<equiv> buildAdjacency pseudo_topo" and "far \<equiv> distances (\<lambda>b. ''10'')" and "away \<equiv> distances (\<lambda>b. ''100'')"
  shows "a \<in> set (pf_switches ! 0) \<Longrightarrow> adj a = Some \<lparr>p0 = distances (\<lambda>b. ''4'') (others a (pf_switches ! 0)),
      p1 = far (pf_switches ! 1), p2 = Map.empty\<rparr>"
    and "a \<in> set (pf_switches ! 1) \<Longrightarrow> adj a = Some \<lparr>p0 = distances (\<lambda>b. ''4'') (others a (pf_switches ! 1)),
      p1 = far (pf_switches ! 0), p2 = Map.empty\<rparr>"
    and "a \<in> set (vf_switches ! 0) \<Longrightarrow> adj a = Some \<lparr>p0 = distances (card_distance a) (others a (vf_switches ! 0)),
      p1 = far (vf_switches ! 1), p2 = away (vf_switches ! 2 @ vf_switches ! 3)\<rparr>"
    and "a \<in> set (vf_switches ! 1) \<Longrightarrow> adj a = Some \<lparr>p0 = distances (card_distance a) (others a (vf_switches ! 1)),
      p1 = far (vf_switches ! 0), p2 = away (vf_switches ! 2 @ vf_switches ! 3)\<rparr>"
    and "a \<in> set (vf_switches ! 2) \<Longrightarrow> adj a = Some \<lparr>p0 = distances (card_distance a) (others a (vf_switches ! 2)),
      p1 = far (vf_switches ! 3), p2 = away (vf_switches ! 0 @ vf_switches ! 1)\<rparr>"
    and "a \<in> set (vf_switches ! 3) \<Longrightarrow> adj a = Some \<lparr>p0 = distances (card_distance a) (others a (vf_switches ! 3)),
      p1 = far (vf_switches ! 2), p2 = away (vf_switches ! 0 @ vf_switches ! 1)\<rparr>"
proof -
  have pf: "a \<in> set (pf_switches ! 0) \<Longrightarrow> a \<notin> set (pf_switches ! 1) \<and> a \<notin> set pseudo_vf_addrs"
    "a \<in> set (pf_switches ! 1) \<Longrightarrow> a \<notin> set (pf_switches ! 0) \<and> a \<notin> set pseudo_vf_addrs"
    using disjoint_switches unfolding concat_switches by auto
  have none: "a \<notin> set pseudo_vf_addrs \<Longrightarrow> vf_devices pseudo_topo a = None" "a \<notin> set pseudo_pf_addrs \<Longrightarrow> pf_devices pseudo_topo a = None"
    using pseudo_doms by blast+
  have vf: "a \<in> set (vf_switches ! 0) \<Longrightarrow> a \<notin> set (vf_switches ! 1) \<and> a \<notin> set (vf_switches ! 2) \<and> a \<notin> set (vf_switches ! 3)"
    "a \<in> set (vf_switches ! 1) \<Longrightarrow> a \<notin> set (vf_switches ! 2) \<and> a \<notin> set (vf_switches ! 3)"
    "a \<in> set (vf_switches ! 2) \<Longrightarrow> a \<notin> set (vf_switches ! 3)"
    using disjoint_switches by auto
  note defs = adj_def far_def away_def buildAdjacency_def map_add_def peersOf_def pf_value_def vf_value_def
  have pv: "pf_devices pseudo_topo a = Some (pf_value (pf_switches ! 0) (pf_switches ! 1) a)" if "a \<in> set (pf_switches ! 0)"
    using pf(1) that by (simp add: pseudo_topo_def Let_def nil_map_def)
  show "a \<in> set (pf_switches ! 0) \<Longrightarrow> adj a = Some \<lparr>p0 = distances (\<lambda>b. ''4'') (others a (pf_switches ! 0)),
      p1 = far (pf_switches ! 1), p2 = Map.empty\<rparr>"
    using pf(1) none(1) pv by (simp add: defs)
  have pv: "pf_devices pseudo_topo a = Some (pf_value (pf_switches ! 1) (pf_switches ! 0) a)" if "a \<in> set (pf_switches ! 1)"
    using that by (simp add: pseudo_topo_def Let_def nil_map_def)
  show "a \<in> set (pf_switches ! 1) \<Longrightarrow> adj a = Some \<lparr>p0 = distances (\<lambda>b. ''4'') (others a (pf_switches ! 1)),
      p1 = far (pf_switches ! 0), p2 = Map.empty\<rparr>"
    using pf(2) none(1) pv by (simp add: defs)
  note vdefs = defs pseudo_topo_def Let_def nil_map_def
  show "a \<in> set (vf_switches ! 0) \<Longrightarrow> adj a = Some \<lparr>p0 = distances (card_distance a) (others a (vf_switches ! 0)),
      p1 = far (vf_switches ! 1), p2 = away (vf_switches ! 2 @ vf_switches ! 3)\<rparr>"
    using vf(1) by (simp add: vdefs)
  show "a \<in> set (vf_switches ! 1) \<Longrightarrow> adj a = Some \<lparr>p0 = distances (card_distance a) (others a (vf_switches ! 1)),
      p1 = far (vf_switches ! 0), p2 = away (vf_switches ! 2 @ vf_switches ! 3)\<rparr>"
    using vf(2) by (simp add: vdefs)
  show "a \<in> set (vf_switches ! 2) \<Longrightarrow> adj a = Some \<lparr>p0 = distances (card_distance a) (others a (vf_switches ! 2)),
      p1 = far (vf_switches ! 3), p2 = away (vf_switches ! 0 @ vf_switches ! 1)\<rparr>"
    using vf(3) by (simp add: vdefs)
  show "a \<in> set (vf_switches ! 3) \<Longrightarrow> adj a = Some \<lparr>p0 = distances (card_distance a) (others a (vf_switches ! 3)),
      p1 = far (vf_switches ! 2), p2 = away (vf_switches ! 0 @ vf_switches ! 1)\<rparr>"
    by (simp add: vdefs)
qed

lemma dom_pseudo_adjacency: "dom (buildAdjacency pseudo_topo) = set (pseudo_pf_addrs @ pseudo_vf_addrs)"
  using pseudo_doms by (simp add: dom_buildAdjacency)

text \<open>Lists without a common element are the classes of an equivalence.\<close>

lemma classes_equiv:
  assumes "distinct (concat cs)"
  shows "equiv (set (concat cs)) {(a, b). \<exists>c \<in> set cs. a \<in> set c \<and> b \<in> set c}"
proof -
  have "c = d" if "c \<in> set cs" "d \<in> set cs" "b \<in> set c" "b \<in> set d" for b c d
    using assms that
  proof (induction cs)
    case (Cons e cs)
    then show ?case by auto
  qed simp
  then have "trans {(a, b). \<exists>c \<in> set cs. a \<in> set c \<and> b \<in> set c}" unfolding trans_def by blast
  then show ?thesis by (intro equivI) (auto simp: refl_on_def sym_def)
qed

lemma tier_edges_of:
  "adj a = Some ps \<Longrightarrow> t \<in> {0, 1, 2} \<Longrightarrow> (a, b) \<in> tier_edges adj t \<longleftrightarrow>
     b \<in> dom (p0 ps) \<or> (1 \<le> t \<and> b \<in> dom (p1 ps)) \<or> (2 \<le> t \<and> b \<in> dom (p2 ps))"
  by (auto simp: tier_edges_def peersUpToTier_def)

lemma pseudo_edges:
  assumes "a \<in> set (pseudo_pf_addrs @ pseudo_vf_addrs)" "b \<in> set (pseudo_pf_addrs @ pseudo_vf_addrs)" "t \<in> {0, 1, 2}"
  shows "(a, b) \<in> tier_edges (buildAdjacency pseudo_topo) t \<longleftrightarrow> a \<noteq> b \<and> same_class t a b"
    (is "(a, b) \<in> ?E \<longleftrightarrow> _")
proof -
  define P Q R S T U where sets: "P = set (pf_switches ! 0)" "Q = set (pf_switches ! 1)" "R = set (vf_switches ! 0)"
    "S = set (vf_switches ! 1)" "T = set (vf_switches ! 2)" "U = set (vf_switches ! 3)"
  note sets' = sets [symmetric]
  have alone: "x \<in> P \<Longrightarrow> x \<notin> Q \<and> x \<notin> R \<and> x \<notin> S \<and> x \<notin> T \<and> x \<notin> U"
    "x \<in> Q \<Longrightarrow> x \<notin> P \<and> x \<notin> R \<and> x \<notin> S \<and> x \<notin> T \<and> x \<notin> U"
    "x \<in> R \<Longrightarrow> x \<notin> P \<and> x \<notin> Q \<and> x \<notin> S \<and> x \<notin> T \<and> x \<notin> U"
    "x \<in> S \<Longrightarrow> x \<notin> P \<and> x \<notin> Q \<and> x \<notin> R \<and> x \<notin> T \<and> x \<notin> U"
    "x \<in> T \<Longrightarrow> x \<notin> P \<and> x \<notin> Q \<and> x \<notin> R \<and> x \<notin> S \<and> x \<notin> U"
    "x \<in> U \<Longrightarrow> x \<notin> P \<and> x \<notin> Q \<and> x \<notin> R \<and> x \<notin> S \<and> x \<notin> T" for x
    using disjoint_switches by (auto simp: sets)
  have all: "x \<in> P \<or> x \<in> Q \<or> x \<in> R \<or> x \<in> S \<or> x \<in> T \<or> x \<in> U" if "x \<in> set (pseudo_pf_addrs @ pseudo_vf_addrs)" for x
    using that unfolding concat_switches by (auto simp: sets)
  have cls: "same_class 0 a b \<longleftrightarrow> (a \<in> P \<and> b \<in> P) \<or> (a \<in> Q \<and> b \<in> Q) \<or> (a \<in> R \<and> b \<in> R) \<or> (a \<in> S \<and> b \<in> S) \<or>
      (a \<in> T \<and> b \<in> T) \<or> (a \<in> U \<and> b \<in> U)"
    "same_class 1 a b \<longleftrightarrow> (a \<in> P \<union> Q \<and> b \<in> P \<union> Q) \<or> (a \<in> R \<union> S \<and> b \<in> R \<union> S) \<or> (a \<in> T \<union> U \<and> b \<in> T \<union> U)"
    "same_class 2 a b \<longleftrightarrow> (a \<in> P \<union> Q \<and> b \<in> P \<union> Q) \<or> (a \<in> R \<union> S \<union> T \<union> U \<and> b \<in> R \<union> S \<union> T \<union> U)"
    unfolding same_class_def pseudo_classes_def concat_switches by (auto simp: sets)
  note adj = pseudo_adjacency [of a, folded sets]
  note row = tier_edges_of [of "buildAdjacency pseudo_topo" a _ t b, OF _ assms(3)]
  have rows: "a \<in> P \<Longrightarrow> (a, b) \<in> ?E \<longleftrightarrow> (b \<in> P \<and> b \<noteq> a) \<or> (1 \<le> t \<and> b \<in> Q)"
    "a \<in> Q \<Longrightarrow> (a, b) \<in> ?E \<longleftrightarrow> (b \<in> Q \<and> b \<noteq> a) \<or> (1 \<le> t \<and> b \<in> P)"
    "a \<in> R \<Longrightarrow> (a, b) \<in> ?E \<longleftrightarrow> (b \<in> R \<and> b \<noteq> a) \<or> (1 \<le> t \<and> b \<in> S) \<or> (2 \<le> t \<and> (b \<in> T \<or> b \<in> U))"
    "a \<in> S \<Longrightarrow> (a, b) \<in> ?E \<longleftrightarrow> (b \<in> S \<and> b \<noteq> a) \<or> (1 \<le> t \<and> b \<in> R) \<or> (2 \<le> t \<and> (b \<in> T \<or> b \<in> U))"
    "a \<in> T \<Longrightarrow> (a, b) \<in> ?E \<longleftrightarrow> (b \<in> T \<and> b \<noteq> a) \<or> (1 \<le> t \<and> b \<in> U) \<or> (2 \<le> t \<and> (b \<in> R \<or> b \<in> S))"
    "a \<in> U \<Longrightarrow> (a, b) \<in> ?E \<longleftrightarrow> (b \<in> U \<and> b \<noteq> a) \<or> (1 \<le> t \<and> b \<in> T) \<or> (2 \<le> t \<and> (b \<in> R \<or> b \<in> S))"
    using row [OF adj(1)] row [OF adj(2)] row [OF adj(3)] row [OF adj(4)] row [OF adj(5)] row [OF adj(6)]
    by (simp_all add: sets)
  note mine = alone [of a] rows cls
  from all [OF assms(1)] assms(3) show ?thesis
  proof (elim disjE)
    show ?thesis if "a \<in> P" "t \<in> {0, 1, 2}" using mine(1) [OF that(1)] that by (auto simp: mine(7) cls)
    show ?thesis if "a \<in> Q" "t \<in> {0, 1, 2}" using mine(2) [OF that(1)] that by (auto simp: mine(8) cls)
    show ?thesis if "a \<in> R" "t \<in> {0, 1, 2}" using mine(3) [OF that(1)] that by (auto simp: mine(9) cls)
    show ?thesis if "a \<in> S" "t \<in> {0, 1, 2}" using mine(4) [OF that(1)] that by (auto simp: mine(10) cls)
    show ?thesis if "a \<in> T" "t \<in> {0, 1, 2}" using mine(5) [OF that(1)] that by (auto simp: mine(11) cls)
    show ?thesis if "a \<in> U" "t \<in> {0, 1, 2}" using mine(6) [OF that(1)] that by (auto simp: mine(12) cls)
  qed
qed

lemma pseudo_conn:
  assumes "t \<in> {0, 1, 2}"
  shows "tier_conn pseudo_topo t = {(a, b). same_class t a b}"
  unfolding tier_conn_def dom_pseudo_adjacency
proof (rule conn_classes)
  show "(a, b) \<in> tier_edges (buildAdjacency pseudo_topo) t \<longleftrightarrow> a \<noteq> b \<and> (a, b) \<in> {(a, b). same_class t a b}"
    if "a \<in> set (pseudo_pf_addrs @ pseudo_vf_addrs)" "b \<in> set (pseudo_pf_addrs @ pseudo_vf_addrs)" for a b
    using pseudo_edges [OF that assms] by simp
  show "equiv (set (pseudo_pf_addrs @ pseudo_vf_addrs)) {(a, b). same_class t a b}"
  proof -
    have "distinct (concat (pseudo_classes t))" "set (concat (pseudo_classes t)) = set (pseudo_pf_addrs @ pseudo_vf_addrs)"
      using disjoint_switches unfolding pseudo_classes_def concat_switches by (auto simp: concat_switches)
    with classes_equiv [of "pseudo_classes t"] show ?thesis by (simp add: same_class_def list_ex_iff)
  qed
qed

section \<open>Starting without a topology file\<close>

lemma WriteTopo_WriteTo: "Marshal t = Inr c \<Longrightarrow> snd (WriteTopo w f t) = snd (WriteTo w f c)"
  by (simp add: WriteTopo_def WriteTo_def split: option.split prod.split)

lemma same_os_pseudo: "same_os w w' \<Longrightarrow> IsPseudoDeviceMode w' = IsPseudoDeviceMode w"
  by (simp add: IsPseudoDeviceMode_def Getenv_def same_osD)

lemma GetPciTopology_static:
  assumes "IsPseudoDeviceMode w" "ReadFile w (if f = [] then GetTopologyFile w else f) = Inl e"
  shows "\<exists>w'. GetPciTopology F w f = ((Some pseudo_topo, None), w') \<and> IsPseudoDeviceMode w'"
proof -
  obtain c where "Marshal pseudo_topo = Inr c" by (simp add: Marshal_def)
  then have "IsPseudoDeviceMode (snd (WriteTopo w f' pseudo_topo))" for f'
    using assms(1) same_os_pseudo [OF WriteTo_same_os] by (simp add: WriteTopo_WriteTo)
  with assms show ?thesis by (simp add: GetPciTopology_def Let_def UnmarshalPciTopo_pseudo)
qed

text \<open>
  C37. In pseudo mode a missing topology file is made once: the first start uses the compiled-in
  topology and writes it to that path, touching nothing else, and every later start reads the same
  topology from there.
\<close>

theorem static_topology_stable:
  assumes "IsPseudoDeviceMode w" "no_faults w" "f \<noteq> []" "lookup w (comps f) = None"
    and "lookup w (butlast (comps f)) = Some Dir" "\<not> file_above w (comps f)"
  shows "\<exists>w' c. GetPciTopology F w f = ((Some pseudo_topo, None), w') \<and> ReadFile w' f = Inr c \<and>
    (\<forall>q. q \<noteq> comps f \<longrightarrow> lookup w' q = lookup w q) \<and> GetPciTopology F w' f = ((Some pseudo_topo, None), w')"
proof -
  obtain c where c: "Marshal pseudo_topo = Inr c" "UnmarshalPciTopo F c = (pseudo_topo, None)"
    using written_topo [OF pseudo_topo_ok] by (auto simp: canon_pseudo_topo)
  let ?w = "snd (WriteTo w f c)"
  have "fst (WriteTo w f c) = None"
    using assms by (simp add: WriteTo_def Create_def Let_def no_faultsD put_def)
  then have r: "ReadFile ?w f = Inr c" using WriteTo_readable [of w f c] assms(2,3) by simp
  have "ReadFile w f = Inl NotExist"
    using assms by (simp add: ReadFile_def Stat_def stat_path_def no_faultsD)
  then have "GetPciTopology F w f = ((Some pseudo_topo, None), ?w)"
    using assms(1,3) c(1) by (simp add: GetPciTopology_def UnmarshalPciTopo_pseudo WriteTopo_WriteTo)
  moreover have "GetPciTopology F ?w f = ((Some pseudo_topo, None), ?w)"
    using r c(2) assms(3) by (simp add: GetPciTopology_def)
  ultimately show ?thesis using r WriteTo_frame [of w f c] by blast
qed

definition empty_machine :: world where
  "empty_machine = pseudo_world\<lparr>files := [([''/'', ''tmp''], Dir)], faults := (\<lambda>op p. None)\<rparr>"

theorem static_topology_stable_witness:
  "\<exists>w'. GetPciTopology sample_floats empty_machine GeneratedTopologyFilepath = ((Some pseudo_topo, None), w') \<and>
     GetPciTopology sample_floats w' GeneratedTopologyFilepath = ((Some pseudo_topo, None), w')"
proof -
  have "IsPseudoDeviceMode empty_machine" "no_faults empty_machine"
    by (simp_all add: empty_machine_def IsPseudoDeviceMode_def Getenv_def pseudo_world_def no_faults_def)
  moreover have "GeneratedTopologyFilepath \<noteq> []" "lookup empty_machine (comps GeneratedTopologyFilepath) = None"
      "lookup empty_machine (butlast (comps GeneratedTopologyFilepath)) = Some Dir"
      "\<not> file_above empty_machine (comps GeneratedTopologyFilepath)"
    by code_simp+
  ultimately show ?thesis using static_topology_stable by blast
qed

section \<open>The devices offered\<close>

definition disc_orders_ok :: "disc_orders \<Rightarrow> Pcitopo \<Rightarrow> bool" where
  "disc_orders_ok ord t \<longleftrightarrow> range_order (pf_keys ord) (pf_devices t) \<and> range_order (vf_keys ord) (vf_devices t) \<and>
     range_order (pf_keys2 ord) (pf_devices t)"

text \<open>The two VFs made up for a PF.\<close>

definition made_vfs :: "string \<Rightarrow> string list" where
  "made_vfs a = [take 10 a @ ''.1'', take 10 a @ ''.2'']"

abbreviation pseudo_addrs :: "string list" where
  "pseudo_addrs \<equiv> pseudo_pf_addrs @ pseudo_vf_addrs @ concat (map made_vfs pseudo_pf_addrs)"

lemma pseudo_addrs_facts:
  "distinct pseudo_addrs" "list_all bdf_address pseudo_addrs" "length pseudo_addrs = 37"
  "list_all (\<lambda>a. LastIndex a CHR ''.'' = 10) pseudo_pf_addrs"
  by code_simp+

lemma made_vfs_missing:
  assumes "a \<in> set pseudo_pf_addrs"
  shows "map ghw_Address (missing_vfs nm pseudo_topo a) = made_vfs a"
proof -
  have "LastIndex a CHR ''.'' = 10" using assms pseudo_addrs_facts(4) unfolding list_all_iff by blast
  moreover have "vf_devices pseudo_topo x = None" if "x \<in> set (made_vfs a)" for x
  proof -
    have "x \<notin> set pseudo_vf_addrs" using assms that pseudo_addrs_facts(1) by (auto simp del: set_concat simp: set_concat [of "map _ _"])
    then show ?thesis using pseudo_doms(2) by blast
  qed
  ultimately show ?thesis by (simp add: missing_vfs_def made_vfs_def comp_def)
qed

lemma GetDevices_keys: "range_order ks (pf_devices t) \<Longrightarrow> GetDevices ks t = ks"
  unfolding GetDevices_def by (rule filter_True) (auto simp: range_order_def)

lemma discovered_addresses:
  assumes "disc_orders_ok ord pseudo_topo" "arch \<noteq> ''s390x''"
  shows "map ghw_Address (discoverPseudoDevices ord arch (Some pseudo_topo)) =
    pf_keys ord @ vf_keys ord @ concat (map made_vfs (pf_keys2 ord))"
proof -
  have k: "set (pf_keys ord) = set pseudo_pf_addrs" "set (pf_keys2 ord) = set pseudo_pf_addrs"
    using assms(1) pseudo_doms by (auto simp: disc_orders_ok_def range_order_def simp del: set_concat)
  have g: "GetDevices (pf_keys ord) pseudo_topo = pf_keys ord" "GetDevices (pf_keys2 ord) pseudo_topo = pf_keys2 ord"
    using assms(1) by (simp_all add: disc_orders_ok_def GetDevices_keys)
  have "map ghw_Address (concat (map (missing_vfs nm pseudo_topo) ks)) = concat (map made_vfs ks)"
    if "set ks \<subseteq> set pseudo_pf_addrs" for nm ks
    using that made_vfs_missing by (induction ks) (auto simp del: set_concat)
  with assms(2) k show ?thesis
    by (simp add: discoverPseudoDevices_def generatePseudoDevicesFromTopo_def Let_def g comp_def del: set_concat)
qed

lemma convert_pseudo:
  "IsPseudoDeviceMode w \<Longrightarrow> convertToSpyrePCIDevices w S hw = map (\<lambda>d. Pseudo (NewPseudoPciDevice d)) hw"
  by (induction hw) simp_all

lemma NewPseudoPciDevice_sel [simp]:
  "ppd_PciAddress (NewPseudoPciDevice d) = ghw_Address d" "ppd_ProductID (NewPseudoPciDevice d) = ghw_ProductID d"
  by (simp_all add: NewPseudoPciDevice_def)

lemma distinct_offered:
  assumes "disc_orders_ok ord pseudo_topo"
  shows "distinct (pf_keys ord @ vf_keys ord @ concat (map made_vfs (pf_keys2 ord)))"
    and "set (pf_keys ord @ vf_keys ord @ concat (map made_vfs (pf_keys2 ord))) = set pseudo_addrs"
proof -
  have o: "distinct (pf_keys ord)" "distinct (vf_keys ord)" "distinct (pf_keys2 ord)" "set (pf_keys ord) = set pseudo_pf_addrs"
      "set (vf_keys ord) = set pseudo_vf_addrs" "set (pf_keys2 ord) = set pseudo_pf_addrs"
    using assms pseudo_doms by (auto simp: disc_orders_ok_def range_order_def simp del: set_concat)
  show s: "set (pf_keys ord @ vf_keys ord @ concat (map made_vfs (pf_keys2 ord))) = set pseudo_addrs"
    unfolding set_append set_concat set_map o ..
  have len: "length (concat (map made_vfs ks)) = 2 * length ks" for ks
    by (induction ks) (simp_all add: made_vfs_def)
  have dp: "distinct pseudo_pf_addrs" "distinct pseudo_vf_addrs" by code_simp+
  have "length (pf_keys ord @ vf_keys ord @ concat (map made_vfs (pf_keys2 ord))) = card (set pseudo_addrs)"
    using distinct_card [OF pseudo_addrs_facts(1)] o distinct_card [OF o(1)] distinct_card [OF o(2)] distinct_card [OF o(3)]
      distinct_card [OF dp(1)] distinct_card [OF dp(2)]
    by (simp only: length_append len)
  then show "distinct (pf_keys ord @ vf_keys ord @ concat (map made_vfs (pf_keys2 ord)))"
    using s card_distinct by metis
qed

text \<open>Every address is found under its name, with the attributes the topology gives it.\<close>

lemma pseudo_offered:
  assumes "IsPseudoDeviceMode w" "disc_orders_ok ord pseudo_topo" "tier_orders_ok pseudo_topo tord" "arch \<noteq> ''s390x''"
  shows "\<exists>A. NewAllocatableDevices w S tord (discoverPseudoDevices ord arch (Some pseudo_topo)) (Some pseudo_topo) dv = Some A \<and>
    dom A = PciAddressToDeviceName ` set pseudo_addrs \<and>
    (\<forall>d \<in> set (discoverPseudoDevices ord arch (Some pseudo_topo)). \<exists>i vf. A (PciAddressToDeviceName (ghw_Address d)) =
       Some (new_spyre_device w S (Some pseudo_topo) (expected_tiers (Some pseudo_topo)) vf i (Pseudo (NewPseudoPciDevice d))))"
proof -
  let ?hw = "discoverPseudoDevices ord arch (Some pseudo_topo)"
  let ?ds = "map (\<lambda>d. Pseudo (NewPseudoPciDevice d)) ?hw"
  note addrs = discovered_addresses [OF assms(2,4)]
  have s: "ghw_Address ` set ?hw = set pseudo_addrs" "distinct (map ghw_Address ?hw)"
    using distinct_offered [OF assms(2)] unfolding set_map [symmetric] addrs by blast+
  have ne: "ghw_Address d \<noteq> []" "bdf_address (ghw_Address d)" if "d \<in> set ?hw" for d
  proof -
    have "ghw_Address d \<in> set pseudo_addrs" using s(1) that by blast
    then show "bdf_address (ghw_Address d)" using pseudo_addrs_facts(2) unfolding list_all_iff by blast
    then show "ghw_Address d \<noteq> []" by (auto simp: bdf_address_def)
  qed
  have ga: "map GetPciAddr ?ds = map ghw_Address ?hw" using ne(1) by simp
  have "proper_addresses ?ds"
    unfolding proper_addresses_def ga using s(2) ne by (simp add: list_all_iff)
  then obtain A where A: "NewAllocatableDevices w S tord ?hw (Some pseudo_topo) dv = Some A"
      "dom A = (\<lambda>d. PciAddressToDeviceName (GetPciAddr d)) ` set ?ds"
      "\<forall>k < length ?ds. A (PciAddressToDeviceName (GetPciAddr (?ds ! k))) = Some (new_spyre_device w S (Some pseudo_topo)
        (expected_tiers (Some pseudo_topo)) (hasVfDevice ?ds \<and> \<not> dv) (int k) (?ds ! k))"
    using NewAllocatableDevices_lookup [of "Some pseudo_topo" tord ?ds w S ?hw dv] assms(3) convert_pseudo [OF assms(1), of S ?hw]
    unfolding topo_orders_ok_def by auto
  have "dom A = PciAddressToDeviceName ` set (map GetPciAddr ?ds)" unfolding A(2) by (simp only: set_map image_image)
  then have "dom A = PciAddressToDeviceName ` set pseudo_addrs" unfolding ga using s(1) by simp
  moreover have "\<exists>i vf. A (PciAddressToDeviceName (ghw_Address d)) =
       Some (new_spyre_device w S (Some pseudo_topo) (expected_tiers (Some pseudo_topo)) vf i (Pseudo (NewPseudoPciDevice d)))"
    if d: "d \<in> set ?hw" for d
  proof -
    obtain k where "k < length ?hw" "?hw ! k = d" using d by (metis in_set_conv_nth)
    then show ?thesis using A(3) [rule_format, of k] ne(1) [OF d] by auto
  qed
  ultimately show ?thesis using A(1) by blast
qed

lemma offered_products:
  assumes "disc_orders_ok ord pseudo_topo" "arch \<noteq> ''s390x''" "d \<in> set (discoverPseudoDevices ord arch (Some pseudo_topo))"
  shows "ghw_ProductID d = (if ghw_Address d \<in> set pseudo_pf_addrs then ProductIDPf else ProductIDVf)"
proof -
  have k: "set (pf_keys ord) = set pseudo_pf_addrs" "set (vf_keys ord) = set pseudo_vf_addrs" "set (pf_keys2 ord) = set pseudo_pf_addrs"
    using assms(1) pseudo_doms by (auto simp: disc_orders_ok_def range_order_def simp del: set_concat)
  have m: "ghw_Address d \<in> set (made_vfs a)" if "a \<in> set pseudo_pf_addrs" "d \<in> set (missing_vfs nm pseudo_topo a)" for nm a
    using made_vfs_missing [OF that(1)] that(2) by (metis image_eqI set_map)
  have other: "a \<notin> set pseudo_pf_addrs" if "a \<in> set pseudo_vf_addrs \<or> a \<in> set (concat (map made_vfs pseudo_pf_addrs))" for a
    using that pseudo_addrs_facts(1) by (simp only: distinct_append set_append) blast
  let ?nm = "GenerateNumaInfoMapFromTopo (numa_keys ord) (numa_peers ord) pseudo_topo"
  consider a where "a \<in> set pseudo_pf_addrs" "d = GeneratePseudoDevice a ProductIDPf (lookupNuma ?nm a)"
    | a where "a \<in> set pseudo_vf_addrs" "d = GeneratePseudoDevice a ProductIDVf (lookupNuma ?nm a)"
    | a where "a \<in> set pseudo_pf_addrs" "d \<in> set (missing_vfs ?nm pseudo_topo a)"
    using assms k GetDevices_keys
    by (auto simp: discoverPseudoDevices_def generatePseudoDevicesFromTopo_def Let_def disc_orders_ok_def simp del: set_concat)
      (auto simp del: set_concat simp: set_concat [of "map (missing_vfs _ _) _"])
  then show ?thesis
  proof cases
    case 1
    then show ?thesis by (simp del: set_concat)
  next
    case 2
    then show ?thesis using other [of a] by (simp del: set_concat)
  next
    case 3
    have "ghw_Address d \<in> set (concat (map made_vfs pseudo_pf_addrs))" using m [OF 3] 3(1) by (simp only: set_concat set_map) blast
    moreover have "ghw_ProductID d = ProductIDVf" using 3(2) by (auto simp: missing_vfs_def Let_def split: if_splits)
    ultimately show ?thesis using other by (simp del: set_concat)
  qed
qed

lemma pseudo_names: "card (PciAddressToDeviceName ` set pseudo_addrs) = 37"
proof -
  have "inj_on PciAddressToDeviceName (set pseudo_addrs)"
  proof (rule inj_onI)
    fix a b assume "a \<in> set pseudo_addrs" "b \<in> set pseudo_addrs" "PciAddressToDeviceName a = PciAddressToDeviceName b"
    moreover have "bdf_address x" if "x \<in> set pseudo_addrs" for x
      using that pseudo_addrs_facts(2) unfolding list_all_iff by blast
    ultimately show "a = b" using bdf_device_names by meson
  qed
  then show ?thesis using distinct_card [OF pseudo_addrs_facts(1)] pseudo_addrs_facts(3) by (simp only: card_image)
qed

text \<open>The tier attributes of an offered device of the topology, and when two of them agree.\<close>

abbreviation tier_key :: "int \<Rightarrow> string" where
  "tier_key t \<equiv> if t = 0 then ''tier0Group'' else if t = 1 then ''tier1Group'' else ''tier2Group''"

lemma pseudo_in_adjacency:
  assumes "a \<in> set (pseudo_pf_addrs @ pseudo_vf_addrs)"
  shows "a \<in> dom (buildAdjacency pseudo_topo)" "a \<in> set pseudo_addrs"
  using assms unfolding dom_pseudo_adjacency set_append by blast+

lemma pseudo_tier_attribute:
  assumes "tier_orders_ok pseudo_topo tord" "t \<in> {0, 1, 2}" "ghw_Address x \<in> set (pseudo_pf_addrs @ pseudo_vf_addrs)"
  shows "sd_Attributes (new_spyre_device w S (Some pseudo_topo) (expected_tiers (Some pseudo_topo)) vf i
      (Pseudo (NewPseudoPciDevice x))) (tier_key t) = Some (GetStringDeviceAttribute (the (tier_group pseudo_topo t (ghw_Address x))))"
proof -
  have ne: "[] \<notin> dom (buildAdjacency pseudo_topo)" unfolding dom_pseudo_adjacency by code_simp
  have ok: "topo_orders_ok (Some pseudo_topo) tord" using assms(1) by (simp add: topo_orders_ok_def)
  note adj = pseudo_in_adjacency(1) [OF assms(3)]
  then have "ghw_Address x \<noteq> []" using ne by metis
  then have "GetPciAddr (Pseudo (NewPseudoPciDevice x)) = ghw_Address x" by simp
  then show ?thesis
    using getAttributes_tier_value [OF assms(2) ok ne, of "Pseudo (NewPseudoPciDevice x)" w S i vf] adj
    by (simp only: new_spyre_device_def SpyreDevice.simps)
qed

lemma pseudo_tier_groups:
  assumes "tier_orders_ok pseudo_topo tord" "t \<in> {0, 1, 2}"
    and "a \<in> set (pseudo_pf_addrs @ pseudo_vf_addrs)" "b \<in> set (pseudo_pf_addrs @ pseudo_vf_addrs)"
  shows "the (tier_group pseudo_topo t a) = the (tier_group pseudo_topo t b) \<longleftrightarrow> same_class t a b"
proof -
  note adj = pseudo_in_adjacency(1) [OF assms(3)] pseudo_in_adjacency(1) [OF assms(4)]
  have "the (tier_group pseudo_topo t a) = the (tier_group pseudo_topo t b) \<longleftrightarrow> tier_group pseudo_topo t a = tier_group pseudo_topo t b"
    using adj by (simp add: tier_group_def)
  also have "\<dots> \<longleftrightarrow> same_class t a b"
    using tier_group_eq_iff [OF tier_orders_finite [OF assms(1)] adj, of t] pseudo_conn [OF assms(2)] by simp
  finally show ?thesis .
qed

text \<open>
  C21. What a driver offers in pseudo mode on a machine without a topology file: exactly the eight PFs and
  thirteen VFs of the compiled-in topology and two more VFs per PF, 37 devices under distinct names,
  each with its product id; and two devices of the topology get the same tier 0 group iff they are on
  the same switch, tier 1 iff on the same socket, tier 2 iff in the same machine.  None of it depends
  on an order in which Go ranges over a map.
\<close>

theorem pseudo_first_start:
  assumes "IsPseudoDeviceMode w" "ReadFile w (if topologyFile d = [] then GetTopologyFile w else topologyFile d) = Inl e"
    and "disc_orders_ok ord pseudo_topo" "tier_orders_ok pseudo_topo tord" "arch \<noteq> ''s390x''"
  shows "\<exists>A w'. GetAllocatableDevices F w S ord tord arch hw d = (Some (Inr A), w') \<and>
    dom A = PciAddressToDeviceName ` set pseudo_addrs \<and> card (dom A) = 37 \<and>
    (\<forall>a \<in> set pseudo_addrs. \<exists>sd. A (PciAddressToDeviceName a) = Some sd \<and>
       sd_ProductID sd = (if a \<in> set pseudo_pf_addrs then ProductIDPf else ProductIDVf)) \<and>
    (\<forall>a \<in> set (pseudo_pf_addrs @ pseudo_vf_addrs). \<forall>b \<in> set (pseudo_pf_addrs @ pseudo_vf_addrs). \<forall>t \<in> {0, 1, 2}. \<exists>x y.
       A (PciAddressToDeviceName a) = Some x \<and> A (PciAddressToDeviceName b) = Some y \<and>
       (let k = (if t = 0 then ''tier0Group'' else if t = 1 then ''tier1Group'' else ''tier2Group'')
        in sd_Attributes x k = sd_Attributes y k \<longleftrightarrow> same_class t a b))"
proof -
  let ?hw = "discoverPseudoDevices ord arch (Some pseudo_topo)"
  obtain w' where g: "GetPciTopology F w (topologyFile d) = ((Some pseudo_topo, None), w')" and p: "IsPseudoDeviceMode w'"
    using GetPciTopology_static [OF assms(1,2)] by blast
  let ?dev = "\<lambda>vf i x. new_spyre_device w' S (Some pseudo_topo) (expected_tiers (Some pseudo_topo)) vf i (Pseudo (NewPseudoPciDevice x))"
  obtain A where A: "NewAllocatableDevices w' S tord ?hw (Some pseudo_topo) (disableVirtualFunction d) = Some A"
      "dom A = PciAddressToDeviceName ` set pseudo_addrs"
      "\<forall>x \<in> set ?hw. \<exists>i vf. A (PciAddressToDeviceName (ghw_Address x)) = Some (?dev vf i x)"
    using pseudo_offered [OF p assms(3-5), of S "disableVirtualFunction d"] by (elim exE conjE) (rule that)
  have "set (map ghw_Address ?hw) = set pseudo_addrs"
    unfolding discovered_addresses [OF assms(3,5)] by (rule distinct_offered(2) [OF assms(3)])
  then have hw: "a \<in> ghw_Address ` set ?hw" if "a \<in> set pseudo_addrs" for a using that by (simp only: set_map)
  have found: "\<exists>i vf x. A (PciAddressToDeviceName a) = Some (?dev vf i x) \<and> ghw_Address x = a \<and> x \<in> set ?hw"
    if a: "a \<in> set pseudo_addrs" for a
    using hw [OF a] A(3) by (elim imageE) (metis (no_types))
  have prod: "\<exists>sd. A (PciAddressToDeviceName a) = Some sd \<and> sd_ProductID sd = (if a \<in> set pseudo_pf_addrs then ProductIDPf else ProductIDVf)"
    if "a \<in> set pseudo_addrs" for a
    using found [OF that] offered_products [OF assms(3,5)] by (auto simp: new_spyre_device_def simp del: set_concat)
  have tiers: "\<exists>x y. A (PciAddressToDeviceName a) = Some x \<and> A (PciAddressToDeviceName b) = Some y \<and>
       (let k = tier_key t in sd_Attributes x k = sd_Attributes y k \<longleftrightarrow> same_class t a b)"
    if ab: "a \<in> set (pseudo_pf_addrs @ pseudo_vf_addrs)" "b \<in> set (pseudo_pf_addrs @ pseudo_vf_addrs)" and t: "t \<in> {0, 1, 2}" for a b t
  proof -
    have "\<exists>x. A (PciAddressToDeviceName c) = Some x \<and> sd_Attributes x (tier_key t) =
        Some (GetStringDeviceAttribute (the (tier_group pseudo_topo t c)))" if c: "c \<in> set (pseudo_pf_addrs @ pseudo_vf_addrs)" for c
      using found [OF pseudo_in_adjacency(2) [OF c]] pseudo_tier_attribute [OF assms(4) t] c by blast
    from this [OF ab(1)] this [OF ab(2)] show ?thesis
      using pseudo_tier_groups [OF assms(4) t ab]
      by (elim exE conjE) (intro exI conjI, assumption, assumption, simp only: Let_def option.inject attribute_values)
  qed
  have "GetAllocatableDevices F w S ord tord arch hw d = (Some (Inr A), w')"
    using g p A(1) by (simp add: GetAllocatableDevices_def)
  moreover have "card (dom A) = 37" using pseudo_names by (simp only: A(2))
  ultimately show ?thesis using A(2) prod tiers by blast
qed

definition pseudo_orders :: disc_orders where
  "pseudo_orders = \<lparr>numa_keys = pseudo_pf_addrs, numa_peers = (\<lambda>a. []), pf_keys = pseudo_pf_addrs,
     vf_keys = pseudo_vf_addrs, pf_keys2 = pseudo_pf_addrs\<rparr>"

definition pseudo_tier_orders :: tier_orders where
  "pseudo_tier_orders = \<lparr>addr_order = pseudo_pf_addrs @ pseudo_vf_addrs,
     peer_order = (\<lambda>t a j. case buildAdjacency pseudo_topo a of None \<Rightarrow> []
       | Some ps \<Rightarrow> filter (\<lambda>b. (peersUpToTier ps t ! j) b \<noteq> None) (pseudo_pf_addrs @ pseudo_vf_addrs)),
     group_order = (\<lambda>t. pseudo_pf_addrs @ pseudo_vf_addrs)\<rparr>"

lemma pseudo_orders_ok: "disc_orders_ok pseudo_orders pseudo_topo"
proof -
  have "distinct pseudo_pf_addrs" "distinct pseudo_vf_addrs" by code_simp+
  then show ?thesis using pseudo_doms by (simp add: disc_orders_ok_def pseudo_orders_def range_order_def del: set_concat)
qed

lemma pseudo_tier_orders_ok: "tier_orders_ok pseudo_topo pseudo_tier_orders"
proof -
  have d: "distinct (pseudo_pf_addrs @ pseudo_vf_addrs)" by code_simp
  have peers: "dom m \<subseteq> set (pseudo_pf_addrs @ pseudo_vf_addrs)"
    if "buildAdjacency pseudo_topo a = Some ps" "m \<in> set (peersUpToTier ps t)" for a ps t m
  proof -
    have "a \<in> set (pseudo_pf_addrs @ pseudo_vf_addrs)" using that(1) unfolding dom_pseudo_adjacency [symmetric] by blast
    then consider "a \<in> set (pf_switches ! 0)" | "a \<in> set (pf_switches ! 1)" | "a \<in> set (vf_switches ! 0)"
      | "a \<in> set (vf_switches ! 1)" | "a \<in> set (vf_switches ! 2)" | "a \<in> set (vf_switches ! 3)"
      unfolding concat_switches set_append by blast
    then show ?thesis
      unfolding concat_switches
      using that by cases (auto simp: pseudo_adjacency peersUpToTier_def simp del: One_nat_def dest!: distances_member split: if_splits)
  qed
  have filt: "range_order (filter (\<lambda>b. m b \<noteq> None) (pseudo_pf_addrs @ pseudo_vf_addrs)) m"
    if "dom m \<subseteq> set (pseudo_pf_addrs @ pseudo_vf_addrs)" for m :: "string \<rightharpoonup> int"
    using that d unfolding range_order_def by (auto simp del: set_concat filter_append set_append distinct_append)
  have "peer_orders_ok (buildAdjacency pseudo_topo) t (peer_order pseudo_tier_orders t)" for t
    unfolding peer_orders_ok_def
  proof (intro allI impI)
    fix a ps j assume a: "buildAdjacency pseudo_topo a = Some ps" "j < length (peersUpToTier ps t)"
    show "range_order (peer_order pseudo_tier_orders t a j) (peersUpToTier ps t ! j)"
      using filt [OF peers [OF a(1) nth_mem [OF a(2)]]] a(1) by (simp add: pseudo_tier_orders_def del: filter_append)
  qed
  moreover have "range_order (pseudo_pf_addrs @ pseudo_vf_addrs) (buildAdjacency pseudo_topo)"
    unfolding range_order_def dom_pseudo_adjacency using d by blast
  ultimately show ?thesis by (simp add: tier_orders_ok_def) (simp add: pseudo_tier_orders_def)
qed

theorem pseudo_first_start_witness:
  "\<exists>A w'. GetAllocatableDevices sample_floats empty_machine (sample_sysfs ''7'') pseudo_orders pseudo_tier_orders ''amd64'' (Inr [])
      \<lparr>topologyFile = GeneratedTopologyFilepath, disableVirtualFunction = False\<rparr> = (Some (Inr A), w') \<and> card (dom A) = 37"
proof -
  have m: "IsPseudoDeviceMode empty_machine"
    by (simp add: empty_machine_def IsPseudoDeviceMode_def Getenv_def pseudo_world_def)
  have "ReadFile empty_machine GeneratedTopologyFilepath = Inl NotExist" "GeneratedTopologyFilepath \<noteq> []" by code_simp+
  then have "ReadFile empty_machine (if topologyFile \<lparr>topologyFile = GeneratedTopologyFilepath, disableVirtualFunction = False\<rparr> = []
      then GetTopologyFile empty_machine else topologyFile \<lparr>topologyFile = GeneratedTopologyFilepath, disableVirtualFunction = False\<rparr>)
      = Inl NotExist" by simp
  moreover have "''amd64'' \<noteq> ''s390x''" by simp
  note pseudo_first_start [OF m calculation pseudo_orders_ok pseudo_tier_orders_ok this, of sample_floats "sample_sysfs ''7''" "Inr []"]
  then obtain A w' where "GetAllocatableDevices sample_floats empty_machine (sample_sysfs ''7'') pseudo_orders pseudo_tier_orders ''amd64'' (Inr [])
      \<lparr>topologyFile = GeneratedTopologyFilepath, disableVirtualFunction = False\<rparr> = (Some (Inr A), w')" "card (dom A) = 37"
    by (elim exE conjE) (rule that)
  then show ?thesis by blast
qed

text \<open>
  C40. The clock attributes are never published, whatever the topology file holds: the code expects
  \<open>Clocks\<close> to be a \<^verbatim>\<open>map[string]string\<close>, which the JSON decoder never puts into an
  \<open>any\<close>.
\<close>

theorem clocks_never_offered:
  assumes "floats_ok F" "GetPciTopology F w f = ((Some t, e), w')"
  shows "getAttributes w2 S i d (Some t) tg vf ''clockRPD'' = None \<and> getAttributes w2 S i d (Some t) tg vf ''clockSOC'' = None"
proof (rule clock_never_published)
  fix a dev m assume dev: "lookupTopoDevice t a = Some dev" and m: "td_Metadata dev = Some m"
  have "\<exists>c e. UnmarshalPciTopo F c = (t, e)"
    using assms(2) by (auto simp: GetPciTopology_def Let_def split: sum.splits prod.splits option.splits if_splits)
  then have ok: "topo_ok F t" using UnmarshalPciTopo_ok [OF assms(1)] by blast
  have "device_ok F dev"
    using dev ok by (auto simp: lookupTopoDevice_def topo_ok_def nil_map_def go_map_opt_def go_map_def split: option.splits)
  then have "any_ok F (AMap m)" using m by (simp add: device_ok_def obj_ok_def)
  then show "list_all (\<lambda>(k, v). from_json v) m" using any_ok_from_json by fastforce
qed

definition clock_file :: any where
  "clock_file = AMap [(''devices'', AMap [(''0000:1a:00.0'', AMap [(''metadata'', AMap [(''Clocks'', AMap [(''RPD'', AStr ''400 MHz'')])])])])]"

theorem clocks_never_offered_witness:
  "\<exists>t w' dev. GetPciTopology sample_floats (template_world clock_file) ''/t'' = ((Some t, None), w') \<and>
     lookupTopoDevice t ''0000:1a:00.0'' = Some dev \<and> td_Metadata dev = Some [(''Clocks'', AMap [(''RPD'', AStr ''400 MHz'')])] \<and>
     getAttributes pseudo_world (sample_sysfs ''7'') 0 (Pseudo (NewPseudoPciDevice (sample_hw ''0000:1a:00.0''))) (Some t) None False
       ''clockRPD'' = None"
proof -
  have r: "ReadFile (template_world clock_file) ''/t'' = Inr (Doc clock_file)"
    using read_template [of clock_file] by (simp add: sample_generator_def)
  obtain t where t: "UnmarshalPciTopo sample_floats (Doc clock_file) = (t, None)" "lookupTopoDevice t ''0000:1a:00.0'' =
      Some (zeroDevice\<lparr>td_Metadata := Some [(''Clocks'', AMap [(''RPD'', AStr ''400 MHz'')])]\<rparr>)"
    by (simp add: UnmarshalPciTopo_def clock_file_def decPcitopo_def topo_fields_def decField_def emptyTopo_def decDevice_def
        zeroDevice_def lookupTopoDevice_def nil_map_def)
  then have g: "GetPciTopology sample_floats (template_world clock_file) ''/t'' = ((Some t, None), template_world clock_file)"
    by (simp add: GetPciTopology_def r)
  have "getAttributes pseudo_world (sample_sysfs ''7'') 0 (Pseudo (NewPseudoPciDevice (sample_hw ''0000:1a:00.0''))) (Some t) None False
      ''clockRPD'' = None"
    using clocks_never_offered [OF sample_floats_ok g] by blast
  moreover have "td_Metadata (zeroDevice\<lparr>td_Metadata := x\<rparr>) = x" for x by (simp add: zeroDevice_def)
  ultimately show ?thesis using g t(2) by blast
qed

end
