(* ===== verification/SenlibRead.thy ===== *)
theory SenlibRead
  imports SenlibConfig
begin

text \<open>
  The readers of \<^verbatim>\<open>internal/handler/config/senlib_config_generator.go\<close>: a
  generated configuration is decoded into structs, and only its bus ids are kept.  The decoder goes
  by the tags whatever their case, so the generator and the reader agree when no key of the template
  is a tag in other letters (\<^verbatim>\<open>readable\<close>), which every step of the generator keeps.
\<close>

section \<open>The structs and their decoders\<close>

record SenlibConfigGeneral =
  PciAddresses :: "string list"
  MultiSpyreConfigPath :: string
  Doom :: bool

record SenlibConfigMetric =
  Enable :: bool
  Path :: string

record SenlibConfigMetricGeneral =
  mg_General :: SenlibConfigMetric

record SenlibConfig =
  General :: SenlibConfigGeneral
  Metric :: SenlibConfigMetricGeneral
  RISCV :: "obj option"

definition zeroConfig :: SenlibConfig where
  "zeroConfig = \<lparr>General = \<lparr>PciAddresses = [], MultiSpyreConfigPath = [], Doom = False\<rparr>,
     Metric = \<lparr>mg_General = \<lparr>Enable = False, Path = []\<rparr>\<rparr>, RISCV = None\<rparr>"

definition general_fields :: "(string \<times> SenlibConfigGeneral decoder) list" where
  "general_fields =
     [(''sen_bus_id'', decField PciAddresses (\<lambda>y g. g\<lparr>PciAddresses := y\<rparr>) (decSlice [] decString)),
      (''multi_aiu_config_path'', decField MultiSpyreConfigPath (\<lambda>y g. g\<lparr>MultiSpyreConfigPath := y\<rparr>) decString),
      (''doom'', decField Doom (\<lambda>y g. g\<lparr>Doom := y\<rparr>) decBool)]"

definition metric_fields :: "(string \<times> SenlibConfigMetric decoder) list" where
  "metric_fields =
     [(''enable'', decField Enable (\<lambda>y g. g\<lparr>Enable := y\<rparr>) decBool),
      (''path'', decField Path (\<lambda>y g. g\<lparr>Path := y\<rparr>) decString)]"

definition metric_general_fields :: "(string \<times> SenlibConfigMetricGeneral decoder) list" where
  "metric_general_fields =
     [(''general'', decField mg_General (\<lambda>y g. g\<lparr>mg_General := y\<rparr>) (decStruct metric_fields))]"

definition config_fields :: "go_floats \<Rightarrow> (string \<times> SenlibConfig decoder) list" where
  "config_fields F =
     [(''GENERAL'', decField General (\<lambda>y c. c\<lparr>General := y\<rparr>) (decStruct general_fields)),
      (''METRICS'', decField Metric (\<lambda>y c. c\<lparr>Metric := y\<rparr>) (decStruct metric_general_fields)),
      (''RISCV'', decField RISCV (\<lambda>y c. c\<lparr>RISCV := y\<rparr>) (decObj F))]"

definition decSenlibConfig :: "go_floats \<Rightarrow> SenlibConfig decoder" where
  "decSenlibConfig F = decStruct (config_fields F)"

section \<open>The readers\<close>

text \<open>
  A file that is there and cannot be opened is an error of \<open>os.Open\<close>; a directory is opened, and
  reading it fails.
\<close>

definition ReadSenlibConfig :: "world \<Rightarrow> string \<Rightarrow> err + string list" where
  "ReadSenlibConfig w mntPath =
     (let f = Join [mntPath, GetConfigFileName w] in
      case ReadFile w f of
        Inl e \<Rightarrow> Inl (Wrapped (if Stat w f = Inr Dir then ''failed to decode JSON'' else ''failed to open file'') e)
      | Inr (Doc v) \<Rightarrow>
          (case decSenlibConfig (floats w) (plain v) zeroConfig of
             (config, bad) \<Rightarrow>
               if bad then Inl (Wrapped ''failed to decode JSON'' (Msg ''json type''))
               else Inr (PciAddresses (General config)))
      | Inr _ \<Rightarrow> Inl (Wrapped ''failed to decode JSON'' (Msg ''json syntax'')))"

definition ReadResourcePool :: "world \<Rightarrow> string \<Rightarrow> content \<times> err option" where
  "ReadResourcePool w mntPath =
     (let f = Join [mntPath, ''resource_pool''] in
      case ReadFile w f of
        Inl e \<Rightarrow> (Raw [], Some (if Stat w f = Inr Dir then e else Wrapped ''failed to open file'' e))
      | Inr data \<Rightarrow> (data, None))"

section \<open>What the decoders accept\<close>

lemma senlib_tags [simp]:
  "foldName ''GENERAL'' = ''GENERAL''" "foldName ''METRICS'' = ''METRICS''" "foldName ''RISCV'' = ''RISCV''"
  "foldName ''SNT_MCI'' = ''SNT_MCI''" "foldName ''sen_bus_id'' = ''SEN_BUS_ID''"
  "foldName ''multi_aiu_config_path'' = ''MULTI_AIU_CONFIG_PATH''" "foldName ''doom'' = ''DOOM''"
  "foldName ''enable'' = ''ENABLE''" "foldName ''path'' = ''PATH''" "foldName ''general'' = ''GENERAL''"
  by code_simp+

lemma steady_senlib:
  "steady_fields general_fields" "steady_fields metric_fields" "steady_fields metric_general_fields"
  "steady_fields (config_fields F)"
proof -
  show g: "steady_fields general_fields" and m: "steady_fields metric_fields"
    by (simp_all add: steady_fields_def general_fields_def metric_fields_def steady_field steady_slice steady_basic)
  show mg: "steady_fields metric_general_fields"
    unfolding steady_fields_def metric_general_fields_def by (simp add: steady_field steady_struct m)
  show "steady_fields (config_fields F)"
    unfolding steady_fields_def config_fields_def by (simp add: steady_field steady_struct steady_obj g mg)
qed

lemma decElems_strings: "decElems z decString (map AStr ss) old = (ss, False)"
  by (induction ss arbitrary: old) simp_all

lemma accepts_basic [simp]:
  "accepts (decField get pt decString) (AStr s)" "accepts (decField get' pt' decBool) (ABool b)"
  "accepts (decField get'' pt'' (decSlice [] decString)) (AStrs ss)"
  by (simp_all add: accepts_def decField_def decElems_strings)

lemma member_ok_senlib [simp]:
  "member_ok (config_fields F) ''GENERAL'' (AMap g) = members_ok general_fields g"
  "member_ok (config_fields F) ''METRICS'' (AMap mc) = members_ok metric_general_fields mc"
  "member_ok (config_fields F) ''SNT_MCI'' v"
  "member_ok metric_general_fields ''general'' (AMap gc) = members_ok metric_fields gc"
  "member_ok metric_fields ''path'' (AStr s)" "member_ok metric_fields ''enable'' (ABool b)"
  "member_ok general_fields ''sen_bus_id'' (AStrs ids)" "member_ok general_fields ''doom'' (ABool b)"
  "member_ok general_fields ''multi_aiu_config_path'' (AStr s)"
  by (simp_all add: member_ok_def config_fields_def metric_general_fields_def metric_fields_def general_fields_def
      accepts_struct steady_senlib [unfolded config_fields_def metric_general_fields_def metric_fields_def general_fields_def])

section \<open>Readable configurations\<close>

text \<open>The reader accepts the document, and only GENERAL and its \<open>sen\_bus\_id\<close> go to the bus ids.\<close>

definition readable :: "go_floats \<Rightarrow> obj \<Rightarrow> bool" where
  "readable F m \<longleftrightarrow> members_ok (config_fields F) m \<and> one_spelling ''GENERAL'' m \<and>
     (\<forall>g. obj_get m ''GENERAL'' = Some (AMap g) \<longrightarrow> one_spelling ''sen_bus_id'' g)"

lemma readable_set_general:
  assumes "set_general k v m = Some r" "readable F m" "member_ok general_fields k v"
    and "k = ''sen_bus_id'' \<or> foldName k \<noteq> ''SEN_BUS_ID''"
  shows "readable F r"
proof -
  obtain g where g: "obj_get m ''GENERAL'' = Some (AMap g)" "r = obj_set m ''GENERAL'' (AMap (obj_set g k v))"
    using assms(1) by (auto simp: set_general_def bind_eq_Some_conv elim!: as_map.elims split: option.splits)
  have "members_ok general_fields g" using members_ok_get [OF _ g(1), of "config_fields F"] assms(2) by (simp add: readable_def)
  then have "members_ok general_fields (obj_set g k v)" using assms(3) by (rule members_ok_set)
  then show ?thesis
    using assms(2,4) g(1) by (auto simp: readable_def g(2) members_ok_set one_spelling_set)
qed

lemma readable_set_top:
  assumes "readable F m" "member_ok (config_fields F) k v" "k \<in> {''METRICS'', ''SNT_MCI''}"
  shows "readable F (obj_set m k v)"
  using assms by (auto simp: readable_def members_ok_set one_spelling_set)

lemma readable_set_metrics:
  assumes "nested_set [''METRICS''] ''general'' (AMap gc) m = Some r" "readable F m" "members_ok metric_fields gc"
  shows "readable F r"
proof -
  obtain mc where mc: "obj_get m ''METRICS'' = Some (AMap mc)" "r = obj_set m ''METRICS'' (AMap (obj_set mc ''general'' (AMap gc)))"
    using assms(1) by (auto simp: bind_eq_Some_conv elim!: as_map.elims split: option.splits)
  have "members_ok metric_general_fields mc" using members_ok_get [OF _ mc(1), of "config_fields F"] assms(2) by (simp add: readable_def)
  then show ?thesis
    unfolding mc(2) by (intro readable_set_top assms(2)) (simp_all add: members_ok_set assms(3))
qed

lemma readable_set_path:
  assumes "nested_set [''METRICS'', ''general''] ''path'' (AStr p) m = Some r" "readable F m"
  shows "readable F r"
proof -
  obtain mc gc where mc: "obj_get m ''METRICS'' = Some (AMap mc)" "obj_get mc ''general'' = Some (AMap gc)"
      and r: "nested_set [''METRICS''] ''general'' (AMap (obj_set gc ''path'' (AStr p))) m = Some r"
    using assms(1) by (auto simp: bind_eq_Some_conv elim!: as_map.elims split: option.splits)
  have "members_ok metric_general_fields mc" using members_ok_get [OF _ mc(1), of "config_fields F"] assms(2) by (simp add: readable_def)
  from members_ok_get [OF this mc(2)] show ?thesis
    by (intro readable_set_metrics [OF r assms(2)]) (simp add: members_ok_set)
qed

lemma readable_local_metrics: "local_metrics ids m = Some r \<Longrightarrow> readable F m \<Longrightarrow> readable F r"
  by (auto simp: local_metrics_def elim: readable_set_general split: if_splits)

lemma local_metric_general_ok: "member_ok metric_general_fields ''general'' local_metric_general"
  by (simp add: local_metric_general_def members_ok_def)

lemma readable_setMetrics:
  assumes "setMetrics ids m = (e, Some r)" "readable F m"
  shows "readable F r"
proof -
  have g: "readable F m'" if "nested_set [''METRICS''] ''general'' local_metric_general m = Some m'" for m'
    using readable_set_metrics [OF that [unfolded local_metric_general_def] assms(2)] by (simp add: members_ok_def)
  have t: "readable F (obj_set m ''METRICS'' (AMap [(''general'', local_metric_general)]))"
    using assms(2) by (rule readable_set_top) (simp_all add: members_ok_def local_metric_general_ok)
  have p: "readable F m'" if "nested_set [''METRICS'', ''general''] ''path'' (AStr q) m = Some m'" for m' q
    using readable_set_path [OF that assms(2)] .
  have s: "readable F m''" if "set_general ''multi_aiu_config_path'' (AStr q) m' = Some m''" "readable F m'" for m' m'' q
    using readable_set_general [OF that] by simp
  show ?thesis
    using assms g t p s unfolding setMetrics_def
    by (auto simp only: bind_eq_Some_conv prod.inject option.inject split: option.splits if_splits
      intro: readable_local_metrics dest: s p)
qed

lemma ensure_map_set: "ensure_map ks k m = Some r \<Longrightarrow> r = m \<or> nested_set ks k (AMap []) m = Some r"
  by (auto simp: ensure_map_def split: option.splits if_splits)

lemma nested_set_top_value: "nested_set ks k v m = Some r \<Longrightarrow> \<exists>x. r = obj_set m (hd (ks @ [k])) x"
  by (cases ks) (auto split: option.splits)

lemma readable_modifyRISCV:
  assumes "modifyRISCVContent p m = Some r" "readable F m"
  shows "readable F r"
proof (cases "p = ProductIDVf")
  case False
  have set: "readable F b" if "nested_set ks k v a = Some b" "readable F a" "hd (ks @ [k]) = ''SNT_MCI''" for ks k v a b
    using nested_set_top_value [OF that(1)] that(2,3) by (auto intro: readable_set_top)
  have ens: "readable F b" if "ensure_map ks k a = Some b" "readable F a" "hd (ks @ [k]) = ''SNT_MCI''" for ks k a b
    using ensure_map_set [OF that(1)] set that(2,3) by blast
  obtain m1 m2 m3 where "ensure_map [] ''SNT_MCI'' m = Some m1" "ensure_map [''SNT_MCI''] ''DCR'' m1 = Some m2"
      "ensure_map [''SNT_MCI'', ''DCR''] ''MCI_CTRL'' m2 = Some m3"
      "nested_set [''SNT_MCI'', ''DCR'', ''MCI_CTRL''] ''ENABLE_RISCV'' (AStr ''0x0'') m3 = Some r"
    using assms(1) False by (auto simp: modifyRISCVContent_def bind_eq_Some_conv)
  then show ?thesis using ens set assms(2) by (metis append_Cons append_Nil list.sel(1))
qed (use assms in \<open>simp add: modifyRISCVContent_def\<close>)

lemma configOf_readable:
  assumes "configOf p ids m = Inr c" "readable F m"
  shows "\<exists>r g. c = AMap r \<and> readable F r \<and> obj_get r ''GENERAL'' = Some (AMap g) \<and>
    obj_get g ''sen_bus_id'' = Some (AStrs ids)"
proof -
  from assms(1) obtain m1 m2 r1 r where m: "set_general ''sen_bus_id'' (AStrs ids) m = Some m1"
      "set_general ''doom'' (ABool (p = ProductIDVf)) m1 = Some m2" "setMetrics ids m2 = (None, Some r1)"
      "modifyRISCVContent p r1 = Some r" "c = AMap r"
    by (auto simp: configOf_def bind_eq_Some_conv split: option.splits prod.splits)
  have "readable F m1" by (rule readable_set_general [OF m(1) assms(2)]) simp_all
  from readable_set_general [OF m(2) this] have "readable F m2" by simp
  from readable_modifyRISCV [OF m(4) readable_setMetrics [OF m(3) this]] have rd: "readable F r" .
  have "nested_get [''GENERAL''] ''sen_bus_id'' m1 = Some (AStrs ids)"
    using nested_set_get m(1) unfolding set_general_def by blast
  moreover have "nested_get [''GENERAL''] ''sen_bus_id'' m2 = nested_get [''GENERAL''] ''sen_bus_id'' m1"
    using nested_set_other [of "[''GENERAL'']" "''doom''" _ m1 m2 "''sen_bus_id''"] m(2) unfolding set_general_def by simp
  moreover obtain g2 where "obj_get m2 ''GENERAL'' = Some (AMap g2)"
    using m(2) by (auto simp: set_general_def bind_eq_Some_conv split: option.splits)
  then have "nested_get [''GENERAL''] ''sen_bus_id'' r1 = nested_get [''GENERAL''] ''sen_bus_id'' m2"
    using setMetrics_effect [OF _ m(3), of g2 "''sen_bus_id''"] by simp
  moreover have "obj_get r ''GENERAL'' = obj_get r1 ''GENERAL''"
    using modifyRISCVContent_effect [OF m(4), of "''GENERAL''"] by simp
  ultimately have "nested_get [''GENERAL''] ''sen_bus_id'' r = Some (AStrs ids)" by simp
  then show ?thesis using rd m(5) by (auto simp: bind_eq_Some_conv elim!: as_map.elims)
qed

lemma decSenlibConfig_ids:
  assumes "readable F r" "obj_get r ''GENERAL'' = Some (AMap g)" "obj_get g ''sen_bus_id'' = Some (AStrs ids)"
  shows "\<exists>c. decSenlibConfig F (plain (AMap r)) zeroConfig = (c, False) \<and> PciAddresses (General c) = ids"
proof -
  have ok: "members_ok (config_fields F) r" "one_spelling ''GENERAL'' r" "one_spelling ''sen_bus_id'' g"
    using assms by (simp_all add: readable_def)
  have "find (\<lambda>(t, d). foldName t = foldName ''GENERAL'') (config_fields F) =
      Some (''GENERAL'', decField General (\<lambda>y c. c\<lparr>General := y\<rparr>) (decStruct general_fields))"
      "other_fields_keep (config_fields F) ''GENERAL'' General"
    by (simp_all add: config_fields_def other_fields_keep_def decField_def case_prod_beta)
  from decFields_get [OF this ok(2) assms(2), of zeroConfig False]
  have y: "General (fst (decFields (config_fields F) (plain_members r) (zeroConfig, False))) =
      fst (decFields general_fields (plain_members g) (General zeroConfig, False))"
    by (auto simp: decField_def case_prod_beta)
  have "find (\<lambda>(t, d). foldName t = foldName ''sen_bus_id'') general_fields =
      Some (''sen_bus_id'', decField PciAddresses (\<lambda>y g. g\<lparr>PciAddresses := y\<rparr>) (decSlice [] decString))"
      "other_fields_keep general_fields ''sen_bus_id'' PciAddresses"
    by (simp_all add: general_fields_def other_fields_keep_def decField_def case_prod_beta)
  from decFields_get [OF this ok(3) assms(3), of "General zeroConfig" False]
  have "PciAddresses (fst (decFields general_fields (plain_members g) (General zeroConfig, False))) = ids"
    by (auto simp: decField_def decElems_strings)
  moreover have "\<not> snd (decFields (config_fields F) (plain_members r) (zeroConfig, False))"
    using decFields_error [OF steady_senlib(4)] ok(1) by simp
  then obtain c where c: "decFields (config_fields F) (plain_members r) (zeroConfig, False) = (c, False)"
    by (cases "decFields (config_fields F) (plain_members r) (zeroConfig, False)") simp
  ultimately have "PciAddresses (General c) = ids" using y by (simp only: c fst_conv)
  then show ?thesis by (simp add: decSenlibConfig_def c)
qed

section \<open>Property\<close>

text \<open>
  C24. A configuration file that was generated from a template the reader accepts, whose keys are no
  tags of the reader in other letters, is read back as exactly the bus ids it was generated for.
\<close>

theorem senlib_roundtrip:
  assumes "no_faults w" "ReadFile w (templateFilePath g) = Inr tmpl" "unmarshal_map w tmpl = Some m"
    and "\<not> snd (decSenlibConfig (floats w) (plain (AMap m)) zeroConfig)" "one_spelling ''GENERAL'' m"
    and "\<forall>gm. obj_get m ''GENERAL'' = Some (AMap gm) \<longrightarrow> one_spelling ''sen_bus_id'' gm"
    and "GenerateConfigFile g w p ids outputPath = (None, w')"
  shows "ReadSenlibConfig w' outputPath = Inr ids"
proof -
  let ?f = "Join [outputPath, GetConfigFileName w]"
  have rd: "readable (floats w) m"
    using assms(4-6) decFields_error [OF steady_senlib(4)] by (simp add: readable_def decSenlibConfig_def)
  obtain c where c: "configOf p ids m = Inr c" "WriteTo w ?f (Doc c) = (None, w')"
    using assms(2,3,7) by (auto simp: GenerateConfigFile_def GenerateConfigContent_def split: sum.splits)
  obtain r gr where r: "c = AMap r" "readable (floats w) r" "obj_get r ''GENERAL'' = Some (AMap gr)"
      "obj_get gr ''sen_bus_id'' = Some (AStrs ids)"
    using configOf_readable [OF c(1) rd] by blast
  have "?f \<noteq> []" using c(2) by (auto simp: WriteTo_def Create_def Let_def split: option.splits prod.splits if_splits)
  with WriteTo_readable [of w ?f "Doc c"] c(2) assms(1) have rf: "ReadFile w' ?f = Inr (Doc c)" by simp
  have "GetConfigFileName w' = GetConfigFileName w" "floats w' = floats w"
    using WriteTo_same_os [of w ?f "Doc c"] c(2) by (simp_all add: same_os_def GetConfigFileName_def GetEnvOrDefault_def LookupEnv_def Getenv_def)
  then show ?thesis
    using decSenlibConfig_ids [OF r(2-4)] rf by (auto simp: ReadSenlibConfig_def r(1) Let_def)
qed

text \<open>A world with the sample template and a directory for the output.\<close>

definition reader_world :: world where
  "reader_world = (template_world (AMap sample_template))\<lparr>files := [([''/'', ''t''], File (Doc (AMap sample_template))), ([''/'', ''o''], Dir)]\<rparr>"

theorem senlib_roundtrip_witness:
  "\<exists>w'. GenerateConfigFile sample_generator reader_world ProductIDPf [''0000:1a:00.0'', ''0000:1c:00.0''] ''/o'' = (None, w') \<and>
     ReadSenlibConfig w' ''/o'' = Inr [''0000:1a:00.0'', ''0000:1c:00.0'']"
proof -
  have "no_faults reader_world" by (simp add: reader_world_def template_world_def no_faults_def)
  moreover have "ReadFile reader_world (templateFilePath sample_generator) = Inr (Doc (AMap sample_template))"
    by code_simp
  moreover have "unmarshal_map reader_world (Doc (AMap sample_template)) = Some sample_template" by code_simp
  moreover have "\<not> snd (decSenlibConfig (floats reader_world) (plain (AMap sample_template)) zeroConfig)" by code_simp
  moreover have "one_spelling ''GENERAL'' sample_template" by code_simp
  moreover have "\<forall>gm. obj_get sample_template ''GENERAL'' = Some (AMap gm) \<longrightarrow> one_spelling ''sen_bus_id'' gm"
    by (simp add: sample_template_def one_spelling_def) code_simp
  moreover have "fst (GenerateConfigFile sample_generator reader_world ProductIDPf [''0000:1a:00.0'', ''0000:1c:00.0''] ''/o'') = None"
    by code_simp
  then obtain w' where "GenerateConfigFile sample_generator reader_world ProductIDPf [''0000:1a:00.0'', ''0000:1c:00.0''] ''/o'' = (None, w')"
    by (metis prod.collapse)
  ultimately show ?thesis using senlib_roundtrip by blast
qed

end
