(* ===== verification/Spec2Isabelle.thy ===== *)
theory Spec2Isabelle
  imports HealthRaces CliFlags PseudoMode SenlibRead
begin

text \<open>
  \<^bold>\<open>The IBM Spyre DRA driver.\<close>  A Kubernetes node plugin for Dynamic Resource
  Allocation: it discovers the Spyre accelerators of its node, publishes them as a ResourceSlice,
  prepares and unprepares the resource claims the kubelet hands it, and follows the devices'
  health.  This development models the program from its Go source and proves what makes it correct.

  \<^bold>\<open>How the program works.\<close>  \<^verbatim>\<open>RunPlugin\<close> makes the directories and starts the driver.
  \<^verbatim>\<open>NewDeviceState\<close> discovers the devices from \<^verbatim>\<open>sysfs\<close> and a topology file
  (or invents them in pseudo mode), rewrites the common CDI spec, removes config folders no spec
  mounts and opens the checkpoint.  \<^verbatim>\<open>Prepare\<close> looks a claim up in the checkpoint, else
  checks its devices, generates its configuration in a fresh folder, writes its CDI spec and records
  it; \<^verbatim>\<open>Unprepare\<close> goes the other way.  A health client keeps a gRPC stream open,
  reconnecting with back-off; a monitor turns its reports into device states, and the driver
  publishes the devices again when a state changed.

  \<^bold>\<open>Theories, and the sources under src/ they model.\<close>

  \<^item> Prelude: errors, maps and their iteration order, folds that may fail.  GoStrings, GoAny, CdiTypes
    and FS: the parts of Go's \<^verbatim>\<open>strings\<close>, \<^verbatim>\<open>strconv\<close>, \<^verbatim>\<open>filepath\<close>,
    \<^verbatim>\<open>encoding/json\<close> and \<^verbatim>\<open>os\<close> packages, and the CDI data, that the sources use.  The file system
    is a list of paths with contents; every system call may fail by \<^verbatim>\<open>faults\<close>.
  \<^item> GoJson: how \<^verbatim>\<open>encoding/json\<close> fills typed values: matching of names, type errors that do
    not stop the decoder, \<^verbatim>\<open>null\<close>, and members left out when empty.
  \<^item> UnionFind, TierGroups and Topology: \<^verbatim>\<open>pkg/topology/types/pcitopo\<close>: union-find with
    path compression, the tier groups of a PCI topology, the NUMA numbering.  TopoJson: reading and
    writing a topology.  PseudoTopo: \<^verbatim>\<open>pkg/topology/pseudo.go\<close>, the compiled-in topology.
  \<^item> Utils: \<^verbatim>\<open>pkg/utils\<close> and \<^verbatim>\<open>pkg/const\<close>.  Devices: \<^verbatim>\<open>pkg/types\<close>, the two
    kinds of devices and the attributes published for them.  Discovery:
    \<^verbatim>\<open>internal/discovery\<close> and \<^verbatim>\<open>pkg/topology/topology.go\<close>.  PseudoMode: what the two and the
    tier groups give on a machine without a topology file.
  \<^item> SenlibConfig, SenlibRead and ConfigMounts: \<^verbatim>\<open>internal/handler/config\<close>: the generated Senlib
    configuration, its readers, and the folders mounted into a container.  CDI: \<^verbatim>\<open>internal/handler/cdi.go\<close>.
  \<^item> Checkpoint, Configuration and DeviceState: \<^verbatim>\<open>internal/state\<close> and the
    configuration of \<^verbatim>\<open>pkg/flags\<close> and \<^verbatim>\<open>api/\<close>.  A \<^verbatim>\<open>machine\<close> is the process's
    \<^verbatim>\<open>DeviceState\<close> with its package variables, the checkpoint store and the operating system;
    each method of \<^verbatim>\<open>state.go\<close> holds the mutex throughout and is one function on machines.
  \<^item> ClaimLife: the writes of Prepare and Unprepare as a step relation, with the loss of the process
    as a step.  Restart: what the start-up does to the disk and the store of an earlier process.
  \<^item> HealthState, HealthClient, HealthMonitor, HealthService: \<^verbatim>\<open>internal/health\<close>.  Driver:
    \<^verbatim>\<open>internal/driver/driver.go\<close>.  HealthFlow: the monitor's loop interleaved with
    reports.  HealthRaces: the client's listener and reconnection goroutines interleaved.
  \<^item> Plugin and CliFlags: \<^verbatim>\<open>cmd/spyre-dra-plugin/main.go\<close> and the flag lists of
    \<^verbatim>\<open>pkg/flags\<close>.

  \<^bold>\<open>Interfaces.\<close>  Code that is not in the repository is a parameter.  The CDI library is a record
  \<^verbatim>\<open>cdi_lib\<close> with the laws \<^verbatim>\<open>cdi_library\<close> (a written spec is read back, writing touches only
  its file, names of specs are determined by the transient id), discharged by a library made of
  the file-system calls; the kubelet's checkpoint manager is \<^verbatim>\<open>ckpt_lib\<close> with the laws
  \<^verbatim>\<open>checkpoint_store\<close> (what was created is read back, a failed creation changes nothing, every
  checkpoint is listed), discharged by a directory that runs the driver's own Marshal, Unmarshal
  and Verify methods.  gRPC, TLS parsing, ghw, the logging library, the hash of the
  checksum and the kubelet plugin helper are plain arguments.  How Go reads and prints floating-point
  numbers is an argument, \<^verbatim>\<open>go_floats\<close>, of which some theorems need that printing is stable
  (\<^verbatim>\<open>floats_ok\<close>).  Where Go ranges over a map the order is
  an argument, and the theorems hold for every order.

  \<^bold>\<open>What the theorems show.\<close>

  \<^item> Claims: in every state reached by any sequence of writes and crashes, each recorded claim has a
    readable CDI spec naming its devices; Prepare and Unprepare are such sequences on every branch;
    a restart of the process keeps records, specs and mounted folders and re-establishes the
    invariant, up to the level of \<^verbatim>\<open>RunPlugin\<close>; preparing is idempotent across restarts and batches,
    claims do not disturb each other, and preparing then unpreparing leaves no trace but directories.
  \<^item> Topology: the union-find sweep, run in any order, computes exactly the connected components of
    the tiers, named by their smallest address, nested and published as such.  A topology that was read
    is written to a file that reads as the same topology.  In pseudo mode a missing topology file is
    made once and stays, and exactly its 37 devices are offered, with the groups of their switches.
  \<^item> Devices: exactly the supported, isolated devices are offered; attributes are well typed, names
    injective, states updated as reported.  The clock attributes are never published, whatever the
    topology file holds.
  \<^item> Configuration: what a generated configuration says, when generation fails or panics, that
    it is read back as the bus ids it was made for, and that the mounts of a claim are its own.
  \<^item> Health: however reports and the monitor interleave, when the monitor is quiet the devices show
    the last report, and it gets quiet in at most seven actions; the listener keeps the last report;
    reconnection follows its schedule and succeeds at the first usable attempt; the atomic flags of the
    client are locks, but its clean-up races with its reconnection.

  \<^bold>\<open>Bounds and fuel.\<close>  Union-find's \<^verbatim>\<open>find\<close> may not return on a cyclic parent map; the
  theorems show that it does on every map the code builds.  The UUID loop has the code's own bound of
  ten.  The reconnection loop runs over the code's attempt limit.  The health flow's bound of
  seven actions is proved by a measure, not assumed.  No definition uses fuel of its own.

  \<^bold>\<open>Not modelled.\<close>  Log lines; parsing of the command line (urfave/cli), client-go, the API
  machinery's decoder and scheme (their answers are arguments); symbolic links, permission bits
  and partial writes of files; the text of a JSON file (a file holds the document); the capacities of a device, which are always empty;
  the health mock server and the test utilities, which are not part of the driver; the Helm chart and
  the demos.
\<close>

end
